(* ===== verification/Prelude.thy ===== *)
theory Prelude
  imports Main "HOL-Library.Word" "HOL-Library.Multiset"
begin

text \<open>
  Shared vocabulary of the HiCollie development: the machine integers of the C++ code, the part of
  the C++ standard library the sources call (\<^verbatim>\<open>std::string::find\<close>, \<^verbatim>\<open>substr\<close>, \<^verbatim>\<open>std::to_string\<close>,
  \<^verbatim>\<open>isdigit\<close>, \<^verbatim>\<open>isspace\<close>, \<^verbatim>\<open>strtol\<close>), the flag bits of \<^verbatim>\<open>xcollie_define.h\<close>, and generic lemmas.
  A C++ \<^verbatim>\<open>npos\<close> is \<^term>\<open>None\<close>. Unsigned integers are words, so that \<open>+\<close>, \<open>-\<close> and \<open>*\<close> wrap as
  they do in C++; signed integers whose range no statement depends on are \<^typ>\<open>int\<close>.
\<close>

unbundle bit_operations_syntax

type_synonym u64 = "64 word"
type_synonym u32 = "32 word"

named_theorems cstring_simps "equations of the C++ string operations"
named_theorems word_order "word order facts as facts of natural numbers"

section \<open>Characters and strings\<close>

definition isdigit :: "char \<Rightarrow> bool" where
  "isdigit c \<longleftrightarrow> 48 \<le> (of_char c :: nat) \<and> (of_char c :: nat) \<le> 57"

definition isspace :: "char \<Rightarrow> bool" where
  "isspace c \<longleftrightarrow> (of_char c :: nat) = 32 \<or> 9 \<le> (of_char c :: nat) \<and> (of_char c :: nat) \<le> 13"

definition digit_val :: "char \<Rightarrow> nat" where
  "digit_val c = of_char c - 48"

definition digit_char :: "nat \<Rightarrow> char" where
  "digit_char d = char_of (48 + d)"

fun find_aux :: "string \<Rightarrow> string \<Rightarrow> nat \<Rightarrow> nat option" where
  "find_aux pat [] i = (if pat = [] then Some i else None)"
| "find_aux pat (c # s) i =
     (if take (length pat) (c # s) = pat then Some i else find_aux pat s (Suc i))"

definition str_find :: "string \<Rightarrow> string \<Rightarrow> nat \<Rightarrow> nat option" where
  "str_find s pat pos = (if length s < pos then None else find_aux pat (drop pos s) pos)"

abbreviation str_contains :: "string \<Rightarrow> string \<Rightarrow> bool" where
  "str_contains s pat \<equiv> str_find s pat 0 \<noteq> None"

definition str_substr :: "string \<Rightarrow> nat \<Rightarrow> nat \<Rightarrow> string" where
  "str_substr s pos n = take n (drop pos s)"

fun show_nat :: "nat \<Rightarrow> string" where
  "show_nat n = (if n < 10 then [digit_char n] else show_nat (n div 10) @ [digit_char (n mod 10)])"

declare show_nat.simps [simp del]

definition show_int :: "int \<Rightarrow> string" where
  "show_int i = (if i < 0 then CHR ''-'' # show_nat (nat (- i)) else show_nat (nat i))"

fun num_of_digits :: "nat \<Rightarrow> string \<Rightarrow> nat" where
  "num_of_digits acc [] = acc"
| "num_of_digits acc (c # s) = num_of_digits (acc * 10 + digit_val c) s"

section \<open>Lemmas on characters and decimal numbers\<close>

lemma digit_val_char [simp]: "d < 10 \<Longrightarrow> digit_val (digit_char d) = d"
  by (simp add: digit_val_def digit_char_def)

lemma isdigit_digit_char [simp]: "d < 10 \<Longrightarrow> isdigit (digit_char d)"
  by (simp add: isdigit_def digit_char_def)

lemma digit_val_less [simp]: "isdigit c \<Longrightarrow> digit_val c < 10"
  by (auto simp: isdigit_def digit_val_def)

lemma isdigit_not_isspace: "isdigit c \<Longrightarrow> \<not> isspace c"
  by (auto simp: isdigit_def isspace_def)

lemma num_of_digits_snoc [simp]:
  "num_of_digits acc (s @ [c]) = num_of_digits acc s * 10 + digit_val c"
  by (induction s arbitrary: acc) auto

lemma num_of_digits_mono: "acc \<le> num_of_digits acc s"
proof (induction s arbitrary: acc)
  case (Cons c s)
  have "acc \<le> acc * 10 + digit_val c" by simp
  also have "\<dots> \<le> num_of_digits (acc * 10 + digit_val c) s" by (rule Cons)
  finally show ?case by simp
qed simp

lemma num_of_digits_bound:
  "\<forall>c \<in> set s. isdigit c \<Longrightarrow> num_of_digits acc s < (acc + 1) * 10 ^ length s"
proof (induction s arbitrary: acc)
  case Nil
  then show ?case by simp
next
  case (Cons c s)
  then have "digit_val c < 10" by simp
  have "num_of_digits (acc * 10 + digit_val c) s < (acc * 10 + digit_val c + 1) * 10 ^ length s"
    using Cons by simp
  also have "\<dots> \<le> ((acc + 1) * 10) * 10 ^ length s"
    using \<open>digit_val c < 10\<close> by (intro mult_right_mono) auto
  finally show ?case by (simp add: algebra_simps)
qed

lemma show_nat_digits: "\<forall>c \<in> set (show_nat n). isdigit c"
proof (induction n rule: show_nat.induct)
  case (1 n)
  then show ?case by (subst show_nat.simps) (auto split: if_splits)
qed

lemma show_nat_not_Nil [simp]: "show_nat n \<noteq> []"
  by (subst show_nat.simps) simp

lemma Nil_neq_show_nat [simp]: "[] \<noteq> show_nat n"
  by (metis show_nat_not_Nil)

lemma length_show_nat: "n < 10 ^ k \<Longrightarrow> 0 < k \<Longrightarrow> length (show_nat n) \<le> k"
proof (induction k arbitrary: n)
  case (Suc k)
  show ?case
  proof (cases "n < 10")
    case False
    then have "0 < k" using Suc.prems by (cases k) auto
    moreover have "n div 10 < 10 ^ k" using Suc.prems by (simp add: less_mult_imp_div_less)
    ultimately show ?thesis using Suc.IH [of "n div 10"] False by (subst show_nat.simps) simp
  qed (subst show_nat.simps, simp)
qed simp

lemma num_of_show_nat [simp]: "num_of_digits 0 (show_nat n) = n"
proof (induction n rule: show_nat.induct)
  case (1 n)
  then show ?case by (subst show_nat.simps) simp
qed

lemma show_nat_inject [simp]: "show_nat m = show_nat n \<longleftrightarrow> m = n"
  by (metis num_of_show_nat)

section \<open>Lemmas on searching\<close>

lemma find_aux_ge: "find_aux pat s i = Some j \<Longrightarrow> i \<le> j \<and> j + length pat \<le> i + length s"
proof (induction s arbitrary: i)
  case (Cons c s)
  show ?case
  proof (cases "take (length pat) (c # s) = pat")
    case True
    then have "length pat \<le> length (c # s)"
      by (metis length_take min.cobounded1)
    with Cons.prems True show ?thesis by simp
  next
    case False
    with Cons show ?thesis by fastforce
  qed
qed (auto split: if_splits)

lemma find_aux_match:
  "find_aux pat s i = Some j \<Longrightarrow> take (length pat) (drop (j - i) s) = pat"
proof (induction s arbitrary: i)
  case (Cons c s)
  show ?case
  proof (cases "take (length pat) (c # s) = pat")
    case True
    with Cons.prems show ?thesis by simp
  next
    case False
    with Cons.prems have rec: "find_aux pat s (Suc i) = Some j" by simp
    then have "Suc i \<le> j" using find_aux_ge by blast
    then have "j - i = Suc (j - Suc i)" by simp
    with Cons.IH [OF rec] show ?thesis by simp
  qed
qed (auto split: if_splits)

lemma str_find_bounds:
  "str_find s pat pos = Some j \<Longrightarrow> pos \<le> j \<and> j + length pat \<le> length s"
  by (auto simp: str_find_def split: if_splits dest!: find_aux_ge)

lemma str_find_match:
  assumes "str_find s pat pos = Some j"
  shows "take (length pat) (drop j s) = pat"
proof -
  have "pos \<le> j" using assms str_find_bounds by blast
  moreover have "find_aux pat (drop pos s) pos = Some j"
    using assms by (simp add: str_find_def split: if_splits)
  ultimately show ?thesis using find_aux_match by fastforce
qed

lemma find_aux_char_None: "find_aux [c] s i = None \<longleftrightarrow> c \<notin> set s"
  by (induction s arbitrary: i) auto

lemma str_find_char_None: "pos \<le> length s \<Longrightarrow> str_find s [c] pos = None \<longleftrightarrow> c \<notin> set (drop pos s)"
  by (simp add: str_find_def find_aux_char_None)

lemma find_aux_char_append:
  "c \<notin> set s \<Longrightarrow> find_aux [c] (s @ c # t) i = Some (i + length s)"
  by (induction s arbitrary: i) auto

lemma str_find_char_append [cstring_simps]:
  "c \<notin> set s \<Longrightarrow> str_find (s @ c # t) [c] 0 = Some (length s)"
  by (simp add: str_find_def find_aux_char_append)

section \<open>Timeout flags (xcollie\_define.h)\<close>

abbreviation XCOLLIE_FLAG_NOOP :: u32 where "XCOLLIE_FLAG_NOOP \<equiv> 0"
abbreviation XCOLLIE_FLAG_LOG :: u32 where "XCOLLIE_FLAG_LOG \<equiv> 1"
abbreviation XCOLLIE_FLAG_RECOVERY :: u32 where "XCOLLIE_FLAG_RECOVERY \<equiv> 2"
abbreviation XCOLLIE_FLAG_DEFAULT :: u32 where "XCOLLIE_FLAG_DEFAULT \<equiv> - 1"

definition flag_log :: "u32 \<Rightarrow> bool" where
  "flag_log f \<longleftrightarrow> f AND XCOLLIE_FLAG_LOG \<noteq> 0"

definition flag_recovery :: "u32 \<Rightarrow> bool" where
  "flag_recovery f \<longleftrightarrow> f AND XCOLLIE_FLAG_RECOVERY \<noteq> 0"

lemma flags_default [simp]: "flag_log XCOLLIE_FLAG_DEFAULT" "flag_recovery XCOLLIE_FLAG_DEFAULT"
  by (simp_all add: flag_log_def flag_recovery_def)

lemma flags_noop [simp]: "\<not> flag_log XCOLLIE_FLAG_NOOP" "\<not> flag_recovery XCOLLIE_FLAG_NOOP"
  by (simp_all add: flag_log_def flag_recovery_def)

lemma flags_log [simp]: "flag_log XCOLLIE_FLAG_LOG" "\<not> flag_recovery XCOLLIE_FLAG_LOG"
  by (simp_all add: flag_log_def flag_recovery_def)

section \<open>Words\<close>

lemma word_sub_le_iff [word_order]:
  fixes a b c :: "'a::len word"
  shows "b \<le> a \<Longrightarrow> unat (a - b) = unat a - unat b"
  by (simp add: unat_sub)

lemma unat_sub_comm_le:
  fixes a b :: "'a::len word"
  assumes "b \<le> a"
  shows "a - b \<le> c \<longleftrightarrow> unat a \<le> unat b + unat c"
  using assms by (auto simp: word_le_nat_alt unat_sub)

lemma unat_ucast_mod:
  "unat (ucast x :: 'b::len word) = unat (x :: 'a::len word) mod 2 ^ LENGTH('b)"
  by (simp add: unsigned_ucast_eq take_bit_eq_mod)

lemma unat_add_no_wrap:
  fixes a b :: "'a::len word"
  assumes "\<not> a + b < a"
  shows "unat (a + b) = unat a + unat b"
proof (rule ccontr)
  assume ne: "unat (a + b) \<noteq> unat a + unat b"
  have eq: "unat (a + b) = (unat a + unat b) mod 2 ^ LENGTH('a)" by (simp add: unat_word_ariths)
  have lt: "unat a < 2 ^ LENGTH('a)" "unat b < 2 ^ LENGTH('a)" by (rule unsigned_less)+
  then have ge: "2 ^ LENGTH('a) \<le> unat a + unat b" using ne eq by (metis mod_less not_le)
  then have "unat (a + b) = unat a + unat b - 2 ^ LENGTH('a)"
    using eq lt by (simp add: mod_if [of "unat a + unat b"] mod_less)
  then have "unat (a + b) < unat a" using lt ge by linarith
  then show False using assms by (simp add: word_less_nat_alt)
qed

lemma u32_roundtrip: "unat (x :: u64) < 2 ^ 32 \<Longrightarrow> ucast (ucast x :: u32) = x"
  by (simp add: word_unat_eq_iff unat_ucast_mod)

end
