(* ===== verification/Process_Kill_Reason.thy ===== *)
theory Process_Kill_Reason
  imports Prelude
begin

text \<open>
  The kill-reason table (\<^verbatim>\<open>process_kill_reason.h\<close>, \<^verbatim>\<open>process_kill_reason.cpp\<close>): the enumeration of
  kill events, numbered by the C++ rule for enumerators, the constant table with one entry per
  event, the compile-time sortedness check, and the binary search behind \<^verbatim>\<open>GetKillReason\<close> and
  \<^verbatim>\<open>GetAppExitReason\<close>. The lemmas show that the search never leaves the table, agrees with a linear
  search, and finds an entry for every enumerator.
\<close>

section \<open>The enumeration\<close>

text \<open>One constant per enumerator; one without an initializer is one more than the one before it.\<close>

named_theorems kill_ids "values of the enumerators"

definition REASON_APP_EXIT_MIN :: int where [kill_ids]: "REASON_APP_EXIT_MIN = 1"
definition REASON_KILL_APPLICATION_BY_BUNDLE_NAME :: int where [kill_ids]: "REASON_KILL_APPLICATION_BY_BUNDLE_NAME = REASON_APP_EXIT_MIN"
definition REASON_ON_REMOTE_DIED :: int where [kill_ids]: "REASON_ON_REMOTE_DIED = REASON_KILL_APPLICATION_BY_BUNDLE_NAME + 1"
definition REASON_RESTART :: int where [kill_ids]: "REASON_RESTART = REASON_ON_REMOTE_DIED + 1"
definition REASON_APP_EXIT :: int where [kill_ids]: "REASON_APP_EXIT = REASON_RESTART + 1"
definition REASON_KILL_APPLICATION_SELF :: int where [kill_ids]: "REASON_KILL_APPLICATION_SELF = REASON_APP_EXIT + 1"
definition REASON_KILL_PROCESS_WITH_ACCOUNT :: int where [kill_ids]: "REASON_KILL_PROCESS_WITH_ACCOUNT = REASON_KILL_APPLICATION_SELF + 1"
definition REASON_KILL_APPLICATION :: int where [kill_ids]: "REASON_KILL_APPLICATION = REASON_KILL_PROCESS_WITH_ACCOUNT + 1"
definition REASON_KILL_CGROUP :: int where [kill_ids]: "REASON_KILL_CGROUP = REASON_KILL_APPLICATION + 1"
definition REASON_KILL_PROCESS :: int where [kill_ids]: "REASON_KILL_PROCESS = REASON_KILL_CGROUP + 1"
definition REASON_USER_EXIT_MIN :: int where [kill_ids]: "REASON_USER_EXIT_MIN = 1000"
definition REASON_USER_REQUEST :: int where [kill_ids]: "REASON_USER_REQUEST = REASON_USER_EXIT_MIN"
definition REASON_CLEAR_SESSION :: int where [kill_ids]: "REASON_CLEAR_SESSION = REASON_USER_REQUEST + 1"
definition REASON_UNINSTALL_APP :: int where [kill_ids]: "REASON_UNINSTALL_APP = REASON_CLEAR_SESSION + 1"
definition REASON_UPGRADE_APP :: int where [kill_ids]: "REASON_UPGRADE_APP = REASON_UNINSTALL_APP + 1"
definition REASON_USER_LOGOUT :: int where [kill_ids]: "REASON_USER_LOGOUT = REASON_UPGRADE_APP + 1"
definition REASON_USER_STOP :: int where [kill_ids]: "REASON_USER_STOP = REASON_USER_LOGOUT + 1"
definition REASON_PERMISSION_UPDATE :: int where [kill_ids]: "REASON_PERMISSION_UPDATE = REASON_USER_STOP + 1"
definition REASON_AA_FORCE_STOP :: int where [kill_ids]: "REASON_AA_FORCE_STOP = REASON_PERMISSION_UPDATE + 1"
definition REASON_SIGNAL_KILL :: int where [kill_ids]: "REASON_SIGNAL_KILL = REASON_AA_FORCE_STOP + 1"
definition REASON_SIGNAL_EXIT :: int where [kill_ids]: "REASON_SIGNAL_EXIT = REASON_SIGNAL_KILL + 1"
definition REASON_CRASH_EXIT_MIN :: int where [kill_ids]: "REASON_CRASH_EXIT_MIN = 2000"
definition REASON_THREAD_BLOCK_6S :: int where [kill_ids]: "REASON_THREAD_BLOCK_6S = REASON_CRASH_EXIT_MIN"
definition REASON_APP_INPUT_BLOCK :: int where [kill_ids]: "REASON_APP_INPUT_BLOCK = REASON_THREAD_BLOCK_6S + 1"
definition REASON_LIFECYCLE_TIMEOUT :: int where [kill_ids]: "REASON_LIFECYCLE_TIMEOUT = REASON_APP_INPUT_BLOCK + 1"
definition REASON_JS_ERROR :: int where [kill_ids]: "REASON_JS_ERROR = REASON_LIFECYCLE_TIMEOUT + 1"
definition REASON_CPP_CRASH :: int where [kill_ids]: "REASON_CPP_CRASH = REASON_JS_ERROR + 1"
definition REASON_CES_REGISTER_EXCEED_LIMIT :: int where [kill_ids]: "REASON_CES_REGISTER_EXCEED_LIMIT = REASON_CPP_CRASH + 1"
definition REASON_RESOURCE_LEAK_PSS_SOFT_KILL :: int where [kill_ids]: "REASON_RESOURCE_LEAK_PSS_SOFT_KILL = REASON_CES_REGISTER_EXCEED_LIMIT + 1"
definition REASON_RESOURCE_LEAK_PSS_KILL :: int where [kill_ids]: "REASON_RESOURCE_LEAK_PSS_KILL = REASON_RESOURCE_LEAK_PSS_SOFT_KILL + 1"
definition REASON_RESOURCE_LEAK_ION_LEAK :: int where [kill_ids]: "REASON_RESOURCE_LEAK_ION_LEAK = REASON_RESOURCE_LEAK_PSS_KILL + 1"
definition REASON_RESOURCE_LEAK_ASHMEM_LEAK :: int where [kill_ids]: "REASON_RESOURCE_LEAK_ASHMEM_LEAK = REASON_RESOURCE_LEAK_ION_LEAK + 1"
definition REASON_RESOURCE_LEAK_GPU_RS_LEAK :: int where [kill_ids]: "REASON_RESOURCE_LEAK_GPU_RS_LEAK = REASON_RESOURCE_LEAK_ASHMEM_LEAK + 1"
definition REASON_RESOURCE_LEAK_GPU_LEAK :: int where [kill_ids]: "REASON_RESOURCE_LEAK_GPU_LEAK = REASON_RESOURCE_LEAK_GPU_RS_LEAK + 1"
definition REASON_RESOURCE_LEAK_VMA_LEAK :: int where [kill_ids]: "REASON_RESOURCE_LEAK_VMA_LEAK = REASON_RESOURCE_LEAK_GPU_LEAK + 1"
definition REASON_RESOURCE_LEAK_FD_LEAK :: int where [kill_ids]: "REASON_RESOURCE_LEAK_FD_LEAK = REASON_RESOURCE_LEAK_VMA_LEAK + 1"
definition REASON_RESOURCE_LEAK_THREAD_LEAK :: int where [kill_ids]: "REASON_RESOURCE_LEAK_THREAD_LEAK = REASON_RESOURCE_LEAK_FD_LEAK + 1"
definition REASON_FD_EXCEEDS_LIMIT :: int where [kill_ids]: "REASON_FD_EXCEEDS_LIMIT = REASON_RESOURCE_LEAK_THREAD_LEAK + 1"
definition REASON_APP_HIGH_POWER_NOTIFY_KILL :: int where [kill_ids]: "REASON_APP_HIGH_POWER_NOTIFY_KILL = REASON_FD_EXCEEDS_LIMIT + 1"
definition REASON_HIGH_POWER_CONSUMPTION_KILL :: int where [kill_ids]: "REASON_HIGH_POWER_CONSUMPTION_KILL = REASON_APP_HIGH_POWER_NOTIFY_KILL + 1"
definition REASON_ILLEGAL_AUDIO_RENDERER_BY_SUSPEND :: int where [kill_ids]: "REASON_ILLEGAL_AUDIO_RENDERER_BY_SUSPEND = REASON_HIGH_POWER_CONSUMPTION_KILL + 1"
definition REASON_ILLEGAL_AUDIO_CAPTURER_BY_SUSPEND :: int where [kill_ids]: "REASON_ILLEGAL_AUDIO_CAPTURER_BY_SUSPEND = REASON_ILLEGAL_AUDIO_RENDERER_BY_SUSPEND + 1"
definition REASON_IO_MANAGE_CONTROL :: int where [kill_ids]: "REASON_IO_MANAGE_CONTROL = REASON_ILLEGAL_AUDIO_CAPTURER_BY_SUSPEND + 1"
definition REASON_BUSINESS_THREAD_BLOCK_6S :: int where [kill_ids]: "REASON_BUSINESS_THREAD_BLOCK_6S = REASON_IO_MANAGE_CONTROL + 1"
definition REASON_BUSINESS_INPUT_BLOCK :: int where [kill_ids]: "REASON_BUSINESS_INPUT_BLOCK = REASON_BUSINESS_THREAD_BLOCK_6S + 1"
definition REASON_MALICIOUS_CONTINUOUSTASK_ACTIVE :: int where [kill_ids]: "REASON_MALICIOUS_CONTINUOUSTASK_ACTIVE = REASON_BUSINESS_INPUT_BLOCK + 1"
definition REASON_RS_TRANSACTION_DATA_OVERLIMIT :: int where [kill_ids]: "REASON_RS_TRANSACTION_DATA_OVERLIMIT = REASON_MALICIOUS_CONTINUOUSTASK_ACTIVE + 1"
definition REASON_SYS_EXIT_MIN :: int where [kill_ids]: "REASON_SYS_EXIT_MIN = 3000"
definition REASON_CONTINUOUSLY_WAKEUP_ABNORMAL :: int where [kill_ids]: "REASON_CONTINUOUSLY_WAKEUP_ABNORMAL = REASON_SYS_EXIT_MIN"
definition REASON_BACKGROUND_FREEZE_ABNORMAL :: int where [kill_ids]: "REASON_BACKGROUND_FREEZE_ABNORMAL = REASON_CONTINUOUSLY_WAKEUP_ABNORMAL + 1"
definition REASON_GNSS_WORK_TIME_ABNORMAL :: int where [kill_ids]: "REASON_GNSS_WORK_TIME_ABNORMAL = REASON_BACKGROUND_FREEZE_ABNORMAL + 1"
definition REASON_BLUETOOTH_WORK_TIME_ABNORMAL :: int where [kill_ids]: "REASON_BLUETOOTH_WORK_TIME_ABNORMAL = REASON_GNSS_WORK_TIME_ABNORMAL + 1"
definition REASON_RUNNING_LOCK_ABNORMAL :: int where [kill_ids]: "REASON_RUNNING_LOCK_ABNORMAL = REASON_BLUETOOTH_WORK_TIME_ABNORMAL + 1"
definition REASON_KERNEL_WAKELOCK_ABNORMAL :: int where [kill_ids]: "REASON_KERNEL_WAKELOCK_ABNORMAL = REASON_RUNNING_LOCK_ABNORMAL + 1"
definition REASON_POWER_SAVE_CLEAN_EXTREME_POWER_SAVE_CLEAN :: int where [kill_ids]: "REASON_POWER_SAVE_CLEAN_EXTREME_POWER_SAVE_CLEAN = REASON_KERNEL_WAKELOCK_ABNORMAL + 1"
definition REASON_MODULE_POWER_CONSUMPTION_ABNORMAL :: int where [kill_ids]: "REASON_MODULE_POWER_CONSUMPTION_ABNORMAL = REASON_POWER_SAVE_CLEAN_EXTREME_POWER_SAVE_CLEAN + 1"
definition REASON_POWER_ABNORMAL :: int where [kill_ids]: "REASON_POWER_ABNORMAL = REASON_MODULE_POWER_CONSUMPTION_ABNORMAL + 1"
definition REASON_MEMORY_PRESSURE :: int where [kill_ids]: "REASON_MEMORY_PRESSURE = REASON_POWER_ABNORMAL + 1"
definition REASON_STABILITY_CHECK_KILL :: int where [kill_ids]: "REASON_STABILITY_CHECK_KILL = REASON_MEMORY_PRESSURE + 1"
definition REASON_APP_LIMIT_KILL :: int where [kill_ids]: "REASON_APP_LIMIT_KILL = REASON_STABILITY_CHECK_KILL + 1"
definition REASON_SWAP_FULL :: int where [kill_ids]: "REASON_SWAP_FULL = REASON_APP_LIMIT_KILL + 1"
definition REASON_SYSTEM_CAMERA_QUICK_KILL :: int where [kill_ids]: "REASON_SYSTEM_CAMERA_QUICK_KILL = REASON_SWAP_FULL + 1"
definition REASON_OTHER_CAMERA_QUICK_KILL :: int where [kill_ids]: "REASON_OTHER_CAMERA_QUICK_KILL = REASON_SYSTEM_CAMERA_QUICK_KILL + 1"
definition REASON_ALIVE_APP_COUNT_KILL :: int where [kill_ids]: "REASON_ALIVE_APP_COUNT_KILL = REASON_OTHER_CAMERA_QUICK_KILL + 1"
definition REASON_LOW_FREE_KILL :: int where [kill_ids]: "REASON_LOW_FREE_KILL = REASON_ALIVE_APP_COUNT_KILL + 1"
definition REASON_ZSWAPD_PRESSURE :: int where [kill_ids]: "REASON_ZSWAPD_PRESSURE = REASON_LOW_FREE_KILL + 1"
definition REASON_BIG_MEMORY_KILL :: int where [kill_ids]: "REASON_BIG_MEMORY_KILL = REASON_ZSWAPD_PRESSURE + 1"
definition REASON_GPU_LEAK_KILL :: int where [kill_ids]: "REASON_GPU_LEAK_KILL = REASON_BIG_MEMORY_KILL + 1"
definition REASON_MEMORY_LIMIT_KILL :: int where [kill_ids]: "REASON_MEMORY_LIMIT_KILL = REASON_GPU_LEAK_KILL + 1"
definition REASON_PC_BIG_MEMORY_KILL :: int where [kill_ids]: "REASON_PC_BIG_MEMORY_KILL = REASON_MEMORY_LIMIT_KILL + 1"
definition REASON_GPU_TEXTURE_MEM_LEAK_KILL :: int where [kill_ids]: "REASON_GPU_TEXTURE_MEM_LEAK_KILL = REASON_PC_BIG_MEMORY_KILL + 1"
definition REASON_ANCO_START_QUICK_KILL :: int where [kill_ids]: "REASON_ANCO_START_QUICK_KILL = REASON_GPU_TEXTURE_MEM_LEAK_KILL + 1"
definition REASON_BG_DEPDED_MINI_SYS_KILL :: int where [kill_ids]: "REASON_BG_DEPDED_MINI_SYS_KILL = REASON_ANCO_START_QUICK_KILL + 1"
definition REASON_FORE_UNDEPD_MINI_SYS_KILL :: int where [kill_ids]: "REASON_FORE_UNDEPD_MINI_SYS_KILL = REASON_BG_DEPDED_MINI_SYS_KILL + 1"
definition REASON_TEMPERATURE_CONTROL :: int where [kill_ids]: "REASON_TEMPERATURE_CONTROL = REASON_FORE_UNDEPD_MINI_SYS_KILL + 1"
definition REASON_CPU_EXT_HIGHLOAD :: int where [kill_ids]: "REASON_CPU_EXT_HIGHLOAD = REASON_TEMPERATURE_CONTROL + 1"
definition REASON_SCREEN_OFF_CLEAN :: int where [kill_ids]: "REASON_SCREEN_OFF_CLEAN = REASON_CPU_EXT_HIGHLOAD + 1"
definition REASON_SLEEP_CLEAN :: int where [kill_ids]: "REASON_SLEEP_CLEAN = REASON_SCREEN_OFF_CLEAN + 1"
definition REASON_INACTIVE_CLEAN :: int where [kill_ids]: "REASON_INACTIVE_CLEAN = REASON_SLEEP_CLEAN + 1"
definition REASON_STANDBY_FAILED_CONTINUOUSLY_WAKEUP_ABNORMAL :: int where [kill_ids]: "REASON_STANDBY_FAILED_CONTINUOUSLY_WAKEUP_ABNORMAL = REASON_INACTIVE_CLEAN + 1"
definition REASON_SWITCH_TO_PENGLAI_MODE :: int where [kill_ids]: "REASON_SWITCH_TO_PENGLAI_MODE = REASON_STANDBY_FAILED_CONTINUOUSLY_WAKEUP_ABNORMAL + 1"
definition REASON_HEAVY_LOAD_MUTEX_KILL :: int where [kill_ids]: "REASON_HEAVY_LOAD_MUTEX_KILL = REASON_SWITCH_TO_PENGLAI_MODE + 1"
definition REASON_TRANSIENT_TASK_TIMEOUT :: int where [kill_ids]: "REASON_TRANSIENT_TASK_TIMEOUT = REASON_HEAVY_LOAD_MUTEX_KILL + 1"
definition REASON_RESOURCE_OVERLIMIT :: int where [kill_ids]: "REASON_RESOURCE_OVERLIMIT = REASON_TRANSIENT_TASK_TIMEOUT + 1"
definition REASON_RESOURCE_LEAK_STANDBY_CLEAN :: int where [kill_ids]: "REASON_RESOURCE_LEAK_STANDBY_CLEAN = REASON_RESOURCE_OVERLIMIT + 1"
definition REASON_SYSFREEZE_KILL_PEER_BINDER :: int where [kill_ids]: "REASON_SYSFREEZE_KILL_PEER_BINDER = REASON_RESOURCE_LEAK_STANDBY_CLEAN + 1"
definition REASON_TOO_MANY_READY_THREADS :: int where [kill_ids]: "REASON_TOO_MANY_READY_THREADS = REASON_SYSFREEZE_KILL_PEER_BINDER + 1"
definition REASON_JS_HEAP_SLEEP_CLEAN_KILL :: int where [kill_ids]: "REASON_JS_HEAP_SLEEP_CLEAN_KILL = REASON_TOO_MANY_READY_THREADS + 1"
definition REASON_HARDWARE_DECODING_RESOURCES_LIMIT :: int where [kill_ids]: "REASON_HARDWARE_DECODING_RESOURCES_LIMIT = REASON_JS_HEAP_SLEEP_CLEAN_KILL + 1"
definition REASON_APPRECOVERY_NOTIFYAPP_OVER_LIMIT :: int where [kill_ids]: "REASON_APPRECOVERY_NOTIFYAPP_OVER_LIMIT = REASON_HARDWARE_DECODING_RESOURCES_LIMIT + 1"
definition REASON_EXTREME_POWER_SAVE_CLEAN :: int where [kill_ids]: "REASON_EXTREME_POWER_SAVE_CLEAN = REASON_APPRECOVERY_NOTIFYAPP_OVER_LIMIT + 1"
definition REASON_RS_VULKAN_ERROR :: int where [kill_ids]: "REASON_RS_VULKAN_ERROR = REASON_EXTREME_POWER_SAVE_CLEAN + 1"
definition REASON_NOT_ATTACHED_TO_STATUS_BAR :: int where [kill_ids]: "REASON_NOT_ATTACHED_TO_STATUS_BAR = REASON_RS_VULKAN_ERROR + 1"
definition REASON_ACCOUNT_COLD_SWITCH_KILL :: int where [kill_ids]: "REASON_ACCOUNT_COLD_SWITCH_KILL = REASON_NOT_ATTACHED_TO_STATUS_BAR + 1"
definition REASON_GPU_MEMORY_READ_ERR :: int where [kill_ids]: "REASON_GPU_MEMORY_READ_ERR = REASON_ACCOUNT_COLD_SWITCH_KILL + 1"
definition REASON_DMA_MEMORY_READ_ERR :: int where [kill_ids]: "REASON_DMA_MEMORY_READ_ERR = REASON_GPU_MEMORY_READ_ERR + 1"
definition REASON_MSDP_BOTTOM_N_QUICK_KILL :: int where [kill_ids]: "REASON_MSDP_BOTTOM_N_QUICK_KILL = REASON_DMA_MEMORY_READ_ERR + 1"
definition REASON_LOW_MEMORY_ANCO_CACHED_KILL :: int where [kill_ids]: "REASON_LOW_MEMORY_ANCO_CACHED_KILL = REASON_MSDP_BOTTOM_N_QUICK_KILL + 1"
definition REASON_MINI_SYS_ANCO_SYS_PROC_KILL :: int where [kill_ids]: "REASON_MINI_SYS_ANCO_SYS_PROC_KILL = REASON_LOW_MEMORY_ANCO_CACHED_KILL + 1"
definition REASON_POWER_SAVE_CLEAN :: int where [kill_ids]: "REASON_POWER_SAVE_CLEAN = REASON_MINI_SYS_ANCO_SYS_PROC_KILL + 1"
definition REASON_VRS_KILL_PROCESS :: int where [kill_ids]: "REASON_VRS_KILL_PROCESS = REASON_POWER_SAVE_CLEAN + 1"
definition REASON_APPSPAWN_STOP :: int where [kill_ids]: "REASON_APPSPAWN_STOP = REASON_VRS_KILL_PROCESS + 1"
definition REASON_INACTIVE_PROC_KILL :: int where [kill_ids]: "REASON_INACTIVE_PROC_KILL = REASON_APPSPAWN_STOP + 1"
definition REASON_KERNEL_EXIT_MIN :: int where [kill_ids]: "REASON_KERNEL_EXIT_MIN = 4000"
definition REASON_OOM_KILLER :: int where [kill_ids]: "REASON_OOM_KILLER = REASON_KERNEL_EXIT_MIN"
definition REASON_CPA_KILLER :: int where [kill_ids]: "REASON_CPA_KILLER = REASON_OOM_KILLER + 1"
definition REASON_LOW_MEMORY_KILLER :: int where [kill_ids]: "REASON_LOW_MEMORY_KILLER = REASON_CPA_KILLER + 1"
definition REASON_CPU_HIGHLOAD_KILLER :: int where [kill_ids]: "REASON_CPU_HIGHLOAD_KILLER = REASON_LOW_MEMORY_KILLER + 1"
definition REASON_RSS_THRESHOLD_KILLER :: int where [kill_ids]: "REASON_RSS_THRESHOLD_KILLER = REASON_CPU_HIGHLOAD_KILLER + 1"
definition REASON_ASHMEM_THRESHOLD_KILLER :: int where [kill_ids]: "REASON_ASHMEM_THRESHOLD_KILLER = REASON_RSS_THRESHOLD_KILLER + 1"
definition REASON_GPU_THRESHOLD_KILLER :: int where [kill_ids]: "REASON_GPU_THRESHOLD_KILLER = REASON_ASHMEM_THRESHOLD_KILLER + 1"
definition REASON_DMA_THRESHOLD_KILLER :: int where [kill_ids]: "REASON_DMA_THRESHOLD_KILLER = REASON_GPU_THRESHOLD_KILLER + 1"
definition REASON_THREAD_THRESHOLD_KILLER :: int where [kill_ids]: "REASON_THREAD_THRESHOLD_KILLER = REASON_DMA_THRESHOLD_KILLER + 1"
definition REASON_KERNEL_ZONE_LOW :: int where [kill_ids]: "REASON_KERNEL_ZONE_LOW = REASON_THREAD_THRESHOLD_KILLER + 1"
definition REASON_APP_SANDBOX_UNINSTALL :: int where [kill_ids]: "REASON_APP_SANDBOX_UNINSTALL = REASON_KERNEL_ZONE_LOW + 1"
definition REASON_STORAGE_CARD_UNINSTALL :: int where [kill_ids]: "REASON_STORAGE_CARD_UNINSTALL = REASON_APP_SANDBOX_UNINSTALL + 1"
definition REASON_MAX :: int where [kill_ids]: "REASON_MAX = REASON_STORAGE_CARD_UNINSTALL"

section \<open>The table and its search\<close>

record KillReasonEntry =
  entry_id :: int
  faultReason :: string
  appReason :: string

definition INVALID_KILL_ID :: string where
  "INVALID_KILL_ID = ''InvalidKillId''"

abbreviation entry :: "int \<Rightarrow> string \<Rightarrow> string \<Rightarrow> KillReasonEntry" where
  "entry i f a \<equiv> \<lparr>entry_id = i, faultReason = f, appReason = a\<rparr>"

definition KILL_REASON_CONFIG :: "KillReasonEntry list" where
  "KILL_REASON_CONFIG =
    [entry REASON_KILL_APPLICATION_BY_BUNDLE_NAME ''KillApplicationByBundleName'' ''KillApplication'',
     entry REASON_ON_REMOTE_DIED ''OnRemoteDied'' ''OnRemoteDied'',
     entry REASON_RESTART ''RestartApp'' ''Restart'',
     entry REASON_APP_EXIT ''app exit'' ''KillApplication'',
     entry REASON_KILL_APPLICATION_SELF ''KillApplicationSelf'' ''KillApplication'',
     entry REASON_KILL_PROCESS_WITH_ACCOUNT ''KillProcessWithAccount'' ''KillApplication'',
     entry REASON_KILL_APPLICATION ''KillApplication'' ''KillApplication'',
     entry REASON_KILL_CGROUP ''KillCgroup'' ''KillApplication'',
     entry REASON_KILL_PROCESS ''KillProcess'' ''KillProcess'',
     entry REASON_USER_REQUEST ''User Request'' ''UserRequest'',
     entry REASON_CLEAR_SESSION ''ClearSession'' ''UserRequest'',
     entry REASON_UNINSTALL_APP ''UninstallApp'' ''Uninstall'',
     entry REASON_UPGRADE_APP ''UpgradeApp'' ''Upgrade'',
     entry REASON_USER_LOGOUT ''UserLogout'' ''Logout'',
     entry REASON_USER_STOP ''UserStop'' ''Logout'',
     entry REASON_PERMISSION_UPDATE ''PermissionUpdate'' ''PermissionUpdate'',
     entry REASON_AA_FORCE_STOP ''aa force-stop'' ''aaForceStop'',
     entry REASON_SIGNAL_KILL ''signal kill'' ''signalKill'',
     entry REASON_SIGNAL_EXIT ''signal exit'' ''signalExit'',
     entry REASON_THREAD_BLOCK_6S ''THREAD_BLOCK_6S'' ''ThreadBlock6S'',
     entry REASON_APP_INPUT_BLOCK ''APP_INPUT_BLOCK'' ''AppInputBlock'',
     entry REASON_LIFECYCLE_TIMEOUT ''LIFECYCLE_TIMEOUT'' ''LifecycleTimeout'',
     entry REASON_JS_ERROR ''Js Error'' ''JsError'',
     entry REASON_CPP_CRASH ''Cpp Crash'' ''CppCrash'',
     entry REASON_CES_REGISTER_EXCEED_LIMIT ''CES Register exceed limit'' ''ResourceLeak(CES)'',
     entry REASON_RESOURCE_LEAK_PSS_SOFT_KILL ''ResourceLeak:Pss Soft Kill'' ''ResourceLeak(PSSSoftLeak)'',
     entry REASON_RESOURCE_LEAK_PSS_KILL ''ResourceLeak:Pss Kill'' ''ResourceLeak(PSSLeak)'',
     entry REASON_RESOURCE_LEAK_ION_LEAK ''ResourceLeak:Ion Leak'' ''ResourceLeak(IonLeak)'',
     entry REASON_RESOURCE_LEAK_ASHMEM_LEAK ''ResourceLeak:Ashmem Leak'' ''ResourceLeak(AshmemLeak)'',
     entry REASON_RESOURCE_LEAK_GPU_RS_LEAK ''ResourceLeak:Gpu_rs Leak'' ''ResourceLeak(GpuRsLeak)'',
     entry REASON_RESOURCE_LEAK_GPU_LEAK ''ResourceLeak:Gpu Leak'' ''ResourceLeak(GpuLeak)'',
     entry REASON_RESOURCE_LEAK_VMA_LEAK ''ResourceLeak:Vma Leak'' ''ResourceLeak(VMALeak)'',
     entry REASON_RESOURCE_LEAK_FD_LEAK ''ResourceLeak:Fd Leak'' ''ResourceLeak(FDLeak)'',
     entry REASON_RESOURCE_LEAK_THREAD_LEAK ''ResourceLeak:Thread Leak'' ''ResourceLeak(ThreadLeak)'',
     entry REASON_FD_EXCEEDS_LIMIT ''The number of fd exceeds the limit'' ''FdRs'',
     entry REASON_APP_HIGH_POWER_NOTIFY_KILL ''App High Power Notify Kill'' ''CPUHighloadNotify'',
     entry REASON_HIGH_POWER_CONSUMPTION_KILL ''High Power Consumption Kill'' ''CPUHighloadUserRequest'',
     entry REASON_ILLEGAL_AUDIO_RENDERER_BY_SUSPEND ''ILLEGAL_AUDIO_RENDERER_BY_SUSPEND'' ''IllegalAudioRendererBySuspend'',
     entry REASON_ILLEGAL_AUDIO_CAPTURER_BY_SUSPEND ''ILLEGAL_AUDIO_CAPTURER_BY_SUSPEND'' ''IllegalAudioCapturerBySuspend'',
     entry REASON_IO_MANAGE_CONTROL ''IO Manage Control'' ''IOHighload'',
     entry REASON_BUSINESS_THREAD_BLOCK_6S ''BUSINESS_THREAD_BLOCK_6S'' ''Appfreeze'',
     entry REASON_BUSINESS_INPUT_BLOCK ''BUSINESS_INPUT_BLOCK'' ''Appfreeze'',
     entry REASON_MALICIOUS_CONTINUOUSTASK_ACTIVE ''MALICIOUS_CONTINUOUSTASK_ACTIVE'' ''MaliciousContinuoustaskActive'',
     entry REASON_RS_TRANSACTION_DATA_OVERLIMIT ''RS_TRANSACTION_DATA_OVERLIMIT'' ''RsDataOverflow'',
     entry REASON_CONTINUOUSLY_WAKEUP_ABNORMAL ''ContinuouslyWakeupAbnormal'' ''PowerSaveClean'',
     entry REASON_BACKGROUND_FREEZE_ABNORMAL ''BackgroundFreezeAbnormal'' ''PowerSaveClean'',
     entry REASON_GNSS_WORK_TIME_ABNORMAL ''GnssWorkTimeAbnormal'' ''PowerSaveClean'',
     entry REASON_BLUETOOTH_WORK_TIME_ABNORMAL ''BluetoothWorkTimeAbnormal'' ''PowerSaveClean'',
     entry REASON_RUNNING_LOCK_ABNORMAL ''RunningLockAbnormal'' ''PowerSaveClean'',
     entry REASON_KERNEL_WAKELOCK_ABNORMAL ''KernelWakelockAbnormal'' ''PowerSaveClean'',
     entry REASON_POWER_SAVE_CLEAN_EXTREME_POWER_SAVE_CLEAN ''PowerSaveClean ExtremePowerSaveClean'' ''PowerSaveClean'',
     entry REASON_MODULE_POWER_CONSUMPTION_ABNORMAL ''Module Power Consumption Abnormal'' ''PowerSaveClean'',
     entry REASON_POWER_ABNORMAL ''Power Abnormal'' ''PowerSaveClean'',
     entry REASON_MEMORY_PRESSURE ''Memory Pressure'' ''LowMemoryKill'',
     entry REASON_STABILITY_CHECK_KILL ''StabilityCheckKill'' ''LowMemoryKill'',
     entry REASON_APP_LIMIT_KILL ''APP_LIMIT_KILL'' ''LowMemoryKill'',
     entry REASON_SWAP_FULL ''SWAP_FULL'' ''SwapFull'',
     entry REASON_SYSTEM_CAMERA_QUICK_KILL ''SYSTEM_CAMERA_QUICK_KILL'' ''LowMemoryKill'',
     entry REASON_OTHER_CAMERA_QUICK_KILL ''OTHER_CAMERA_QUICK_KILL'' ''LowMemoryKill'',
     entry REASON_ALIVE_APP_COUNT_KILL ''AliveAppCountKill'' ''LowMemoryKill'',
     entry REASON_LOW_FREE_KILL ''LowFreeKill'' ''LowMemoryKill'',
     entry REASON_ZSWAPD_PRESSURE ''ZSWAPD_PRESSURE'' ''LowMemoryKill'',
     entry REASON_BIG_MEMORY_KILL ''BIG_MEMORY_KILL'' ''LowMemoryKill'',
     entry REASON_GPU_LEAK_KILL ''GPU_LEAK_KILL'' ''LowMemoryKill'',
     entry REASON_MEMORY_LIMIT_KILL ''MemoryLimitKill'' ''LowMemoryKill'',
     entry REASON_PC_BIG_MEMORY_KILL ''PcBigMemoryKill'' ''LowMemoryKill'',
     entry REASON_GPU_TEXTURE_MEM_LEAK_KILL ''GpuTextureMemLeakKill'' ''LowMemoryKill'',
     entry REASON_ANCO_START_QUICK_KILL ''AncoStartQuickKill'' ''LowMemoryKill'',
     entry REASON_BG_DEPDED_MINI_SYS_KILL ''BgDepdedMiniSysKill'' ''LowMemoryKill'',
     entry REASON_FORE_UNDEPD_MINI_SYS_KILL ''ForeUndepdMiniSysKill'' ''LowMemoryKill'',
     entry REASON_TEMPERATURE_CONTROL ''Temperature Control'' ''HighTemperature'',
     entry REASON_CPU_EXT_HIGHLOAD ''CPU_EXT Highload'' ''PowerSaveClean'',
     entry REASON_SCREEN_OFF_CLEAN ''Screen Off Clean'' ''PowerSaveClean'',
     entry REASON_SLEEP_CLEAN ''Sleep Clean'' ''PowerSaveClean'',
     entry REASON_INACTIVE_CLEAN ''Inactive Clean'' ''PowerSaveClean'',
     entry REASON_STANDBY_FAILED_CONTINUOUSLY_WAKEUP_ABNORMAL ''StandbyFailedContinuouslyWakeupAbnormal'' ''PowerSaveClean'',
     entry REASON_SWITCH_TO_PENGLAI_MODE ''Switch To Penglai Mode'' ''PowerSaveClean'',
     entry REASON_HEAVY_LOAD_MUTEX_KILL ''HeavyLoad Mutex Kill'' ''PowerSaveClean'',
     entry REASON_TRANSIENT_TASK_TIMEOUT ''TRANSIENT_TASK_TIMEOUT'' ''TransientTaskTimeout'',
     entry REASON_RESOURCE_OVERLIMIT ''Resource Overlimit'' ''LowMemoryKill'',
     entry REASON_RESOURCE_LEAK_STANDBY_CLEAN ''ResourceLeak:Standby Clean'' ''PowerSaveClean'',
     entry REASON_SYSFREEZE_KILL_PEER_BINDER ''SysfreezeKillPeerBinder'' ''LowMemoryKill'',
     entry REASON_TOO_MANY_READY_THREADS ''TooManyReadyThreads'' ''TooManyReadyThreads'',
     entry REASON_JS_HEAP_SLEEP_CLEAN_KILL ''Js_Heap_Sleep_Clean_Kill'' ''JsHeapSleepCleanKill'',
     entry REASON_HARDWARE_DECODING_RESOURCES_LIMIT ''HARDWARE_DECODING_RESOURCES_LIMIT'' ''HardwareDecodingResourcesLimit'',
     entry REASON_APPRECOVERY_NOTIFYAPP_OVER_LIMIT ''AppRecoveryNotifyAppOverLimit'' ''AppRecoveryNotifyAppOverLimit'',
     entry REASON_EXTREME_POWER_SAVE_CLEAN ''ExtremePowerSaveClean'' ''PowerSaveClean'',
     entry REASON_RS_VULKAN_ERROR ''RS_VULKAN_ERROR'' ''GpuError'',
     entry REASON_NOT_ATTACHED_TO_STATUS_BAR ''NotAttachedToStatusBar'' ''NotAttachedToStatusBar'',
     entry REASON_ACCOUNT_COLD_SWITCH_KILL ''ACCOUNT_COLD_SWITCH_KILL'' ''LowMemoryKill'',
     entry REASON_GPU_MEMORY_READ_ERR ''GPU_MEMORY_READ_ERR'' ''LowMemoryKill'',
     entry REASON_DMA_MEMORY_READ_ERR ''DMA_MEMORY_READ_ERR'' ''LowMemoryKill'',
     entry REASON_MSDP_BOTTOM_N_QUICK_KILL ''MSDP_BOTTOM_N_QUICK_KILL'' ''LowMemoryKill'',
     entry REASON_LOW_MEMORY_ANCO_CACHED_KILL ''LOW_MEMORY_ANCO_CACHED_KILL'' ''LowMemoryKill'',
     entry REASON_MINI_SYS_ANCO_SYS_PROC_KILL ''MINI_SYS_ANCO_SYS_PROC_KILL'' ''LowMemoryKill'',
     entry REASON_POWER_SAVE_CLEAN ''PowerSaveClean'' ''PowerSaveClean'',
     entry REASON_VRS_KILL_PROCESS ''VRS_KILL_PROCESS'' ''VrsKill'',
     entry REASON_APPSPAWN_STOP ''APPSPAWN_STOP'' ''AppspawnStop'',
     entry REASON_INACTIVE_PROC_KILL ''InactiveProcKill'' ''LowMemoryKill'',
     entry REASON_OOM_KILLER ''OOM_KILLER'' ''OomKiller'',
     entry REASON_CPA_KILLER ''CPA_KILLER'' ''CpaKiller'',
     entry REASON_LOW_MEMORY_KILLER ''LowMemoryKill'' ''LowMemoryKill'',
     entry REASON_CPU_HIGHLOAD_KILLER ''CPU Highload'' ''CPUHighload'',
     entry REASON_RSS_THRESHOLD_KILLER ''RSS_THRESHOLD_KILLER'' ''RssThresholdKiller'',
     entry REASON_ASHMEM_THRESHOLD_KILLER ''ASHMEM_THRESHOLD_KILLER'' ''AshmemKiller'',
     entry REASON_GPU_THRESHOLD_KILLER ''GPU_THRESHOLD_KILLER'' ''GpuKiller'',
     entry REASON_DMA_THRESHOLD_KILLER ''DMA_THRESHOLD_KILLER'' ''DmaKiller'',
     entry REASON_THREAD_THRESHOLD_KILLER ''THREAD_THRESHOLD_KILLER'' ''ThreadKiller'',
     entry REASON_KERNEL_ZONE_LOW ''Kernel Zone Low'' ''ResourceLeak(KernelZoneLeak)'',
     entry REASON_APP_SANDBOX_UNINSTALL ''VolumeLogout'' ''Logout'',
     entry REASON_STORAGE_CARD_UNINSTALL ''VolumeUmount'' ''UninstallStorage'']"

fun IsConfigSorted_from :: "KillReasonEntry list \<Rightarrow> bool" where
  "IsConfigSorted_from (a # b # es) =
     (if entry_id a > entry_id b then False else IsConfigSorted_from (b # es))"
| "IsConfigSorted_from es = True"

definition IsConfigSorted :: bool where
  "IsConfigSorted = IsConfigSorted_from KILL_REASON_CONFIG"

text \<open>
  Reading the array outside its bounds is undefined behaviour in C++: it is the value \<open>OutOfBounds\<close>.
\<close>

datatype 'a search = OutOfBounds | NotFound | Found 'a

function FindEntry_loop :: "KillReasonEntry list \<Rightarrow> int \<Rightarrow> int \<Rightarrow> int \<Rightarrow> KillReasonEntry search" where
  "FindEntry_loop cfg killId left right =
     (if left \<le> right then
        let mid = left + (right - left) div 2 in
        if \<not> (0 \<le> mid \<and> mid < int (length cfg)) then OutOfBounds
        else if entry_id (cfg ! nat mid) = killId then Found (cfg ! nat mid)
        else if entry_id (cfg ! nat mid) < killId then FindEntry_loop cfg killId (mid + 1) right
        else FindEntry_loop cfg killId left (mid - 1)
      else NotFound)"
  by pat_completeness auto
termination
  by (relation "measure (\<lambda>(cfg, k, left, right). nat (right + 1 - left))") auto

declare FindEntry_loop.simps [simp del]

definition FindEntry :: "int \<Rightarrow> KillReasonEntry search" where
  "FindEntry killId =
     FindEntry_loop KILL_REASON_CONFIG killId 0 (int (length KILL_REASON_CONFIG) - 1)"

definition GetKillReason :: "int \<Rightarrow> string option" where
  "GetKillReason killId = (case FindEntry killId of
     OutOfBounds \<Rightarrow> None | NotFound \<Rightarrow> Some INVALID_KILL_ID | Found e \<Rightarrow> Some (faultReason e))"

definition GetAppExitReason :: "int \<Rightarrow> string option" where
  "GetAppExitReason killId = (case FindEntry killId of
     OutOfBounds \<Rightarrow> None | NotFound \<Rightarrow> Some INVALID_KILL_ID | Found e \<Rightarrow> Some (appReason e))"

text \<open>The reference search: the first entry with the id.\<close>

definition linear_search :: "KillReasonEntry list \<Rightarrow> int \<Rightarrow> KillReasonEntry search" where
  "linear_search cfg k = (case find (\<lambda>e. entry_id e = k) cfg of
     None \<Rightarrow> NotFound | Some e \<Rightarrow> Found e)"

section \<open>Correctness of the search on any strictly sorted table\<close>

abbreviation strict_ids :: "KillReasonEntry list \<Rightarrow> bool" where
  "strict_ids cfg \<equiv> sorted_wrt (<) (map entry_id cfg)"

lemma strict_ids_less:
  "strict_ids cfg \<Longrightarrow> i < j \<Longrightarrow> j < length cfg \<Longrightarrow> entry_id (cfg ! i) < entry_id (cfg ! j)"
  by (auto simp: sorted_wrt_iff_nth_less)

lemma linear_search_hit:
  assumes "strict_ids cfg" and "i < length cfg" and "entry_id (cfg ! i) = k"
  shows "linear_search cfg k = Found (cfg ! i)"
proof -
  have "find (\<lambda>e. entry_id e = k) cfg = Some (cfg ! i)"
    unfolding find_Some_iff using assms strict_ids_less [OF assms(1)]
    by (metis less_irrefl)
  then show ?thesis by (simp add: linear_search_def)
qed

lemma linear_search_miss:
  "(\<And>i. i < length cfg \<Longrightarrow> entry_id (cfg ! i) \<noteq> k) \<Longrightarrow> linear_search cfg k = NotFound"
  by (auto simp: linear_search_def find_None_iff in_set_conv_nth split: option.splits)

lemma FindEntry_loop_linear:
  assumes "strict_ids cfg"
    and "0 \<le> left" and "right < int (length cfg)"
    and "\<forall>i < length cfg. int i < left \<longrightarrow> entry_id (cfg ! i) < k"
    and "\<forall>i < length cfg. right < int i \<longrightarrow> k < entry_id (cfg ! i)"
  shows "FindEntry_loop cfg k left right = linear_search cfg k"
  using assms
proof (induction cfg k left right rule: FindEntry_loop.induct)
  case (1 cfg k left right)
  note sorted = strict_ids_less [OF "1.prems"(1)]
  show ?case
  proof (cases "left \<le> right")
    case False
    have "entry_id (cfg ! i) \<noteq> k" if "i < length cfg" for i
      using False "1.prems"(4,5) that by (cases "int i < left") fastforce+
    then show ?thesis
      using False by (simp add: FindEntry_loop.simps [of cfg k left right] linear_search_miss)
  next
    case True
    define mid where "mid = left + (right - left) div 2"
    have mid: "0 \<le> mid" "left \<le> mid" "mid \<le> right" "mid < int (length cfg)"
      using True "1.prems"(2,3) by (simp_all add: mid_def)
    let ?e = "cfg ! nat mid"
    have unfold: "FindEntry_loop cfg k left right =
        (if entry_id ?e = k then Found ?e
         else if entry_id ?e < k then FindEntry_loop cfg k (mid + 1) right
         else FindEntry_loop cfg k left (mid - 1))"
      using True mid by (simp add: FindEntry_loop.simps [of cfg k left right] mid_def Let_def)
    consider (eq) "entry_id ?e = k" | (lt) "entry_id ?e < k" | (gt) "k < entry_id ?e" by linarith
    then show ?thesis
    proof cases
      case eq
      then show ?thesis using unfold mid linear_search_hit [OF "1.prems"(1), of "nat mid"] by simp
    next
      case lt
      have below: "\<forall>i < length cfg. int i < mid + 1 \<longrightarrow> entry_id (cfg ! i) < k"
      proof (intro allI impI)
        fix i assume "i < length cfg" "int i < mid + 1"
        then show "entry_id (cfg ! i) < k"
          using lt mid sorted [of i "nat mid"] by (cases "i = nat mid") fastforce+
      qed
      have "FindEntry_loop cfg k (mid + 1) right = linear_search cfg k"
        by (rule "1.IH"(1) [OF True mid_def])
          (use mid lt "1.prems" in simp, use lt in simp, use lt in simp, use mid below "1.prems" in auto)
      then show ?thesis using unfold lt by simp
    next
      case gt
      have above: "\<forall>i < length cfg. mid - 1 < int i \<longrightarrow> k < entry_id (cfg ! i)"
      proof (intro allI impI)
        fix i assume "i < length cfg" "mid - 1 < int i"
        then show "k < entry_id (cfg ! i)"
          using gt mid sorted [of "nat mid" i] by (cases "i = nat mid") fastforce+
      qed
      have "FindEntry_loop cfg k left (mid - 1) = linear_search cfg k"
        by (rule "1.IH"(2) [OF True mid_def])
          (use mid gt "1.prems" in simp, use gt in simp, use gt in simp, use mid above "1.prems" in auto)
      then show ?thesis using unfold gt by simp
    qed
  qed
qed

section \<open>The table itself\<close>

lemma kill_table_eval:
  "map entry_id KILL_REASON_CONFIG =
     [1, 2, 3, 4, 5, 6, 7, 8, 9, 1000, 1001, 1002, 1003, 1004, 1005, 1006, 1007, 1008, 1009,
      2000, 2001, 2002, 2003, 2004, 2005, 2006, 2007, 2008, 2009, 2010, 2011, 2012, 2013, 2014,
      2015, 2016, 2017, 2018, 2019, 2020, 2021, 2022, 2023, 2024, 3000, 3001, 3002, 3003, 3004,
      3005, 3006, 3007, 3008, 3009, 3010, 3011, 3012, 3013, 3014, 3015, 3016, 3017, 3018, 3019,
      3020, 3021, 3022, 3023, 3024, 3025, 3026, 3027, 3028, 3029, 3030, 3031, 3032, 3033, 3034,
      3035, 3036, 3037, 3038, 3039, 3040, 3041, 3042, 3043, 3044, 3045, 3046, 3047, 3048, 3049,
      3050, 3051, 3052, 3053, 3054, 4000, 4001, 4002, 4003, 4004, 4005, 4006, 4007, 4008, 4009,
      4010, 4011]"
  by (simp add: KILL_REASON_CONFIG_def kill_ids)

lemma kill_table_strict: "strict_ids KILL_REASON_CONFIG"
  unfolding kill_table_eval by (simp add: sorted_wrt2 sorted_wrt1 del: sorted_wrt.simps)

lemma IsConfigSorted_from_iff:
  "IsConfigSorted_from cfg \<longleftrightarrow> sorted_wrt (\<le>) (map entry_id cfg)"
  by (induction cfg rule: IsConfigSorted_from.induct) (auto intro: order_trans)

lemma IsConfigSorted_holds: IsConfigSorted
  using kill_table_strict
  by (auto simp: IsConfigSorted_def IsConfigSorted_from_iff intro: sorted_wrt_mono_rel [rotated])

lemma kill_reasons_valid:
  "e \<in> set KILL_REASON_CONFIG \<Longrightarrow> faultReason e \<noteq> INVALID_KILL_ID \<and> appReason e \<noteq> INVALID_KILL_ID"
  by (auto simp: KILL_REASON_CONFIG_def INVALID_KILL_ID_def)

text \<open>The five blocks of the enumeration, each contiguous, and no other id.\<close>

lemma kill_ids_blocks:
  "map entry_id KILL_REASON_CONFIG =
     [REASON_APP_EXIT_MIN..REASON_KILL_PROCESS] @ [REASON_USER_EXIT_MIN..REASON_SIGNAL_EXIT] @
     [REASON_CRASH_EXIT_MIN..REASON_RS_TRANSACTION_DATA_OVERLIMIT] @
     [REASON_SYS_EXIT_MIN..REASON_INACTIVE_PROC_KILL] @ [REASON_KERNEL_EXIT_MIN..REASON_MAX]"
  unfolding kill_table_eval by (simp add: kill_ids upto.simps [of 1])

definition known_kill_id :: "int \<Rightarrow> bool" where
  "known_kill_id k \<longleftrightarrow>
     REASON_APP_EXIT_MIN \<le> k \<and> k \<le> REASON_KILL_PROCESS \<or>
     REASON_USER_EXIT_MIN \<le> k \<and> k \<le> REASON_SIGNAL_EXIT \<or>
     REASON_CRASH_EXIT_MIN \<le> k \<and> k \<le> REASON_RS_TRANSACTION_DATA_OVERLIMIT \<or>
     REASON_SYS_EXIT_MIN \<le> k \<and> k \<le> REASON_INACTIVE_PROC_KILL \<or>
     REASON_KERNEL_EXIT_MIN \<le> k \<and> k \<le> REASON_MAX"

lemma known_kill_id_iff: "known_kill_id k \<longleftrightarrow> k \<in> entry_id ` set KILL_REASON_CONFIG"
proof -
  have "entry_id ` set KILL_REASON_CONFIG = set (map entry_id KILL_REASON_CONFIG)" by simp
  then show ?thesis unfolding kill_ids_blocks known_kill_id_def by auto
qed

lemma FindEntry_eq: "FindEntry killId = linear_search KILL_REASON_CONFIG killId"
  unfolding FindEntry_def by (rule FindEntry_loop_linear [OF kill_table_strict]) auto

section \<open>Properties\<close>

text \<open>
  C19. The binary search of \<^verbatim>\<open>FindEntry\<close> never reads outside \<^verbatim>\<open>KILL_REASON_CONFIG\<close> and returns, for
  every 32-bit id, exactly the entry a linear scan of the table would return.
\<close>

theorem FindEntry_is_linear_search: "FindEntry killId = linear_search KILL_REASON_CONFIG killId"
  by (rule FindEntry_eq)

text \<open>
  \<^verbatim>\<open>GetKillReason\<close> and \<^verbatim>\<open>GetAppExitReason\<close> always return, and return the string InvalidKillId exactly
  for the ids outside the five contiguous blocks of the enumeration \<^verbatim>\<open>KillEventId\<close>: no enumerator is
  missing from the table and no entry of the table shadows the invalid marker.
\<close>

theorem GetKillReason_valid_iff:
  "\<exists>f a. GetKillReason k = Some f \<and> GetAppExitReason k = Some a \<and>
     (f \<noteq> INVALID_KILL_ID \<longleftrightarrow> known_kill_id k) \<and> (a \<noteq> INVALID_KILL_ID \<longleftrightarrow> known_kill_id k)"
proof (cases "find (\<lambda>e. entry_id e = k) KILL_REASON_CONFIG")
  case None
  then have "\<not> known_kill_id k" by (auto simp: known_kill_id_iff find_None_iff)
  with None show ?thesis
    by (simp add: GetKillReason_def GetAppExitReason_def FindEntry_eq linear_search_def)
next
  case (Some e)
  then have "e \<in> set KILL_REASON_CONFIG" "entry_id e = k"
    by (auto simp: find_Some_iff)
  then have "known_kill_id k" by (auto simp: known_kill_id_iff)
  with Some kill_reasons_valid [OF \<open>e \<in> set KILL_REASON_CONFIG\<close>] show ?thesis
    by (simp add: GetKillReason_def GetAppExitReason_def FindEntry_eq linear_search_def)
qed

end
