(* ===== verification/Handler_Checker.thy ===== *)
theory Handler_Checker
  imports Prelude
begin

text \<open>
  The liveness probe of one watched thread (\<^verbatim>\<open>handler_checker.h\<close>, \<^verbatim>\<open>handler_checker.cpp\<close>). The
  watchdog thread calls \<^verbatim>\<open>GetCheckState\<close> and then \<^verbatim>\<open>ScheduleCheck\<close> at every tick; \<^verbatim>\<open>ScheduleCheck\<close>
  posts a closure to the handler of the watched thread, which marks the check as completed when it
  runs. The result of \<^verbatim>\<open>EventHandler::PostTask\<close>, of the \<^verbatim>\<open>weak_ptr\<close> lock and of the hook flags are
  arguments. The step relation interleaves the watchdog thread with the handler's thread at the
  granularity of the accesses to the atomic \<^verbatim>\<open>isCompleted_\<close>.
\<close>

section \<open>Model\<close>

abbreviation (input) IPC_FULL_TASK :: string where "IPC_FULL_TASK \<equiv> ''OS_DfxIpcCheck''"
abbreviation (input) ASYNC_BINDER_SPACE_FULL_TASK :: string where
  "ASYNC_BINDER_SPACE_FULL_TASK \<equiv> ''OS_BinderSpace''"

datatype CheckStatus = COMPLETED | WAITING | WAITED_HALF

text \<open>An event handler is known by its identity only; \<^term>\<open>None\<close> is the null pointer.\<close>

record HandlerChecker =
  hc_name :: string
  hc_handler :: "nat option"
  isCompleted :: bool
  taskSlow :: bool
  hc_priority :: nat

definition PRIORITY_IMMEDIATE_DEFAULT :: nat where
  "PRIORITY_IMMEDIATE_DEFAULT = 1"

text \<open>
  The constructor used for the IPC check creates a runner and a handler of its own when it is given
  none: \<open>fresh\<close> is the identity of that handler.
\<close>

definition HandlerChecker_ipc :: "string \<Rightarrow> nat option \<Rightarrow> nat \<Rightarrow> HandlerChecker" where
  "HandlerChecker_ipc nm h fresh =
     \<lparr>hc_name = nm,
      hc_handler = (if nm = IPC_FULL_TASK \<and> h = None then Some fresh else h),
      isCompleted = True, taskSlow = False, hc_priority = PRIORITY_IMMEDIATE_DEFAULT\<rparr>"

definition HandlerChecker_prio :: "string \<Rightarrow> nat option \<Rightarrow> nat \<Rightarrow> HandlerChecker" where
  "HandlerChecker_prio nm h prio =
     \<lparr>hc_name = nm, hc_handler = h, isCompleted = True, taskSlow = False, hc_priority = prio\<rparr>"

text \<open>
  \<^verbatim>\<open>ScheduleCheck\<close> returns the task name and the priority of the closure it hands to \<^verbatim>\<open>PostTask\<close>, if
  it does, and \<open>ok\<close> is the result of that call. A failure is only logged.
\<close>

record posted_check =
  pc_handler :: nat
  pc_name :: string
  pc_prio :: nat
  pc_ok :: bool

definition ScheduleCheck :: "bool \<Rightarrow> HandlerChecker \<Rightarrow> HandlerChecker \<times> posted_check option" where
  "ScheduleCheck ok c =
     (case hc_handler c of
        None \<Rightarrow> (c, None)
      | Some h \<Rightarrow>
          if \<not> isCompleted c then (c, None)
          else (c\<lparr>isCompleted := False, taskSlow := False\<rparr>,
                Some \<lparr>pc_handler = h,
                      pc_name = (if hc_name c = IPC_FULL_TASK then ''XCollie IpcCheck Task''
                                 else ''XCollie Watchdog Task''),
                      pc_prio = hc_priority c, pc_ok = ok\<rparr>))"

definition GetCheckState :: "HandlerChecker \<Rightarrow> CheckStatus \<times> HandlerChecker" where
  "GetCheckState c =
     (if isCompleted c then (COMPLETED, c\<lparr>taskSlow := False\<rparr>)
      else if \<not> taskSlow c then (WAITED_HALF, c\<lparr>taskSlow := True\<rparr>)
      else (WAITING, c))"

text \<open>The posted closure, run by the handler's thread; \<open>alive\<close> is the result of \<^verbatim>\<open>weak.lock()\<close>.\<close>

datatype check_effect = SetHookFlagFalse | BlockUntilThreadAvailable

definition checkTask :: "bool \<Rightarrow> bool \<Rightarrow> bool \<Rightarrow> HandlerChecker \<Rightarrow> HandlerChecker \<times> check_effect list" where
  "checkTask alive global_hook hook c =
     (if \<not> alive then (c, [])
      else (c\<lparr>isCompleted := True\<rparr>,
            if hc_name c = IPC_FULL_TASK
            then (if global_hook \<and> hook then [SetHookFlagFalse] else []) @ [BlockUntilThreadAvailable]
            else []))"

text \<open>
  \<^verbatim>\<open>HandlerDumper\<close> concatenates what the handler dumps; \<open>msgs\<close> are the messages
  \<^verbatim>\<open>EventHandler::Dump\<close> passes to it.
\<close>

definition HandlerDumper_Dump :: "string \<Rightarrow> string \<Rightarrow> string" where
  "HandlerDumper_Dump dumpInfo msg = dumpInfo @ msg"

definition HandlerDumper_GetTag :: string where "HandlerDumper_GetTag = []"
definition HandlerDumper_GetDumpInfo :: "string \<Rightarrow> string" where "HandlerDumper_GetDumpInfo dumpInfo = dumpInfo"

definition GetDumpInfo :: "string list \<Rightarrow> HandlerChecker \<Rightarrow> string" where
  "GetDumpInfo msgs c = (if hc_handler c \<noteq> None then HandlerDumper_GetDumpInfo (foldl HandlerDumper_Dump [] msgs) else [])"

definition GetHandler :: "HandlerChecker \<Rightarrow> nat option" where
  "GetHandler c = hc_handler c"

section \<open>The two threads\<close>

datatype hc_pc = AtGet | AtSchedule

text \<open>
  \<open>hs_pending\<close> counts the closures posted and not yet run, \<open>hs_age\<close> the calls of \<^verbatim>\<open>GetCheckState\<close> since
  the outstanding check was scheduled, \<open>hs_reports\<close> the states returned, newest first. \<open>hs_posts_ok\<close>
  records whether every \<^verbatim>\<open>PostTask\<close> so far succeeded.
\<close>

record hc_sys =
  hs_chk :: HandlerChecker
  hs_pc :: hc_pc
  hs_pending :: nat
  hs_age :: nat
  hs_reports :: "CheckStatus list"
  hs_posts_ok :: bool

definition hc_init :: "HandlerChecker \<Rightarrow> hc_sys" where
  "hc_init c = \<lparr>hs_chk = c, hs_pc = AtGet, hs_pending = 0, hs_age = 0, hs_reports = [], hs_posts_ok = True\<rparr>"

fun do_get :: "hc_sys \<Rightarrow> hc_sys" where
  "do_get s = (case GetCheckState (hs_chk s) of (r, c) \<Rightarrow>
     s\<lparr>hs_chk := c, hs_pc := AtSchedule, hs_reports := r # hs_reports s, hs_age := Suc (hs_age s)\<rparr>)"

fun do_schedule :: "bool \<Rightarrow> hc_sys \<Rightarrow> hc_sys" where
  "do_schedule ok s = (case ScheduleCheck ok (hs_chk s) of
     (c, None) \<Rightarrow> s\<lparr>hs_chk := c, hs_pc := AtGet\<rparr>
   | (c, Some p) \<Rightarrow> s\<lparr>hs_chk := c, hs_pc := AtGet, hs_age := 0,
        hs_pending := hs_pending s + (if pc_ok p then 1 else 0), hs_posts_ok := hs_posts_ok s \<and> pc_ok p\<rparr>)"

fun do_run :: "bool \<Rightarrow> bool \<Rightarrow> hc_sys \<Rightarrow> hc_sys" where
  "do_run gh h s = s\<lparr>hs_chk := fst (checkTask True gh h (hs_chk s)), hs_pending := hs_pending s - 1\<rparr>"

inductive hc_step :: "hc_sys \<Rightarrow> hc_sys \<Rightarrow> bool" where
  get: "hs_pc s = AtGet \<Longrightarrow> hc_step s (do_get s)"
| schedule: "hs_pc s = AtSchedule \<Longrightarrow> hc_step s (do_schedule ok s)"
| run: "0 < hs_pending s \<Longrightarrow> hc_step s (do_run gh h s)"

inductive_cases hc_stepE: "hc_step s s'"

definition hc_inv :: "hc_sys \<Rightarrow> bool" where
  "hc_inv s \<longleftrightarrow>
     hs_pending s \<le> 1 \<and>
     (isCompleted (hs_chk s) \<longrightarrow> hs_pending s = 0) \<and>
     (\<not> isCompleted (hs_chk s) \<and> hs_posts_ok s \<longrightarrow> hs_pending s = 1) \<and>
     (\<not> hs_posts_ok s \<longrightarrow> \<not> isCompleted (hs_chk s) \<and> hs_pending s = 0) \<and>
     (\<not> isCompleted (hs_chk s) \<longrightarrow> (taskSlow (hs_chk s) \<longleftrightarrow> 0 < hs_age s))"

lemmas hc_defs = GetCheckState_def ScheduleCheck_def checkTask_def hc_inv_def

lemma hc_inv_step: "hc_step s s' \<Longrightarrow> hc_inv s \<Longrightarrow> hc_inv s'"
  by (erule hc_stepE) (auto simp: hc_defs split: option.splits if_splits)

lemma hc_inv_reach:
  "hc_step\<^sup>*\<^sup>* s s' \<Longrightarrow> hc_inv s \<Longrightarrow> hc_inv s'"
  by (induction rule: rtranclp_induct) (auto intro: hc_inv_step)

lemma hc_inv_init: "isCompleted c \<Longrightarrow> hc_inv (hc_init c)"
  by (simp add: hc_inv_def hc_init_def)

text \<open>A check whose closure was never accepted stays outstanding.\<close>

lemma lost_step:
  "hc_step s s' \<Longrightarrow> \<not> isCompleted (hs_chk s) \<and> hs_pending s = 0 \<Longrightarrow> \<not> isCompleted (hs_chk s') \<and> hs_pending s' = 0"
  by (erule hc_stepE) (auto simp: hc_defs split: option.splits if_splits)

lemma lost_reach:
  "hc_step\<^sup>*\<^sup>* s s' \<Longrightarrow> \<not> isCompleted (hs_chk s) \<and> hs_pending s = 0 \<Longrightarrow> \<not> isCompleted (hs_chk s') \<and> hs_pending s' = 0"
  by (induction rule: rtranclp_induct) (auto dest: lost_step)

section \<open>Properties\<close>


lemma hc_demo_reach:
  "hc_step\<^sup>*\<^sup>* (hc_init (HandlerChecker_prio ''t'' (Some 7) 1))
     (do_get (do_schedule True (do_get (hc_init (HandlerChecker_prio ''t'' (Some 7) 1)))))"
proof -
  let ?s0 = "hc_init (HandlerChecker_prio ''t'' (Some 7) 1)"
  have s1: "hc_step ?s0 (do_get ?s0)" by (rule hc_step.get) (simp add: hc_init_def)
  have s2: "hc_step (do_get ?s0) (do_schedule True (do_get ?s0))"
    by (rule hc_step.schedule) (simp add: hc_init_def HandlerChecker_prio_def GetCheckState_def)
  have s3: "hc_step (do_schedule True (do_get ?s0)) (do_get (do_schedule True (do_get ?s0)))"
    by (rule hc_step.get) (simp add: hc_init_def HandlerChecker_prio_def hc_defs)
  show ?thesis
    by (rule converse_rtranclp_into_rtranclp [OF s1 converse_rtranclp_into_rtranclp
          [OF s2 r_into_rtranclp [of hc_step, OF s3]]])
qed


text \<open>
  What a tick reports in a reachable state: completed when the flag is up; otherwise half-way
  exactly at the first tick after the outstanding check was scheduled, and waiting at every later
  one. So a full-timeout report means that the watched thread has not run the check for two ticks,
  and a half-way report always comes before it.
\<close>

theorem report_follows_age:
  assumes "isCompleted c" and "hc_step\<^sup>*\<^sup>* (hc_init c) s"
  shows "fst (GetCheckState (hs_chk s)) =
    (if isCompleted (hs_chk s) then COMPLETED else if hs_age s = 0 then WAITED_HALF else WAITING)"
  using hc_inv_reach [OF assms(2) hc_inv_init [OF assms(1)]] by (simp add: hc_defs)

theorem report_follows_age_witness:
  "fst (GetCheckState (hs_chk (do_get (do_schedule True (do_get
     (hc_init (HandlerChecker_prio ''t'' (Some 7) 1))))))) = WAITING"
  using report_follows_age [OF _ hc_demo_reach]
  by (simp add: HandlerChecker_prio_def hc_init_def hc_defs)

text \<open>
  When \<^verbatim>\<open>PostTask\<close> fails, the error is only logged and the flag stays down: whatever both
  threads do afterwards, no later tick reports completed, although the watched thread may be
  healthy.
\<close>

theorem failed_post_blocks_forever:
  assumes "isCompleted c" and "hc_step\<^sup>*\<^sup>* (hc_init c) s"
    and "isCompleted (hs_chk s)" and "hc_handler (hs_chk s) \<noteq> None"
    and "hc_step\<^sup>*\<^sup>* (do_schedule False s) s'"
  shows "fst (GetCheckState (hs_chk s')) \<noteq> COMPLETED"
proof -
  have "hc_inv s" using hc_inv_reach [OF assms(2) hc_inv_init [OF assms(1)]] .
  then have "\<not> isCompleted (hs_chk (do_schedule False s)) \<and> hs_pending (do_schedule False s) = 0"
    using assms(3,4) by (auto simp: hc_defs)
  from lost_reach [OF assms(5) this] show ?thesis by (simp add: GetCheckState_def)
qed

theorem failed_post_blocks_forever_witness:
  "fst (GetCheckState (hs_chk (do_schedule False (do_get (hc_init (HandlerChecker_prio ''t'' (Some 7) 1)))))) \<noteq> COMPLETED"
proof -
  let ?s0 = "hc_init (HandlerChecker_prio ''t'' (Some 7) 1)"
  have "hc_step\<^sup>*\<^sup>* ?s0 (do_get ?s0)"
    by (rule r_into_rtranclp, rule hc_step.get) (simp add: hc_init_def)
  then show ?thesis
    using failed_post_blocks_forever [of "HandlerChecker_prio ''t'' (Some 7) 1" "do_get ?s0"
        "do_schedule False (do_get ?s0)"]
    by (simp add: HandlerChecker_prio_def hc_init_def hc_defs)
qed

end
