(* ===== verification/Xcollie_Strings.thy ===== *)
theory Xcollie_Strings
  imports Prelude
begin

text \<open>
  The string and number helpers of \<^verbatim>\<open>xcollie_utils.cpp\<close>: tokenising, splitting and trimming, the
  conversions between strings and integers, and the parsers of the configuration the watchdog reads
  (report-times parameter, available memory, task information of the task runtime). The C functions
  \<^verbatim>\<open>strtol\<close>, \<^verbatim>\<open>strtoll\<close>, \<^verbatim>\<open>strtoull\<close>, \<^verbatim>\<open>atoi\<close> and \<^verbatim>\<open>std::stoi\<close> are given by their
  documented behaviour on base ten. Contents of files and system parameters are arguments. A C++
  exception is an explicit value.
\<close>

section \<open>C conversions\<close>

abbreviation INT32_MAX :: int where "INT32_MAX \<equiv> 2147483647"
abbreviation INT32_MIN :: int where "INT32_MIN \<equiv> - 2147483648"
abbreviation INT64_MAX :: int where "INT64_MAX \<equiv> 9223372036854775807"
abbreviation INT64_MIN :: int where "INT64_MIN \<equiv> - 9223372036854775808"

text \<open>The sign, the digits and the rest of a string after the leading white space.\<close>

definition strto_parse :: "string \<Rightarrow> bool \<times> string \<times> string" where
  "strto_parse s =
     (let s1 = dropWhile isspace s;
          neg = (s1 \<noteq> [] \<and> hd s1 = CHR ''-'');
          s2 = (if s1 \<noteq> [] \<and> (hd s1 = CHR ''-'' \<or> hd s1 = CHR ''+'') then tl s1 else s1)
      in (neg, takeWhile isdigit s2, dropWhile isdigit s2))"

text \<open>
  The result of a conversion: its value, the part of the string not consumed (\<^verbatim>\<open>*endptr\<close>) and
  whether \<^verbatim>\<open>errno\<close> is \<^verbatim>\<open>ERANGE\<close>. With no digits nothing is consumed.
\<close>

definition strtoll :: "string \<Rightarrow> int \<times> string \<times> bool" where
  "strtoll s = (case strto_parse s of (neg, ds, rest) \<Rightarrow>
     if ds = [] then (0, s, False)
     else let n = int (num_of_digits 0 ds); v = (if neg then - n else n) in
       if v > INT64_MAX then (INT64_MAX, rest, True)
       else if v < INT64_MIN then (INT64_MIN, rest, True)
       else (v, rest, False))"

definition strtoull :: "string \<Rightarrow> nat \<times> string \<times> bool" where
  "strtoull s = (case strto_parse s of (neg, ds, rest) \<Rightarrow>
     if ds = [] then (0, s, False)
     else let n = num_of_digits 0 ds in
       if n \<ge> 2 ^ 64 then (2 ^ 64 - 1, rest, True)
       else (if neg \<and> n \<noteq> 0 then 2 ^ 64 - n else n, rest, False))"

text \<open>The conversion of a \<^verbatim>\<open>long\<close> to \<^verbatim>\<open>int\<close>.\<close>

definition to_int32 :: "int \<Rightarrow> int" where
  "to_int32 i = (i + 2 ^ 31) mod 2 ^ 32 - 2 ^ 31"

definition strtol_int :: "string \<Rightarrow> int" where
  "strtol_int s = to_int32 (fst (strtoll s))"

abbreviation at_nul :: "string \<Rightarrow> bool" where
  "at_nul s \<equiv> s = [] \<or> hd s = CHR 0x00"

section \<open>Tokenising and splitting\<close>

function GetFileToList :: "string \<Rightarrow> string list" where
  "GetFileToList s =
     (if s = [] then []
      else let s1 = dropWhile isspace s;
               w = takeWhile (\<lambda>c. \<not> isspace c) s1;
               r = dropWhile (\<lambda>c. \<not> isspace c) s1
           in (if w \<noteq> [] then [w] else []) @ GetFileToList r)"
  by pat_completeness auto

lemma tokenise_decreases:
  assumes "s \<noteq> []"
  shows "length (dropWhile (\<lambda>c. \<not> P c) (dropWhile P s)) < length s"
proof (cases "dropWhile P s")
  case Nil
  then show ?thesis unfolding Nil using assms by simp
next
  case (Cons c r)
  then have "\<not> P c" by (simp add: dropWhile_eq_Cons_conv)
  have "length (c # r) \<le> length s" unfolding Cons [symmetric] by (rule length_dropWhile_le)
  moreover have "length (dropWhile (\<lambda>c. \<not> P c) r) \<le> length r" by (rule length_dropWhile_le)
  ultimately show ?thesis using Cons \<open>\<not> P c\<close> by simp
qed

termination GetFileToList
  by (relation "measure length") (auto simp: tokenise_decreases)

declare GetFileToList.simps [simp del]

function StrSplit_loop :: "string \<Rightarrow> nat \<Rightarrow> nat \<Rightarrow> nat \<Rightarrow> string" where
  "StrSplit_loop str index start curIndex =
     (if length str < start then []
      else case str_find str [CHR '':''] start of
          None \<Rightarrow> if curIndex = index then drop start str else []
        | Some e \<Rightarrow> if curIndex = index then str_substr str start (e - start)
                    else StrSplit_loop str index (e + 1) (curIndex + 1))"
  by pat_completeness auto

termination StrSplit_loop
  by (relation "measure (\<lambda>(str, index, b, cur). Suc (length str) - b)") (auto dest!: str_find_bounds)

declare StrSplit_loop.simps [simp del]

definition StrSplit :: "string \<Rightarrow> nat \<Rightarrow> string" where
  "StrSplit str index = StrSplit_loop str index 0 0"

definition TrimStr :: "string \<Rightarrow> char \<Rightarrow> string" where
  "TrimStr s c = rev (dropWhile (\<lambda>x. x = c) (rev (dropWhile (\<lambda>x. x = c) s)))"

text \<open>
  The loop of \<^verbatim>\<open>SplitStr\<close> from position \<open>start\<close>. It is entered with a non-empty separator only; the
  test of it in the loop makes the recursion well-founded and is never decisive.
\<close>

definition emit_part :: "bool \<Rightarrow> bool \<Rightarrow> string \<Rightarrow> string list" where
  "emit_part canEmpty needTrim part =
     (let p = (if needTrim then TrimStr part (CHR '' '') else part)
      in if p \<noteq> [] \<or> canEmpty then [p] else [])"

function SplitStr_loop :: "string \<Rightarrow> string \<Rightarrow> bool \<Rightarrow> bool \<Rightarrow> nat \<Rightarrow> string list" where
  "SplitStr_loop sep strTmp canEmpty needTrim start =
     (case str_find strTmp sep start of
        Some pos \<Rightarrow>
          if sep = [] then []
          else emit_part canEmpty needTrim (str_substr strTmp start (pos - start)) @
               SplitStr_loop sep strTmp canEmpty needTrim (pos + length sep)
      | None \<Rightarrow> emit_part canEmpty needTrim (drop start strTmp))"
  by pat_completeness auto

termination SplitStr_loop
proof (relation "measure (\<lambda>(sep, s, c, t, start). length s - start)", goal_cases)
  case (2 sep strTmp canEmpty needTrim start pos)
  then have "start \<le> pos \<and> pos + length sep \<le> length strTmp" using str_find_bounds by blast
  then show ?case using 2 by (cases sep) auto
qed simp

declare SplitStr_loop.simps [simp del]

definition SplitStr :: "string \<Rightarrow> string \<Rightarrow> bool \<Rightarrow> bool \<Rightarrow> string list" where
  "SplitStr str sep canEmpty needTrim =
     (if sep = [] then [if needTrim then TrimStr str (CHR '' '') else str]
      else SplitStr_loop sep (if needTrim then TrimStr str (CHR '' '') else str) canEmpty needTrim 0)"

text \<open>
  The loop \<^verbatim>\<open>while (start < s.size()) {... find(c, start) ...}\<close> that cuts a string at a
  character, shared by the parsers of the binder file, of the process status and of the report-times
  parameter: a final empty piece is not produced.
\<close>

fun cut_lines :: "char \<Rightarrow> string \<Rightarrow> string \<Rightarrow> string list" where
  "cut_lines c acc [] = (if acc = [] then [] else [rev acc])"
| "cut_lines c acc (x # xs) = (if x = c then rev acc # cut_lines c [] xs else cut_lines c (x # acc) xs)"

definition IsNum :: "string \<Rightarrow> bool" where
  "IsNum s \<longleftrightarrow> list_all isdigit s"

definition GetKeyValueByStr :: "string \<Rightarrow> char \<Rightarrow> (string \<times> string) option" where
  "GetKeyValueByStr tokens flag =
     (case str_find tokens [flag] 0 of
        None \<Rightarrow> None
      | Some colonPos \<Rightarrow>
          let key = take colonPos tokens; val = drop (colonPos + 1) tokens in
          if key = [] \<or> val = [] then None
          else let val' = filter (\<lambda>c. \<not> isspace c) val in
            if IsNum val' then Some (key, val') else None)"

definition SafeStringToInt64 :: "string \<Rightarrow> int option" where
  "SafeStringToInt64 val =
     (if val = [] then None
      else case strtoull val of (n, rest, erange) \<Rightarrow>
        if rest = val \<or> \<not> at_nul rest \<or> erange \<or> int n > INT64_MAX then None else Some (int n))"

fun GetNumFromString_loop :: "int \<Rightarrow> string \<Rightarrow> int" where
  "GetNumFromString_loop num [] = num"
| "GetNumFromString_loop num (c # s) =
     (if \<not> isdigit c then GetNumFromString_loop num s
      else let digit = int (digit_val c) in
        if num > INT64_MAX div 10 \<or> num = INT64_MAX div 10 \<and> digit > INT64_MAX mod 10 then INT64_MAX
        else GetNumFromString_loop (num * 10 + digit) s)"

definition GetNumFromString :: "string \<Rightarrow> int" where
  "GetNumFromString s = GetNumFromString_loop 0 s"

text \<open>\<open>file\<close> is the content of \<^verbatim>\<open>/proc/meminfo\<close>, \<^term>\<open>None\<close> when it cannot be read.\<close>

definition GetAvailMemory :: "string option \<Rightarrow> int" where
  "GetAvailMemory file =
     (case file of
        None \<Rightarrow> - 1
      | Some content \<Rightarrow>
          if content = [] then - 1
          else case find (\<lambda>mem. str_contains mem ''MemAvailable'') (SplitStr content [CHR 0x0A] False True) of
              None \<Rightarrow> - 1
            | Some mem \<Rightarrow> let memsize = GetNumFromString mem in if memsize < 0 then - 1 else memsize)"

fun skip_blanks :: "string \<Rightarrow> string option" where
  "skip_blanks [] = Some []"
| "skip_blanks (c # s) =
     (if c = CHR 0x22 then Some (c # s)
      else if c \<noteq> CHR '' '' \<and> c \<noteq> CHR 0x09 then None else skip_blanks s)"

definition tidKey :: string where
  "tidKey = [CHR 0x22] @ ''tid'' @ [CHR 0x22] @ '':''"

definition ParseTidFromInfo :: "string \<Rightarrow> int" where
  "ParseTidFromInfo taskInfo =
     (if taskInfo = [] then - 1
      else case str_find taskInfo tidKey 0 of
          None \<Rightarrow> - 1
        | Some tidKeyPos \<Rightarrow>
            (case skip_blanks (drop (tidKeyPos + length tidKey) taskInfo) of
               None \<Rightarrow> - 1
             | Some tail \<Rightarrow>
                 let valueStart = length taskInfo - length tail in
                 (case str_find taskInfo [CHR 0x22] (valueStart + 1) of
                    None \<Rightarrow> - 1
                  | Some valueEnd \<Rightarrow>
                      let tidStr = str_substr taskInfo (valueStart + 1) (valueEnd - valueStart - 1) in
                      if tidStr = [] then - 1
                      else (case strtoll tidStr of (tidValue, rest, erange) \<Rightarrow>
                        if erange \<or> \<not> at_nul rest then - 1
                        else if tidValue = INT64_MAX \<or> tidValue = INT64_MIN then - 1
                        else if tidValue < 0 \<or> tidValue > INT32_MAX then - 1
                        else tidValue))))"

section \<open>The report-times parameter\<close>

text \<open>\<^verbatim>\<open>std::stoll\<close> throws on a string without digits and on overflow.\<close>

datatype std_exception = invalid_argument | out_of_range

definition stoll :: "string \<Rightarrow> std_exception + int" where
  "stoll s = (case strto_parse s of (neg, ds, rest) \<Rightarrow>
     if ds = [] then Inl invalid_argument
     else case strtoll s of (v, r, erange) \<Rightarrow> if erange then Inl out_of_range else Inr v)"

fun GetReportTimesMap_loop :: "string list \<Rightarrow> (string \<rightharpoonup> int) \<Rightarrow> std_exception + (string \<rightharpoonup> int)" where
  "GetReportTimesMap_loop [] kv = Inr kv"
| "GetReportTimesMap_loop (line # ls) kv =
     (if line = [] then GetReportTimesMap_loop ls kv
      else case GetKeyValueByStr line (CHR '':'') of
          None \<Rightarrow> GetReportTimesMap_loop ls kv
        | Some (key, val) \<Rightarrow>
            (case stoll val of
               Inl e \<Rightarrow> Inl e
             | Inr num \<Rightarrow>
                 GetReportTimesMap_loop ls
                   (kv(key \<mapsto> if num < INT32_MIN then INT32_MIN
                              else if num > INT32_MAX then INT32_MAX else num))))"

definition GetReportTimesMap :: "string \<Rightarrow> std_exception + (string \<rightharpoonup> int)" where
  "GetReportTimesMap param = GetReportTimesMap_loop (cut_lines (CHR '';'') [] param) Map.empty"

text \<open>
  \<^verbatim>\<open>UpdateReportTimes\<close> on its two reference parameters. The division of a non-negative C++ integer
  is that of the integers here.
\<close>

definition UpdateReportTimes :: "string \<Rightarrow> string \<Rightarrow> int \<times> int \<Rightarrow> std_exception + int \<times> int" where
  "UpdateReportTimes param bundleName tc =
     (case GetReportTimesMap param of
        Inl e \<Rightarrow> Inl e
      | Inr kv \<Rightarrow> Inr (case kv bundleName of None \<Rightarrow> tc | Some v \<Rightarrow> (v div 60, 60 * 1000)))"

section \<open>Names\<close>

definition MAX_NAME_SIZE :: nat where
  "MAX_NAME_SIZE = 128"

definition GetLimitedSizeName :: "string \<Rightarrow> string" where
  "GetLimitedSizeName name = (if length name > MAX_NAME_SIZE then str_substr name 0 MAX_NAME_SIZE else name)"

text \<open>\<^verbatim>\<open>IsFileNameFormat\<close> is true of the characters that are removed.\<close>

definition IsFileNameFormat :: "char \<Rightarrow> bool" where
  "IsFileNameFormat c \<longleftrightarrow>
     (let n = (of_char c :: nat) in
      \<not> (48 \<le> n \<and> n \<le> 57) \<and> \<not> (97 \<le> n \<and> n \<le> 122) \<and> \<not> (65 \<le> n \<and> n \<le> 90) \<and>
      \<not> (c = CHR ''.'' \<or> c = CHR ''-'' \<or> c = CHR ''_''))"

text \<open>The scan of a command line for the end of the path of the program and its first NUL.\<close>

fun proc_name_scan :: "string \<Rightarrow> nat \<Rightarrow> nat \<Rightarrow> nat \<times> nat" where
  "proc_name_scan [] i start = (start, i)"
| "proc_name_scan (c # s) i start =
     (if c = CHR ''/'' then proc_name_scan s (Suc i) (Suc i)
      else if c = CHR 0x00 then (start, i)
      else proc_name_scan s (Suc i) start)"

definition proc_name_of :: "string \<Rightarrow> string" where
  "proc_name_of content = (case proc_name_scan content 0 0 of (s, e) \<Rightarrow> str_substr content s (e - s))"

text \<open>The cache of the last process name, \<^verbatim>\<open>g_curProcName\<close> and \<^verbatim>\<open>g_lastPid\<close>.\<close>

record proc_name_cache =
  g_curProcName :: string
  g_lastPid :: int

definition GetProcessNameFromProcCmdline ::
  "(int \<Rightarrow> string) \<Rightarrow> int \<Rightarrow> proc_name_cache \<Rightarrow> string \<times> proc_name_cache" where
  "GetProcessNameFromProcCmdline first_line pid g =
     (if pid > 0 \<and> g_curProcName g \<noteq> [] \<and> g_lastPid g = pid then (g_curProcName g, g)
      else let content = first_line pid in
        if content = [] then ([], g)
        else if pid \<le> 0 then (proc_name_of content, g)
        else (proc_name_of content, g\<lparr>g_curProcName := proc_name_of content, g_lastPid := pid\<rparr>))"

definition GetSelfProcName :: "(int \<Rightarrow> string) \<Rightarrow> proc_name_cache \<Rightarrow> string" where
  "GetSelfProcName first_line g =
     filter (\<lambda>c. \<not> IsFileNameFormat c) (fst (GetProcessNameFromProcCmdline first_line 0 g))"

section \<open>Fields of a string\<close>

text \<open>The reference definition of splitting at a character: every piece, empty ones included.\<close>

fun str_fields :: "char \<Rightarrow> string \<Rightarrow> string list" where
  "str_fields c [] = [[]]"
| "str_fields c (x # xs) = (if x = c then [] # str_fields c xs else (x # hd (str_fields c xs)) # tl (str_fields c xs))"

lemma fields_not_Nil [simp]: "str_fields c s \<noteq> []"
  by (cases s) auto

lemma fields_no_sep: "c \<notin> set s \<Longrightarrow> str_fields c s = [s]"
  by (induction s) auto

lemma fields_append: "c \<notin> set u \<Longrightarrow> str_fields c (u @ c # v) = u # str_fields c v"
  by (induction u) auto

lemma fields_pieces: "f \<in> set (str_fields c s) \<Longrightarrow> c \<notin> set f"
proof (induction s arbitrary: f)
  case (Cons x xs)
  then show ?case
    by (cases "str_fields c xs") (auto split: if_splits)
qed simp

lemma find_aux_char_Some:
  "find_aux [c] t i = Some j \<Longrightarrow>
    i \<le> j \<and> c \<notin> set (take (j - i) t) \<and> t = take (j - i) t @ c # drop (Suc (j - i)) t"
proof (induction t arbitrary: i)
  case (Cons x t)
  show ?case
  proof (cases "x = c")
    case True
    with Cons.prems show ?thesis by simp
  next
    case False
    with Cons.prems have "find_aux [c] t (Suc i) = Some j" by simp
    from Cons.IH [OF this] False show ?thesis
      by (cases "j - i") (auto simp: Suc_diff_Suc [symmetric])
  qed
qed simp

lemma fields_find:
  "str_find s [c] b = None \<Longrightarrow> b \<le> length s \<Longrightarrow> str_fields c (drop b s) = [drop b s]"
  "str_find s [c] b = Some e \<Longrightarrow> str_fields c (drop b s) = str_substr s b (e - b) # str_fields c (drop (e + 1) s)"
proof -
  show "str_find s [c] b = None \<Longrightarrow> b \<le> length s \<Longrightarrow> str_fields c (drop b s) = [drop b s]"
    by (simp add: str_find_char_None fields_no_sep)
  assume "str_find s [c] b = Some e"
  then have "find_aux [c] (drop b s) b = Some e" by (simp add: str_find_def split: if_splits)
  from find_aux_char_Some [OF this] have be: "b \<le> e" and no: "c \<notin> set (take (e - b) (drop b s))"
    and "drop b s = take (e - b) (drop b s) @ c # drop (Suc (e - b)) (drop b s)" by auto
  moreover have "drop (Suc (e - b)) (drop b s) = drop (e + 1) s" using be by simp
  ultimately have "str_fields c (drop b s) = str_fields c (take (e - b) (drop b s) @ c # drop (e + 1) s)"
    by metis
  then show "str_fields c (drop b s) = str_substr s b (e - b) # str_fields c (drop (e + 1) s)"
    by (simp add: fields_append [OF no] str_substr_def)
qed

lemma SplitStr_loop_fields:
  "b \<le> length s \<Longrightarrow>
    SplitStr_loop [c] s canEmpty needTrim b = concat (map (emit_part canEmpty needTrim) (str_fields c (drop b s)))"
proof (induction "[c]" s canEmpty needTrim b rule: SplitStr_loop.induct)
  case (1 s canEmpty needTrim b)
  show ?case
  proof (cases "str_find s [c] b")
    case None
    with 1(2) fields_find(1) [OF None] show ?thesis
      by (subst SplitStr_loop.simps) simp
  next
    case (Some e)
    have "e + length [c] \<le> length s" using str_find_bounds [OF Some] by simp
    with 1(1) [OF Some] fields_find(2) [OF Some] Some show ?thesis
      by (subst SplitStr_loop.simps) simp
  qed
qed

lemma SplitStr_fields:
  "SplitStr s [c] canEmpty False = concat (map (emit_part canEmpty False) (str_fields c s))"
  using SplitStr_loop_fields [of 0 s c canEmpty False] by (simp add: SplitStr_def)

lemma concat_emit_all: "concat (map (emit_part True False) fs) = fs"
  by (induction fs) (auto simp: emit_part_def)

lemma StrSplit_loop_fields:
  "b \<le> length s \<Longrightarrow> cur \<le> i \<Longrightarrow>
    StrSplit_loop s i b cur =
      (if i - cur < length (str_fields (CHR '':'') (drop b s)) then str_fields (CHR '':'') (drop b s) ! (i - cur) else [])"
proof (induction s i b cur rule: StrSplit_loop.induct)
  case (1 s i b cur)
  show ?case
  proof (cases "str_find s [CHR '':''] b")
    case None
    with 1(2,3) fields_find(1) [OF None] show ?thesis
      by (subst StrSplit_loop.simps) auto
  next
    case (Some e)
    have e: "e + 1 \<le> length s" using str_find_bounds [OF Some] by simp
    show ?thesis
    proof (cases "cur = i")
      case True
      with 1(2) fields_find(2) [OF Some] Some show ?thesis by (subst StrSplit_loop.simps) simp
    next
      case False
      then have "i - cur = Suc (i - (cur + 1))" using 1(3) by simp
      moreover have "StrSplit_loop s i b cur = StrSplit_loop s i (e + 1) (cur + 1)"
        using 1(2) Some False by (subst StrSplit_loop.simps) simp
      ultimately show ?thesis
        using 1(1) [OF _ Some False e] 1(2,3) False fields_find(2) [OF Some] by simp
    qed
  qed
qed

lemma join_fields:
  "concat (map (\<lambda>f. c # f) (str_fields c s)) = c # s"
proof (induction s)
  case (Cons x xs)
  then show ?case by (cases "str_fields c xs") auto
qed simp

section \<open>Lemmas on conversions\<close>

lemma strto_parse_digits:
  assumes "list_all isdigit ds" and "ds \<noteq> []"
  shows "strto_parse ds = (False, ds, [])"
proof -
  obtain d r where d: "ds = d # r" using assms(2) by (cases ds) auto
  have "isdigit d" using assms(1) d by simp
  then have "\<not> isspace d" "d \<noteq> CHR ''-''" "d \<noteq> CHR ''+''"
    by (auto simp: isdigit_not_isspace) (auto simp: isdigit_def)
  moreover have "\<forall>x \<in> set ds. isdigit x" using assms(1) by (simp add: list_all_iff)
  then have "takeWhile isdigit ds = ds" "dropWhile isdigit ds = []"
    by (simp_all add: takeWhile_eq_all_conv dropWhile_eq_Nil_conv)
  ultimately show ?thesis using d by (simp add: strto_parse_def)
qed

lemma list_all_show_nat: "list_all isdigit (show_nat n)"
  using show_nat_digits by (simp add: list_all_iff)

lemma strtoll_show_nat:
  "strtoll (show_nat n) = (if int n > INT64_MAX then (INT64_MAX, [], True) else (int n, [], False))"
  by (simp add: strtoll_def strto_parse_digits list_all_show_nat Let_def)

lemma strtoull_digits:
  "list_all isdigit ds \<Longrightarrow> ds \<noteq> [] \<Longrightarrow> num_of_digits 0 ds < 2 ^ 64 \<Longrightarrow>
    strtoull ds = (num_of_digits 0 ds, [], False)"
  by (simp add: strtoull_def strto_parse_digits Let_def)

lemma GetNumFromString_loop_filter:
  "GetNumFromString_loop num s = GetNumFromString_loop num (filter isdigit s)"
  by (induction num s rule: GetNumFromString_loop.induct) (auto simp: Let_def)

lemma sat_step:
  fixes a b :: int
  assumes "0 \<le> b" and "b < 10"
  shows "(a > INT64_MAX div 10 \<or> a = INT64_MAX div 10 \<and> b > INT64_MAX mod 10) \<longleftrightarrow> a * 10 + b > INT64_MAX"
  using assms by auto

lemma GetNumFromString_loop_sat:
  "list_all isdigit s \<Longrightarrow> int num \<le> INT64_MAX \<Longrightarrow>
    GetNumFromString_loop (int num) s = min INT64_MAX (int (num_of_digits num s))"
proof (induction s arbitrary: num)
  case (Cons c s)
  let ?n = "num * 10 + digit_val c"
  have d: "digit_val c < 10" "isdigit c" "list_all isdigit s" using Cons.prems by auto
  have sat: "(int num > INT64_MAX div 10 \<or> int num = INT64_MAX div 10 \<and> int (digit_val c) > INT64_MAX mod 10)
      \<longleftrightarrow> int ?n > INT64_MAX"
    using sat_step [of "int (digit_val c)" "int num"] d(1) by simp
  show ?case
  proof (cases "int ?n > INT64_MAX")
    case True
    moreover have "?n \<le> num_of_digits ?n s" by (rule num_of_digits_mono)
    ultimately have "int (num_of_digits ?n s) > INT64_MAX" by linarith
    with True sat d show ?thesis by (simp add: Let_def)
  next
    case False
    then have "GetNumFromString_loop (int ?n) s = min INT64_MAX (int (num_of_digits ?n s))"
      using Cons.IH [of ?n] d by simp
    moreover have "\<not> (int num > INT64_MAX div 10 \<or> int num = INT64_MAX div 10 \<and> int (digit_val c) > INT64_MAX mod 10)"
      using sat False by blast
    ultimately show ?thesis using d by (auto simp: Let_def algebra_simps)
  qed
qed simp

lemma IsNum_show_nat [simp]: "IsNum (show_nat n)"
  by (simp add: IsNum_def list_all_show_nat)

lemma filter_digits: "list_all isdigit s \<Longrightarrow> filter (\<lambda>c. \<not> isspace c) s = s"
  by (induction s) (auto simp: isdigit_not_isspace)

lemma GetKeyValue_show:
  "key \<noteq> [] \<Longrightarrow> flag \<notin> set key \<Longrightarrow>
    GetKeyValueByStr (key @ flag # show_nat n) flag = Some (key, show_nat n)"
  by (simp add: GetKeyValueByStr_def str_find_char_append Let_def filter_digits list_all_show_nat)

lemma stoll_show_nat: "int n \<le> INT64_MAX \<Longrightarrow> stoll (show_nat n) = Inr (int n)"
  by (simp add: stoll_def strto_parse_digits list_all_show_nat strtoll_show_nat)

lemma stoll_digits:
  assumes "IsNum v"
  shows "stoll v = (if v = [] then Inl invalid_argument
    else if int (num_of_digits 0 v) > INT64_MAX then Inl out_of_range else Inr (int (num_of_digits 0 v)))"
proof (cases "v = []")
  case True
  then show ?thesis by (simp add: stoll_def strto_parse_def)
next
  case False
  with assms have "strto_parse v = (False, v, [])"
    by (simp add: IsNum_def strto_parse_digits)
  with False show ?thesis by (simp add: stoll_def strtoll_def Let_def)
qed

lemma GetKeyValue_IsNum: "GetKeyValueByStr l f = Some (k, v) \<Longrightarrow> IsNum v"
  by (auto simp: GetKeyValueByStr_def Let_def split: option.splits if_splits)

lemma GetReportTimesMap_range:
  "GetReportTimesMap_loop ls kv = Inr kv' \<Longrightarrow> \<forall>v \<in> ran kv. 0 \<le> v \<and> v \<le> INT32_MAX \<Longrightarrow>
    \<forall>v \<in> ran kv'. 0 \<le> v \<and> v \<le> INT32_MAX"
proof (induction ls arbitrary: kv)
  case (Cons line ls)
  show ?case
  proof (cases "line = [] \<or> GetKeyValueByStr line (CHR '':'') = None")
    case True
    with Cons.prems(1) have "GetReportTimesMap_loop ls kv = Inr kv'" by (auto split: if_splits)
    with Cons.IH Cons.prems(2) show ?thesis by blast
  next
    case False
    then obtain k v where kv: "line \<noteq> []" "GetKeyValueByStr line (CHR '':'') = Some (k, v)" by auto
    with Cons.prems(1) obtain n where n: "stoll v = Inr n" by (cases "stoll v") auto
    then have "0 \<le> n" using stoll_digits [OF GetKeyValue_IsNum [OF kv(2)]] by (auto split: if_splits)
    let ?w = "if n < INT32_MIN then INT32_MIN else if n > INT32_MAX then INT32_MAX else n"
    have "\<forall>u \<in> ran (kv(k \<mapsto> ?w)). 0 \<le> u \<and> u \<le> INT32_MAX"
      using Cons.prems(2) \<open>0 \<le> n\<close> by (auto simp: ran_def)
    moreover have "GetReportTimesMap_loop ls (kv(k \<mapsto> ?w)) = Inr kv'" using Cons.prems(1) kv n by simp
    ultimately show ?thesis using Cons.IH by blast
  qed
qed simp

section \<open>Lemmas on process names\<close>

lemma fields_mem: "c \<in> set u \<longleftrightarrow> tl (str_fields c u) \<noteq> []"
  by (induction u) auto

lemma last_field_suffix: "\<exists>p. u = p @ last (str_fields c u)"
proof (induction u)
  case (Cons x xs)
  then obtain p where p: "xs = p @ last (str_fields c xs)" by blast
  show ?case
  proof (cases "x = c \<or> c \<in> set xs")
    case True
    then have "last (str_fields c (x # xs)) = last (str_fields c xs)"
      by (cases "str_fields c xs") (auto simp: fields_mem)
    then show ?thesis using p by (intro exI [of _ "x # p"]) simp
  next
    case False
    then show ?thesis by (intro exI [of _ "[]"]) (simp add: fields_no_sep)
  qed
qed simp

lemma drop_last_field: "drop (length u - length (last (str_fields c u))) u = last (str_fields c u)"
proof -
  obtain p where p: "u = p @ last (str_fields c u)" using last_field_suffix by blast
  then have "length u - length (last (str_fields c u)) = length p"
    by (metis add_diff_cancel_right' length_append)
  then show ?thesis using p by (metis append_eq_conv_conj)
qed

lemma length_last_field: "length (last (str_fields c u)) \<le> length u"
  using last_field_suffix [of u c] by (metis le_add2 length_append)

abbreviation until_nul :: "string \<Rightarrow> string" where
  "until_nul s \<equiv> takeWhile (\<lambda>c. c \<noteq> CHR 0x00) s"

lemma proc_name_scan_fields:
  "proc_name_scan t i start =
    (if CHR ''/'' \<in> set (until_nul t) then i + (length (until_nul t) - length (last (str_fields (CHR ''/'') (until_nul t))))
     else start, i + length (until_nul t))"
proof (induction t i start rule: proc_name_scan.induct)
  case (2 c s i start)
  let ?u = "until_nul s"
  have len: "length (last (str_fields (CHR ''/'') ?u)) \<le> length ?u" by (rule length_last_field)
  have tl_fields: "last (str_fields (CHR ''/'') (c # ?u)) = last (str_fields (CHR ''/'') ?u)"
    if "c = CHR ''/'' \<or> CHR ''/'' \<in> set ?u"
    using that by (cases "str_fields (CHR ''/'') ?u") (auto simp: fields_mem)
  show ?case
  proof (cases "c = CHR ''/''")
    case True
    with 2(1) len tl_fields show ?thesis by (simp add: fields_no_sep Suc_diff_le)
  next
    case False
    with 2(2) len tl_fields show ?thesis by (cases "c = CHR 0x00") (auto simp: Suc_diff_le)
  qed
qed simp

lemma proc_name_of_basename: "proc_name_of content = last (str_fields (CHR ''/'') (until_nul content))"
proof -
  let ?u = "until_nul content"
  let ?l = "last (str_fields (CHR ''/'') ?u)"
  have pre: "take (length ?u - k) (drop k content) = drop k ?u" if "k \<le> length ?u" for k
  proof -
    have "take (length ?u) content = ?u" by (metis append_eq_conv_conj takeWhile_dropWhile_id)
    then show ?thesis by (metis drop_take)
  qed
  show ?thesis
  proof (cases "CHR ''/'' \<in> set ?u")
    case True
    then show ?thesis
      using pre [of "length ?u - length ?l"] drop_last_field [of ?u "CHR ''/''"]
      by (simp add: proc_name_of_def proc_name_scan_fields str_substr_def)
  next
    case False
    then show ?thesis
      using pre [of 0] by (simp add: proc_name_of_def proc_name_scan_fields str_substr_def fields_no_sep)
  qed
qed

section \<open>Lemmas on tokens\<close>

lemma GetFileToList_tokens:
  "(\<forall>w \<in> set (GetFileToList s). w \<noteq> [] \<and> (\<forall>c \<in> set w. \<not> isspace c)) \<and>
    concat (GetFileToList s) = filter (\<lambda>c. \<not> isspace c) s"
proof (induction s rule: GetFileToList.induct)
  case (1 s)
  show ?case
  proof (cases "s = []")
    case True
    then show ?thesis by (simp add: GetFileToList.simps)
  next
    case False
    define s1 w r where defs: "s1 = dropWhile isspace s" "w = takeWhile (\<lambda>c. \<not> isspace c) s1"
      "r = dropWhile (\<lambda>c. \<not> isspace c) s1"
    have eq: "GetFileToList s = (if w \<noteq> [] then [w] else []) @ GetFileToList r"
      using False by (subst GetFileToList.simps) (simp add: defs Let_def)
    have "filter (\<lambda>c. \<not> isspace c) s = filter (\<lambda>c. \<not> isspace c) s1"
      unfolding defs(1) by (induction s) auto
    also have "\<dots> = filter (\<lambda>c. \<not> isspace c) (w @ r)"
      by (simp only: defs takeWhile_dropWhile_id)
    finally have "filter (\<lambda>c. \<not> isspace c) s = filter (\<lambda>c. \<not> isspace c) (w @ r)" .
    moreover have w: "\<forall>c \<in> set w. \<not> isspace c" unfolding defs by (auto dest: set_takeWhileD)
    then have "filter (\<lambda>c. \<not> isspace c) w = w" by (induction w) auto
    ultimately show ?thesis
      using 1 [OF False defs] w unfolding eq by auto
  qed
qed

lemma GetFileToList_join:
  assumes "\<forall>w \<in> set ws. w \<noteq> [] \<and> (\<forall>c \<in> set w. \<not> isspace c)" and "isspace sp"
  shows "GetFileToList (concat (map (\<lambda>w. w @ [sp]) ws)) = ws"
  using assms(1)
proof (induction ws)
  case Nil
  then show ?case by (simp add: GetFileToList.simps)
next
  case (Cons w ws)
  let ?t = "concat (map (\<lambda>w. w @ [sp]) ws)"
  have w: "w \<noteq> []" "\<forall>c \<in> set w. \<not> isspace c" using Cons.prems by auto
  have "dropWhile isspace (w @ sp # ?t) = w @ sp # ?t" using w by (cases w) auto
  moreover have "takeWhile (\<lambda>c. \<not> isspace c) (w @ sp # ?t) = w"
    using w assms(2) by (simp add: takeWhile_append2)
  moreover have "dropWhile (\<lambda>c. \<not> isspace c) (w @ sp # ?t) = sp # ?t"
    using w assms(2) by (simp add: dropWhile_append2)
  ultimately have "GetFileToList (w @ sp # ?t) = w # GetFileToList (sp # ?t)"
    using w by (subst GetFileToList.simps) (simp add: Let_def)
  moreover have "GetFileToList (sp # ?t) = ws"
  proof (cases ws)
    case Nil
    then show ?thesis using assms(2) by (simp add: GetFileToList.simps)
  next
    case (Cons v vs)
    have v: "v \<noteq> []" "\<not> isspace (hd v)" using Cons.prems Cons by auto
    then have "dropWhile isspace (sp # ?t) = dropWhile isspace ?t" using assms(2) by simp
    moreover have "?t \<noteq> []" using Cons v by simp
    ultimately have "GetFileToList (sp # ?t) = GetFileToList ?t"
      by (subst (1 2) GetFileToList.simps) (simp add: Let_def)
    then show ?thesis using Cons.IH Cons.prems by simp
  qed
  ultimately show ?case by simp
qed

lemma find_aux_append:
  "pat \<noteq> [] \<Longrightarrow> hd pat \<notin> set u \<Longrightarrow> find_aux pat (u @ pat @ v) i = Some (i + length u)"
proof (induction u arbitrary: i)
  case Nil
  then show ?case by (cases pat) auto
next
  case (Cons x u)
  then have "take (length pat) ((x # u) @ pat @ v) \<noteq> pat" by (cases pat) auto
  with Cons show ?case by simp
qed

lemma str_find_append:
  "pat \<noteq> [] \<Longrightarrow> hd pat \<notin> set u \<Longrightarrow> str_find (u @ pat @ v) pat 0 = Some (length u)"
  by (simp add: str_find_def find_aux_append)

lemma str_find_char_at:
  "c \<notin> set t \<Longrightarrow> str_find (u @ t @ c # v) [c] (length u) = Some (length u + length t)"
  by (simp add: str_find_def find_aux_char_append)

section \<open>Properties\<close>

text \<open>
  Splitting agrees with the reference: \<^verbatim>\<open>StrSplit\<close> returns the field of its index or the empty
  string, \<^verbatim>\<open>SplitStr\<close> keeping empty parts returns all fields, none of which holds the separator,
  and joining them gives the string back; without empty parts or with trimming it post-processes
  exactly those fields.
\<close>

theorem split_helpers_agree:
  "StrSplit s i = (if i < length (str_fields (CHR '':'') s) then str_fields (CHR '':'') s ! i else []) \<and>
   SplitStr s [c] canEmpty False = concat (map (emit_part canEmpty False) (str_fields c s)) \<and>
   SplitStr s [c] True False = str_fields c s \<and>
   concat (map (\<lambda>f. c # f) (SplitStr s [c] True False)) = c # s"
  using StrSplit_loop_fields [of 0 s 0 i] join_fields [of c s]
  by (simp add: StrSplit_def SplitStr_fields concat_emit_all)

text \<open>
  Tokenising a line at white space loses no other character and produces no empty token; lines
  built from tokens are read back.
\<close>

theorem tokens_roundtrip:
  assumes "\<forall>w \<in> set ws. w \<noteq> [] \<and> (\<forall>c \<in> set w. \<not> isspace c)" and "isspace sp"
  shows "GetFileToList (concat (map (\<lambda>w. w @ [sp]) ws)) = ws \<and>
    concat (GetFileToList s) = filter (\<lambda>c. \<not> isspace c) s"
  using GetFileToList_join [OF assms] GetFileToList_tokens [of s] by blast

theorem tokens_roundtrip_witness:
  "GetFileToList (concat (map (\<lambda>w. w @ [CHR '' '']) [''12:12'', ''to'', ''34:0''])) = [''12:12'', ''to'', ''34:0'']"
  using tokens_roundtrip [of "[''12:12'', ''to'', ''34:0'']" "CHR '' ''" "[]"]
  by (simp add: isspace_def)

text \<open>
  Numbers: \<^verbatim>\<open>GetNumFromString\<close> is the number written by the digits of the string, saturated at
  the largest 64-bit integer, without overflow on the way; \<^verbatim>\<open>SafeStringToInt64\<close> accepts a printed
  natural number exactly when it is at most that integer, and then returns it.
\<close>

theorem number_conversions:
  "GetNumFromString s = min INT64_MAX (int (num_of_digits 0 (filter isdigit s))) \<and>
   SafeStringToInt64 (show_nat n) = (if int n \<le> INT64_MAX then Some (int n) else None)"
proof -
  have "GetNumFromString s = min INT64_MAX (int (num_of_digits 0 (filter isdigit s)))"
    unfolding GetNumFromString_def
    by (subst GetNumFromString_loop_filter)
      (use GetNumFromString_loop_sat [of "filter isdigit s" 0] in \<open>simp add: list_all_iff\<close>)
  moreover have "strtoull (show_nat n) = (if n \<ge> 2 ^ 64 then (2 ^ 64 - 1, [], True) else (n, [], False))"
    by (simp add: strtoull_def strto_parse_digits list_all_show_nat Let_def)
  then have "SafeStringToInt64 (show_nat n) = (if int n \<le> INT64_MAX then Some (int n) else None)"
    by (auto simp: SafeStringToInt64_def)
  ultimately show ?thesis ..
qed

text \<open>
  The thread id parsed from the information of a blocked task is always \<open>-1\<close> or a valid
  \<^verbatim>\<open>pid_t\<close>, and the id printed in the expected form is found.
\<close>

theorem ParseTidFromInfo_range_roundtrip:
  assumes "CHR 0x22 \<notin> set pre" and "int n \<le> INT32_MAX" and "blanks = replicate k (CHR '' '')"
  shows "- 1 \<le> ParseTidFromInfo info \<and> ParseTidFromInfo info \<le> INT32_MAX \<and>
    ParseTidFromInfo (pre @ tidKey @ blanks @
      [CHR 0x22] @ show_nat n @ [CHR 0x22] @ post) = int n"
proof
  show "- 1 \<le> ParseTidFromInfo info"
    by (auto simp: ParseTidFromInfo_def Let_def split: option.split prod.split)
next
  have "ParseTidFromInfo info \<le> INT32_MAX"
    by (auto simp: ParseTidFromInfo_def Let_def split: option.split prod.split)
  moreover define mid where "mid = CHR 0x22 # show_nat n @ [CHR 0x22] @ post"
  define all where "all = pre @ tidKey @ blanks @ mid"
  have quote: "CHR 0x22 \<notin> set (show_nat n)" using show_nat_digits [of n] by (auto simp: isdigit_def)
  have "skip_blanks (replicate k (CHR '' '') @ mid) = Some mid" by (induction k) (auto simp: mid_def)
  then have skip: "skip_blanks (drop (length pre + length tidKey) all) = Some mid"
    by (simp add: all_def assms(3))
  have find: "str_find all tidKey 0 = Some (length pre)"
    unfolding all_def by (rule str_find_append) (use assms(1) in \<open>auto simp: tidKey_def\<close>)
  let ?st = "length all - length mid"
  have st: "?st + 1 = length (pre @ tidKey @ blanks @ [CHR 0x22])" by (simp add: all_def)
  have all2: "all = (pre @ tidKey @ blanks @ [CHR 0x22]) @ show_nat n @ CHR 0x22 # post"
    by (simp add: all_def mid_def)
  have find2: "str_find all [CHR 0x22] (?st + 1) = Some (?st + 1 + length (show_nat n))"
    unfolding st unfolding all2 by (rule str_find_char_at [OF quote])
  have sub: "str_substr all (?st + 1) (length (show_nat n)) = show_nat n"
    unfolding st unfolding all2 str_substr_def by simp
  have "strtoll (show_nat n) = (int n, [], False)" using assms(2) by (simp add: strtoll_show_nat)
  then have "ParseTidFromInfo all = int n"
    using find skip find2 sub assms(2)
    by (simp add: ParseTidFromInfo_def Let_def) (auto simp: all_def mid_def)
  ultimately show "ParseTidFromInfo info \<le> INT32_MAX \<and>
    ParseTidFromInfo (pre @ tidKey @ blanks @
      [CHR 0x22] @ show_nat n @ [CHR 0x22] @ post) = int n"
    by (simp add: all_def mid_def)
qed

theorem ParseTidFromInfo_range_roundtrip_witness:
  "ParseTidFromInfo (''{'' @ tidKey @ '' '' @
      [CHR 0x22] @ show_nat 4321 @ [CHR 0x22] @ ''}'') = 4321"
  using ParseTidFromInfo_range_roundtrip [of "''{''" 4321 "'' ''" 1 "''''" "''}''"] by simp

text \<open>
  The report-times parameter: every value of the resulting map is between zero and the largest
  32-bit integer; but an entry whose value is only blanks passes the checks and makes
  \<^verbatim>\<open>std::stoll\<close> throw, since nothing is left to convert.
\<close>

theorem report_times_map_behaviour:
  assumes "key \<noteq> []" and "CHR '':'' \<notin> set key" and "CHR '';'' \<notin> set key"
    and "blanks = replicate (Suc k) (CHR '' '')"
  shows "GetReportTimesMap (key @ '':'' @ blanks) = Inl invalid_argument \<and>
    (\<forall>kv. GetReportTimesMap param = Inr kv \<longrightarrow> (\<forall>v \<in> ran kv. 0 \<le> v \<and> v \<le> INT32_MAX))"
proof
  let ?line = "key @ '':'' @ blanks"
  have "CHR '';'' \<notin> set ?line" using assms by auto
  moreover have "cut_lines c acc s = (if acc = [] \<and> s = [] then [] else [rev acc @ s])"
    if "c \<notin> set s" for c acc s
    using that by (induction c acc s rule: cut_lines.induct) auto
  ultimately have lines: "cut_lines (CHR '';'') [] ?line = [?line]" using assms(1) by simp
  have "str_find ?line [CHR '':''] 0 = Some (length key)"
    using str_find_char_append [of "CHR '':''" key blanks] assms by simp
  moreover have "filter (\<lambda>c. \<not> isspace c) blanks = []" using assms(4) by (simp add: isspace_def)
  ultimately have "GetKeyValueByStr ?line (CHR '':'') = Some (key, [])"
    using assms(1,4) by (simp add: GetKeyValueByStr_def IsNum_def)
  moreover have "stoll [] = Inl invalid_argument" by (simp add: stoll_def strto_parse_def)
  ultimately show "GetReportTimesMap ?line = Inl invalid_argument"
    unfolding GetReportTimesMap_def lines using assms(1) by simp
next
  show "\<forall>kv. GetReportTimesMap param = Inr kv \<longrightarrow> (\<forall>v \<in> ran kv. 0 \<le> v \<and> v \<le> INT32_MAX)"
    unfolding GetReportTimesMap_def
    by (intro allI impI) (rule GetReportTimesMap_range, assumption, simp)
qed

theorem report_times_map_behaviour_witness:
  "GetReportTimesMap ''com.app: '' = Inl invalid_argument"
  using report_times_map_behaviour [of "''com.app''" "'' ''" 0 "[]"] by simp

text \<open>
  The process name taken from a command line is the last component of the program's path, up to
  the first NUL: it holds neither a slash nor a NUL, and the positions computed never cross. A
  cached name is only returned for the process it was read for.
\<close>

theorem process_name_is_basename:
  "proc_name_of content = last (str_fields (CHR ''/'') (takeWhile (\<lambda>c. c \<noteq> CHR 0x00) content)) \<and>
   CHR ''/'' \<notin> set (proc_name_of content) \<and> CHR 0x00 \<notin> set (proc_name_of content) \<and>
   fst (proc_name_scan content 0 0) \<le> snd (proc_name_scan content 0 0)"
proof -
  let ?u = "takeWhile (\<lambda>c. c \<noteq> CHR 0x00) content"
  have "last (str_fields (CHR ''/'') ?u) \<in> set (str_fields (CHR ''/'') ?u)" by simp
  then have "CHR ''/'' \<notin> set (proc_name_of content)"
    unfolding proc_name_of_basename by (rule fields_pieces)
  moreover have "CHR 0x00 \<notin> set (proc_name_of content)"
  proof -
    obtain p where "?u = p @ last (str_fields (CHR ''/'') ?u)" using last_field_suffix by blast
    then have "set (last (str_fields (CHR ''/'') ?u)) \<subseteq> set ?u" by (metis set_append sup_ge2)
    then show ?thesis unfolding proc_name_of_basename using set_takeWhileD by fastforce
  qed
  ultimately show ?thesis by (simp add: proc_name_of_basename proc_name_scan_fields)
qed

end
