(* ===== verification/Sample_Stack_Map.thy ===== *)
theory Sample_Stack_Map
  imports Prelude
begin

text \<open>
  The store of sampled stacks (\<^verbatim>\<open>sample_stack_map.h\<close>, \<^verbatim>\<open>sample_stack_map.cpp\<close>): an array of three
  entries, each with a key, a value, the tick of its last write and a valid bit. \<^verbatim>\<open>Set\<close> overwrites the
  entry of its key, else takes an invalid entry, else evicts the oldest; entries expire after two
  minutes. Every reading of the monotonic clock is an argument, one per call of
  \<^verbatim>\<open>GetCurrentTickMillseconds\<close>. The interface the watchdog relies on is the locale \<open>stack_store\<close>,
  interpreted at the end on these definitions.
\<close>

section \<open>Model\<close>

record Entry =
  e_key :: string
  e_value :: string
  e_timestamp :: u64
  e_valid :: bool

definition SAMPLE_STACK_MAP_MAX_SIZE :: nat where
  "SAMPLE_STACK_MAP_MAX_SIZE = 3"

definition SAMPLE_STACK_MAP_EXPIRE_MS :: u64 where
  "SAMPLE_STACK_MAP_EXPIRE_MS = 120000"

definition SAMPLE_STACK_MAP_VALUE_MAX_SIZE :: nat where
  "SAMPLE_STACK_MAP_VALUE_MAX_SIZE = 256 * 1024"

definition SampleStackMap_init :: "Entry list" where
  "SampleStackMap_init =
     replicate SAMPLE_STACK_MAP_MAX_SIZE \<lparr>e_key = [], e_value = [], e_timestamp = 0, e_valid = False\<rparr>"

definition ExpireOldEntries :: "u64 \<Rightarrow> Entry list \<Rightarrow> Entry list" where
  "ExpireOldEntries now es =
     map (\<lambda>e. if e_valid e \<and> now - e_timestamp e > SAMPLE_STACK_MAP_EXPIRE_MS
              then e\<lparr>e_valid := False\<rparr> else e) es"

text \<open>
  The loop of \<^verbatim>\<open>Set\<close>: it stops at the entry of the key, or runs to the end with the index of the
  oldest valid entry and of the last invalid one.
\<close>

datatype scan = ScanHit nat | ScanEnd nat nat

fun Set_scan :: "string \<Rightarrow> Entry list \<Rightarrow> nat \<Rightarrow> nat \<Rightarrow> u64 \<Rightarrow> nat \<Rightarrow> scan" where
  "Set_scan k [] i oldestIdx oldestTime emptyIdx = ScanEnd oldestIdx emptyIdx"
| "Set_scan k (e # es) i oldestIdx oldestTime emptyIdx =
     (if e_valid e \<and> e_key e = k then ScanHit i
      else if \<not> e_valid e then Set_scan k es (Suc i) oldestIdx oldestTime i
      else if e_timestamp e < oldestTime then Set_scan k es (Suc i) i (e_timestamp e) emptyIdx
      else Set_scan k es (Suc i) oldestIdx oldestTime emptyIdx)"

definition SampleStackMap_Set :: "string \<Rightarrow> string \<Rightarrow> u64 \<Rightarrow> u64 \<Rightarrow> Entry list \<Rightarrow> Entry list" where
  "SampleStackMap_Set k v now now' es =
     (if length v > SAMPLE_STACK_MAP_VALUE_MAX_SIZE then es
      else let es1 = ExpireOldEntries now es in
        case Set_scan k es1 0 0 (- 1) SAMPLE_STACK_MAP_MAX_SIZE of
          ScanHit i \<Rightarrow> es1[i := (es1 ! i)\<lparr>e_value := v, e_timestamp := now'\<rparr>]
        | ScanEnd oldestIdx emptyIdx \<Rightarrow>
            let idx = (if emptyIdx < SAMPLE_STACK_MAP_MAX_SIZE then emptyIdx else oldestIdx) in
            es1[idx := \<lparr>e_key = k, e_value = v, e_timestamp = now', e_valid = True\<rparr>])"

fun Get_scan :: "string \<Rightarrow> Entry list \<Rightarrow> nat \<Rightarrow> nat option" where
  "Get_scan k [] i = None"
| "Get_scan k (e # es) i = (if e_valid e \<and> e_key e = k then Some i else Get_scan k es (Suc i))"

text \<open>The value of a removed entry is moved out; the string left behind is empty and never read.\<close>

definition SampleStackMap_GetAndRemove :: "string \<Rightarrow> u64 \<Rightarrow> Entry list \<Rightarrow> string \<times> Entry list" where
  "SampleStackMap_GetAndRemove k now es =
     (let es1 = ExpireOldEntries now es in
      case Get_scan k es1 0 of
        None \<Rightarrow> ([], es1)
      | Some i \<Rightarrow> (e_value (es1 ! i), es1[i := (es1 ! i)\<lparr>e_valid := False, e_value := []\<rparr>]))"

section \<open>Invariant and abstract view\<close>

definition e_live :: "u64 \<Rightarrow> Entry \<Rightarrow> bool" where
  "e_live now e \<longleftrightarrow> e_valid e \<and> now - e_timestamp e \<le> SAMPLE_STACK_MAP_EXPIRE_MS"

definition uniq_keys :: "Entry list \<Rightarrow> bool" where
  "uniq_keys es \<longleftrightarrow> (\<forall>i < length es. \<forall>j < length es.
     e_valid (es ! i) \<and> e_valid (es ! j) \<and> e_key (es ! i) = e_key (es ! j) \<longrightarrow> i = j)"

definition ssm_inv :: "Entry list \<Rightarrow> bool" where
  "ssm_inv es \<longleftrightarrow> length es = SAMPLE_STACK_MAP_MAX_SIZE \<and> uniq_keys es \<and>
     (\<forall>e \<in> set es. length (e_value e) \<le> SAMPLE_STACK_MAP_VALUE_MAX_SIZE)"

text \<open>The finite map a client sees at a tick: the values of the entries that are valid and not expired.\<close>

definition ssm_view :: "u64 \<Rightarrow> Entry list \<Rightarrow> string \<Rightarrow> string option" where
  "ssm_view now es k = map_option e_value (find (\<lambda>e. e_live now e \<and> e_key e = k) es)"

lemmas ssm_consts = SAMPLE_STACK_MAP_MAX_SIZE_def SAMPLE_STACK_MAP_EXPIRE_MS_def
  SAMPLE_STACK_MAP_VALUE_MAX_SIZE_def

section \<open>Lemmas\<close>

lemma ssm_inv_init: "ssm_inv SampleStackMap_init"
  by (simp add: ssm_inv_def SampleStackMap_init_def uniq_keys_def)

lemma length_Expire [simp]: "length (ExpireOldEntries now es) = length es"
  by (simp add: ExpireOldEntries_def)

lemma nth_Expire:
  "i < length es \<Longrightarrow> ExpireOldEntries now es ! i = (es ! i)\<lparr>e_valid := e_live now (es ! i)\<rparr>"
  by (auto simp: ExpireOldEntries_def e_live_def not_less)

lemma ssm_inv_Expire: "ssm_inv es \<Longrightarrow> ssm_inv (ExpireOldEntries now es)"
  by (auto simp: ssm_inv_def uniq_keys_def nth_Expire e_live_def) (auto simp: ExpireOldEntries_def)

lemma view_iff:
  assumes "uniq_keys es"
  shows "ssm_view now es k = Some v \<longleftrightarrow>
    (\<exists>i < length es. e_live now (es ! i) \<and> e_key (es ! i) = k \<and> e_value (es ! i) = v)"
proof
  assume "ssm_view now es k = Some v"
  then show "\<exists>i < length es. e_live now (es ! i) \<and> e_key (es ! i) = k \<and> e_value (es ! i) = v"
    by (auto simp: ssm_view_def find_Some_iff)
next
  assume "\<exists>i < length es. e_live now (es ! i) \<and> e_key (es ! i) = k \<and> e_value (es ! i) = v"
  then obtain i where i: "i < length es" "e_live now (es ! i)" "e_key (es ! i) = k" "e_value (es ! i) = v"
    by blast
  have "\<not> (e_live now (es ! j) \<and> e_key (es ! j) = k)" if "j < i" for j
    using i that assms [unfolded uniq_keys_def, rule_format, of i j] by (auto simp: e_live_def)
  with i have "find (\<lambda>e. e_live now e \<and> e_key e = k) es = Some (es ! i)"
    unfolding find_Some_iff by blast
  with i show "ssm_view now es k = Some v" by (simp add: ssm_view_def)
qed

lemma view_None_iff:
  "ssm_view now es k = None \<longleftrightarrow> (\<forall>i < length es. e_live now (es ! i) \<longrightarrow> e_key (es ! i) \<noteq> k)"
  by (auto simp: ssm_view_def find_None_iff in_set_conv_nth)

lemma live_Expire [simp]: "e_live now (e\<lparr>e_valid := e_live now e\<rparr>) \<longleftrightarrow> e_live now e"
  by (auto simp: e_live_def)

lemma view_Expire: "ssm_inv es \<Longrightarrow> ssm_view now (ExpireOldEntries now es) = ssm_view now es"
proof (rule ext)
  fix k assume inv: "ssm_inv es"
  have "ssm_view now (ExpireOldEntries now es) k = Some v \<longleftrightarrow> ssm_view now es k = Some v" for v
    using inv ssm_inv_Expire [OF inv, of now] by (simp add: ssm_inv_def view_iff nth_Expire cong: conj_cong)
  then show "ssm_view now (ExpireOldEntries now es) k = ssm_view now es k"
    by (metis option.exhaust)
qed

lemma valid_Expire_live:
  "i < length es \<Longrightarrow> e_valid (ExpireOldEntries now es ! i) \<longleftrightarrow> e_live now (ExpireOldEntries now es ! i)"
  by (auto simp: nth_Expire e_live_def)

lemma Get_scan_Some:
  "Get_scan k es i = Some j \<Longrightarrow>
    i \<le> j \<and> j - i < length es \<and> e_valid (es ! (j - i)) \<and> e_key (es ! (j - i)) = k"
  by (induction es arbitrary: i) (fastforce simp: nth_Cons' split: if_splits)+

lemma Get_scan_None: "Get_scan k es i = None \<longleftrightarrow> (\<forall>e \<in> set es. e_valid e \<longrightarrow> e_key e \<noteq> k)"
  by (induction es arbitrary: i) auto

lemma Set_scan_Hit:
  "Set_scan k es i oi ot ei = ScanHit j \<Longrightarrow>
    i \<le> j \<and> j - i < length es \<and> e_valid (es ! (j - i)) \<and> e_key (es ! (j - i)) = k"
  by (induction es arbitrary: i oi ot ei) (fastforce simp: nth_Cons' split: if_splits)+

lemma Set_scan_End_miss:
  "Set_scan k es i oi ot ei = ScanEnd oo ee \<Longrightarrow> \<forall>e \<in> set es. e_valid e \<longrightarrow> e_key e \<noteq> k"
  by (induction es arbitrary: i oi ot ei) (auto split: if_splits)

lemma Set_scan_End_empty:
  "Set_scan k es i oi ot ei = ScanEnd oo ee \<Longrightarrow>
    ee = ei \<and> (\<forall>e \<in> set es. e_valid e) \<or> i \<le> ee \<and> ee - i < length es \<and> \<not> e_valid (es ! (ee - i))"
  by (induction es arbitrary: i oi ot ei) (fastforce simp: nth_Cons' split: if_splits)+

lemma Set_scan_End_oldest:
  "Set_scan k es i oi ot ei = ScanEnd oo ee \<Longrightarrow> \<forall>e \<in> set es. e_valid e \<Longrightarrow>
    oo = oi \<and> (\<forall>e \<in> set es. ot \<le> e_timestamp e) \<or>
    i \<le> oo \<and> oo - i < length es \<and> e_timestamp (es ! (oo - i)) < ot \<and>
      (\<forall>e \<in> set es. e_timestamp (es ! (oo - i)) \<le> e_timestamp e)"
proof (induction es arbitrary: i oi ot ei)
  case (Cons e es)
  then have ve: "e_valid e" "e_key e \<noteq> k" "\<forall>e \<in> set es. e_valid e"
    by (auto split: if_splits)
  show ?case
  proof (cases "e_timestamp e < ot")
    case True
    with Cons.prems ve have "Set_scan k es (Suc i) i (e_timestamp e) ei = ScanEnd oo ee" by simp
    from Cons.IH [OF this ve(3)] True show ?thesis
      by (fastforce simp: nth_Cons')
  next
    case False
    with Cons.prems ve have "Set_scan k es (Suc i) oi ot ei = ScanEnd oo ee" by simp
    from Cons.IH [OF this ve(3)] False show ?thesis
      by (fastforce simp: nth_Cons' not_less)
  qed
qed simp

section \<open>What each operation writes\<close>

lemma ssm_inv_update:
  assumes "ssm_inv es" and "i < length es" and "length (e_value e) \<le> SAMPLE_STACK_MAP_VALUE_MAX_SIZE"
    and "\<And>j. e_valid e \<Longrightarrow> j < length es \<Longrightarrow> j \<noteq> i \<Longrightarrow> e_valid (es ! j) \<Longrightarrow> e_key (es ! j) \<noteq> e_key e"
  shows "ssm_inv (es[i := e])"
proof -
  have "uniq_keys (es[i := e])"
    unfolding uniq_keys_def
  proof (intro allI impI)
    fix m n
    assume "m < length (es[i := e])" "n < length (es[i := e])"
      "e_valid (es[i := e] ! m) \<and> e_valid (es[i := e] ! n) \<and> e_key (es[i := e] ! m) = e_key (es[i := e] ! n)"
    then show "m = n"
      using assms by (cases "m = i"; cases "n = i") (auto simp: ssm_inv_def uniq_keys_def)
  qed
  moreover have "\<forall>x \<in> set (es[i := e]). length (e_value x) \<le> SAMPLE_STACK_MAP_VALUE_MAX_SIZE"
    using assms(1,3) set_update_subset_insert [of es i e] by (auto simp: ssm_inv_def)
  ultimately show ?thesis using assms(1) by (simp add: ssm_inv_def)
qed

lemma view_update:
  assumes "ssm_inv (es[i := e])" and "i < length es"
  shows "ssm_view now (es[i := e]) k = Some v \<longleftrightarrow>
    e_live now e \<and> e_key e = k \<and> e_value e = v \<or>
    (\<exists>j < length es. j \<noteq> i \<and> e_live now (es ! j) \<and> e_key (es ! j) = k \<and> e_value (es ! j) = v)"
  using assms by (auto simp: ssm_inv_def view_iff nth_list_update)

text \<open>
  \<^verbatim>\<open>Set\<close> writes one entry, after the expiry: the entry of the key, or else an invalid entry, or
  else, when all entries are valid, one with the least timestamp.
\<close>

definition fresh_entry :: "string \<Rightarrow> string \<Rightarrow> u64 \<Rightarrow> Entry" where
  "fresh_entry k v t = \<lparr>e_key = k, e_value = v, e_timestamp = t, e_valid = True\<rparr>"

lemma fresh_entry_sel [simp]:
  "e_key (fresh_entry k v t) = k" "e_value (fresh_entry k v t) = v"
  "e_timestamp (fresh_entry k v t) = t" "e_valid (fresh_entry k v t)"
  by (simp_all add: fresh_entry_def)

definition set_slot :: "string \<Rightarrow> Entry list \<Rightarrow> nat \<Rightarrow> bool" where
  "set_slot k es i \<longleftrightarrow> i < length es \<and>
     (\<forall>j < length es. j \<noteq> i \<longrightarrow> e_valid (es ! j) \<longrightarrow> e_key (es ! j) \<noteq> k) \<and>
     (e_valid (es ! i) \<and> e_key (es ! i) = k \<or> \<not> e_valid (es ! i) \<or>
      (\<forall>j < length es. e_valid (es ! j) \<and> e_key (es ! j) \<noteq> k \<and> e_timestamp (es ! i) \<le> e_timestamp (es ! j)))"

lemma set_slot_hit:
  "uniq_keys es \<Longrightarrow> i < length es \<Longrightarrow> e_valid (es ! i) \<Longrightarrow> e_key (es ! i) = k \<Longrightarrow> set_slot k es i"
  by (auto simp: set_slot_def uniq_keys_def)

lemma set_slot_end:
  assumes scan: "Set_scan k es 0 0 (- 1) (length es) = ScanEnd oo ee" and "es \<noteq> []"
  shows "set_slot k es (if ee < length es then ee else oo)"
proof -
  have miss: "\<forall>j < length es. e_valid (es ! j) \<longrightarrow> e_key (es ! j) \<noteq> k"
    using Set_scan_End_miss [OF scan] by simp
  show ?thesis
  proof (cases "\<forall>e \<in> set es. e_valid e")
    case True
    then have "ee = length es" using Set_scan_End_empty [OF scan] by auto
    moreover have "oo < length es \<and> (\<forall>e \<in> set es. e_timestamp (es ! oo) \<le> e_timestamp e)"
      using Set_scan_End_oldest [OF scan True] \<open>es \<noteq> []\<close>
      by (auto intro: order_trans [OF word_order.extremum])
    ultimately show ?thesis using True miss by (auto simp: set_slot_def)
  next
    case False
    then have "ee < length es \<and> \<not> e_valid (es ! ee)" using Set_scan_End_empty [OF scan] by auto
    with miss show ?thesis by (auto simp: set_slot_def)
  qed
qed

lemma Set_writes:
  assumes inv: "ssm_inv es" and small: "length v \<le> SAMPLE_STACK_MAP_VALUE_MAX_SIZE"
  shows "\<exists>i. set_slot k (ExpireOldEntries now es) i \<and>
    SampleStackMap_Set k v now now' es = (ExpireOldEntries now es)[i := fresh_entry k v now']"
proof -
  define es1 where "es1 = ExpireOldEntries now es"
  have len: "length es1 = SAMPLE_STACK_MAP_MAX_SIZE" and uniq: "uniq_keys es1"
    using ssm_inv_Expire [OF inv, of now] by (simp_all add: ssm_inv_def es1_def)
  show ?thesis
  proof (cases "Set_scan k es1 0 0 (- 1) SAMPLE_STACK_MAP_MAX_SIZE")
    case (ScanHit i)
    from Set_scan_Hit [OF this] have i: "i < length es1" "e_valid (es1 ! i)" "e_key (es1 ! i) = k" by auto
    then have "(es1 ! i)\<lparr>e_value := v, e_timestamp := now'\<rparr> = fresh_entry k v now'"
      by (cases "es1 ! i") (simp add: fresh_entry_def)
    then have "SampleStackMap_Set k v now now' es = es1[i := fresh_entry k v now']"
      using ScanHit small by (simp add: SampleStackMap_Set_def es1_def [symmetric])
    with set_slot_hit [OF uniq i] show ?thesis by (auto simp: es1_def)
  next
    case (ScanEnd oo ee)
    have "es1 \<noteq> []" using len by (auto simp: SAMPLE_STACK_MAP_MAX_SIZE_def)
    then have "set_slot k es1 (if ee < SAMPLE_STACK_MAP_MAX_SIZE then ee else oo)"
      using set_slot_end [of k es1 oo ee] ScanEnd unfolding len by simp
    moreover have "SampleStackMap_Set k v now now' es =
        es1[(if ee < SAMPLE_STACK_MAP_MAX_SIZE then ee else oo) := fresh_entry k v now']"
      using ScanEnd small by (simp add: SampleStackMap_Set_def es1_def [symmetric] fresh_entry_def)
    ultimately show ?thesis unfolding es1_def by blast
  qed
qed

lemma Get_cases:
  fixes now :: u64
  assumes inv: "ssm_inv es"
  defines "es1 \<equiv> ExpireOldEntries now es"
  obtains (hit) i where "i < length es" and "e_valid (es1 ! i)" and "e_key (es1 ! i) = k"
      and "SampleStackMap_GetAndRemove k now es =
             (e_value (es1 ! i), es1[i := (es1 ! i)\<lparr>e_valid := False, e_value := []\<rparr>])"
  | (miss) "SampleStackMap_GetAndRemove k now es = ([], es1)"
      and "\<And>j. j < length es \<Longrightarrow> e_valid (es1 ! j) \<Longrightarrow> e_key (es1 ! j) \<noteq> k"
proof (cases "Get_scan k es1 0")
  case None
  moreover have "e_key (es1 ! j) \<noteq> k" if "j < length es" "e_valid (es1 ! j)" for j
    using None that by (auto simp: Get_scan_None all_set_conv_all_nth es1_def)
  ultimately show ?thesis
    using miss by (simp add: SampleStackMap_GetAndRemove_def es1_def [symmetric])
next
  case (Some i)
  from Get_scan_Some [OF this] show ?thesis
    using hit [of i] Some by (auto simp: SampleStackMap_GetAndRemove_def es1_def [symmetric] Let_def)
      (simp add: es1_def)
qed

lemma ssm_inv_write:
  assumes "ssm_inv es" and "set_slot k (ExpireOldEntries now es) i"
    and "length v \<le> SAMPLE_STACK_MAP_VALUE_MAX_SIZE"
  shows "ssm_inv ((ExpireOldEntries now es)[i := fresh_entry k v t])"
  using assms by (intro ssm_inv_update ssm_inv_Expire) (auto simp: set_slot_def)

lemma ssm_inv_Set: "ssm_inv es \<Longrightarrow> ssm_inv (SampleStackMap_Set k v now now' es)"
proof (cases "length v \<le> SAMPLE_STACK_MAP_VALUE_MAX_SIZE")
  case True
  assume inv: "ssm_inv es"
  from Set_writes [OF inv True] obtain i where "set_slot k (ExpireOldEntries now es) i \<and>
    SampleStackMap_Set k v now now' es = (ExpireOldEntries now es)[i := fresh_entry k v now']" ..
  then show ?thesis using ssm_inv_write [OF inv _ True] by auto
qed (simp add: SampleStackMap_Set_def)

lemma ssm_inv_Get: "ssm_inv es \<Longrightarrow> ssm_inv (snd (SampleStackMap_GetAndRemove k now es))"
proof -
  assume inv: "ssm_inv es"
  show ?thesis
  proof (cases rule: Get_cases [OF inv, where now = now and k = k])
    case (1 i)
    then show ?thesis by (auto intro!: ssm_inv_update ssm_inv_Expire inv)
  next
    case 2
    then show ?thesis by (simp add: ssm_inv_Expire inv)
  qed
qed

section \<open>Laws of the store in terms of its view\<close>

lemma GetAndRemove_value:
  assumes inv: "ssm_inv es"
  shows "fst (SampleStackMap_GetAndRemove k now es) =
    (case ssm_view now es k of None \<Rightarrow> [] | Some v \<Rightarrow> v)"
proof -
  let ?es1 = "ExpireOldEntries now es"
  have inv1: "ssm_inv ?es1" "uniq_keys ?es1" using ssm_inv_Expire [OF inv] by (auto simp: ssm_inv_def)
  show ?thesis
  proof (cases rule: Get_cases [OF inv, where now = now and k = k])
    case (1 i)
    then have "ssm_view now ?es1 k = Some (e_value (?es1 ! i))"
      using inv1 valid_Expire_live [of i es now] by (auto simp: view_iff)
    with 1 show ?thesis by (simp add: view_Expire [OF inv])
  next
    case 2
    then have "ssm_view now ?es1 k = None"
      by (auto simp: view_None_iff e_live_def)
    with 2 show ?thesis by (simp add: view_Expire [OF inv])
  qed
qed

lemma GetAndRemove_view:
  assumes inv: "ssm_inv es"
  shows "ssm_view now (snd (SampleStackMap_GetAndRemove k now es)) = (ssm_view now es)(k := None)"
proof (rule ext)
  fix x
  let ?es1 = "ExpireOldEntries now es"
  let ?r = "snd (SampleStackMap_GetAndRemove k now es)"
  have inv1: "ssm_inv ?es1" "uniq_keys ?es1" using ssm_inv_Expire [OF inv] by (auto simp: ssm_inv_def)
  have "ssm_view now ?r x = Some w \<longleftrightarrow> x \<noteq> k \<and> ssm_view now ?es1 x = Some w" for w
  proof (cases rule: Get_cases [OF inv, where now = now and k = k])
    case (1 i)
    have "ssm_inv (?es1[i := (?es1 ! i)\<lparr>e_valid := False, e_value := []\<rparr>])"
      using ssm_inv_Get [OF inv, of k now] 1 by simp
    moreover have "\<not> e_live now ((?es1 ! i)\<lparr>e_valid := False, e_value := []\<rparr>)" by (simp add: e_live_def)
    moreover have "j = i" if "j < length es" "e_live now (?es1 ! j)" "e_key (?es1 ! j) = k" for j
      using that 1 inv1(2) [unfolded uniq_keys_def, rule_format, of j i] by (auto simp: e_live_def)
    ultimately show ?thesis
      using 1 inv1 by (auto simp: view_update view_iff)
  next
    case 2
    then show ?thesis using inv1 by (auto simp: view_iff e_live_def)
  qed
  then show "ssm_view now ?r x = ((ssm_view now es)(k := None)) x"
    unfolding view_Expire [OF inv] by (cases "ssm_view now es x"; cases "ssm_view now ?r x") auto
qed

lemma view_write:
  assumes "ssm_inv es" and "set_slot k (ExpireOldEntries now es) i"
    and "length v \<le> SAMPLE_STACK_MAP_VALUE_MAX_SIZE"
  shows "ssm_view u ((ExpireOldEntries now es)[i := fresh_entry k v t]) x = Some w \<longleftrightarrow>
    u - t \<le> SAMPLE_STACK_MAP_EXPIRE_MS \<and> x = k \<and> w = v \<or>
    (\<exists>j < length es. j \<noteq> i \<and> e_live u (ExpireOldEntries now es ! j) \<and> e_key (es ! j) = x \<and> e_value (es ! j) = w)"
proof -
  have i: "i < length (ExpireOldEntries now es)" using assms(2) by (simp add: set_slot_def)
  show ?thesis
    unfolding view_update [OF ssm_inv_write [OF assms] i]
    by (auto simp: e_live_def [of u "fresh_entry k v t"] nth_Expire)
qed

lemma Set_view_self:
  assumes inv: "ssm_inv es" and small: "length v \<le> SAMPLE_STACK_MAP_VALUE_MAX_SIZE"
    and fresh: "t - now' \<le> SAMPLE_STACK_MAP_EXPIRE_MS"
  shows "ssm_view t (SampleStackMap_Set k v now now' es) k = Some v"
proof -
  from Set_writes [OF inv small] obtain i where i: "set_slot k (ExpireOldEntries now es) i \<and>
    SampleStackMap_Set k v now now' es = (ExpireOldEntries now es)[i := fresh_entry k v now']" ..
  then show ?thesis using fresh by (simp add: view_write [OF inv _ small])
qed

lemma Set_view_expired:
  assumes inv: "ssm_inv es" and small: "length v \<le> SAMPLE_STACK_MAP_VALUE_MAX_SIZE"
    and old: "SAMPLE_STACK_MAP_EXPIRE_MS < t - now'"
  shows "ssm_view t (SampleStackMap_Set k v now now' es) k = None"
proof -
  from Set_writes [OF inv small] obtain i where i: "set_slot k (ExpireOldEntries now es) i"
    "SampleStackMap_Set k v now now' es = (ExpireOldEntries now es)[i := fresh_entry k v now']" by blast
  have no: "e_key (es ! j) \<noteq> k" if "j < length es" "j \<noteq> i" "e_live t (ExpireOldEntries now es ! j)" for j
    using i(1) that by (auto simp: set_slot_def nth_Expire e_live_def)
  have "ssm_view t (SampleStackMap_Set k v now now' es) k \<noteq> Some w" for w
    unfolding i(2) view_write [OF inv i(1) small] using old no by auto
  then show ?thesis by (cases "ssm_view t (SampleStackMap_Set k v now now' es) k") auto
qed

lemma Set_view_other:
  assumes inv: "ssm_inv es" and "x \<noteq> k"
    and vw: "ssm_view now (SampleStackMap_Set k v now now' es) x = Some w"
  shows "ssm_view now es x = Some w"
proof (cases "length v \<le> SAMPLE_STACK_MAP_VALUE_MAX_SIZE")
  case True
  from Set_writes [OF inv True] obtain i where i: "set_slot k (ExpireOldEntries now es) i \<and>
    SampleStackMap_Set k v now now' es = (ExpireOldEntries now es)[i := fresh_entry k v now']" ..
  with vw \<open>x \<noteq> k\<close> obtain j where "j < length es" "e_live now (ExpireOldEntries now es ! j)"
    "e_key (es ! j) = x" "e_value (es ! j) = w"
    by (auto simp: view_write [OF inv _ True])
  then show ?thesis using inv by (auto simp: ssm_inv_def view_iff nth_Expire)
next
  case False
  with assms show ?thesis by (simp add: SampleStackMap_Set_def)
qed

lemma Set_big: "\<not> length v \<le> SAMPLE_STACK_MAP_VALUE_MAX_SIZE \<Longrightarrow> SampleStackMap_Set k v now now' es = es"
  by (simp add: SampleStackMap_Set_def)

text \<open>
  A key that disappears on \<^verbatim>\<open>Set\<close> of another key was evicted: the new key was absent, all three
  entries were live, and the evicted entry was one of the oldest.
\<close>

definition evicted_ok :: "u64 \<Rightarrow> string \<Rightarrow> string \<Rightarrow> Entry list \<Rightarrow> bool" where
  "evicted_ok now k x es \<longleftrightarrow> ssm_view now es k = None \<and>
     (\<forall>e \<in> set es. e_live now e) \<and>
     (\<exists>e \<in> set es. e_key e = x \<and> (\<forall>e' \<in> set es. e_timestamp e \<le> e_timestamp e'))"

lemma set_slot_evicts:
  assumes slot: "set_slot k (ExpireOldEntries now es) i" and x: "e_live now (es ! i)" "e_key (es ! i) \<noteq> k"
  shows "evicted_ok now k (e_key (es ! i)) es"
proof -
  have i: "i < length es" using slot by (simp add: set_slot_def)
  have all: "e_live now (es ! j) \<and> e_key (es ! j) \<noteq> k \<and> e_timestamp (es ! i) \<le> e_timestamp (es ! j)"
    if "j < length es" for j
    using slot x i that by (auto simp: set_slot_def nth_Expire)
  then have "ssm_view now es k = None" by (simp add: view_None_iff)
  moreover have "\<forall>e \<in> set es. e_live now e \<and> e_timestamp (es ! i) \<le> e_timestamp e"
    using all by (auto simp: in_set_conv_nth)
  ultimately show ?thesis
    unfolding evicted_ok_def using nth_mem [OF i] by blast
qed

lemma Set_keeps_other:
  assumes inv: "ssm_inv es" and "x \<noteq> k" and x: "ssm_view now es x = Some w"
  shows "ssm_view now (SampleStackMap_Set k v now now' es) x = Some w \<or> evicted_ok now k x es"
proof (cases "length v \<le> SAMPLE_STACK_MAP_VALUE_MAX_SIZE")
  case True
  from Set_writes [OF inv True] obtain i where i: "set_slot k (ExpireOldEntries now es) i \<and>
    SampleStackMap_Set k v now now' es = (ExpireOldEntries now es)[i := fresh_entry k v now']" ..
  from x obtain j where j: "j < length es" "e_live now (es ! j)" "e_key (es ! j) = x" "e_value (es ! j) = w"
    using inv by (auto simp: ssm_inv_def view_iff)
  show ?thesis
  proof (cases "j = i")
    case False
    have "ssm_view now ((ExpireOldEntries now es)[i := fresh_entry k v now']) x = Some w"
      unfolding view_write [OF inv conjunct1 [OF i] True]
      using j False by (intro disjI2 exI [of _ j]) (simp add: nth_Expire e_live_def)
    with i show ?thesis by simp
  next
    case True
    with i j \<open>x \<noteq> k\<close> set_slot_evicts [of k now es i] show ?thesis by auto
  qed
next
  case False
  with x show ?thesis by (simp add: SampleStackMap_Set_def)
qed

section \<open>The interface of the watchdog's sampling tasks\<close>

text \<open>
  What the sampling closures rely on: \<^verbatim>\<open>GetAndRemove\<close> returns and deletes the visible value, \<^verbatim>\<open>Set\<close>
  of a e_value that fits makes it visible until it expires and invents nothing else, \<^verbatim>\<open>Set\<close> of a
  e_value that does not fit changes nothing.
\<close>

locale stack_store =
  fixes store_set :: "string \<Rightarrow> string \<Rightarrow> u64 \<Rightarrow> u64 \<Rightarrow> 's \<Rightarrow> 's"
    and store_get :: "string \<Rightarrow> u64 \<Rightarrow> 's \<Rightarrow> string \<times> 's"
    and store_view :: "u64 \<Rightarrow> 's \<Rightarrow> string \<Rightarrow> string option"
    and store_inv :: "'s \<Rightarrow> bool"
    and fits :: "string \<Rightarrow> bool"
    and fresh :: "u64 \<Rightarrow> u64 \<Rightarrow> bool"
  assumes inv_set: "store_inv s \<Longrightarrow> store_inv (store_set k v t t' s)"
    and inv_get: "store_inv s \<Longrightarrow> store_inv (snd (store_get k t s))"
    and get_value: "store_inv s \<Longrightarrow>
      fst (store_get k t s) = (case store_view t s k of None \<Rightarrow> [] | Some v \<Rightarrow> v)"
    and get_view: "store_inv s \<Longrightarrow> store_view t (snd (store_get k t s)) = (store_view t s)(k := None)"
    and set_self: "store_inv s \<Longrightarrow> fits v \<Longrightarrow> fresh u t' \<Longrightarrow> store_view u (store_set k v t t' s) k = Some v"
    and set_other: "store_inv s \<Longrightarrow> x \<noteq> k \<Longrightarrow> store_view t (store_set k v t t' s) x = Some w \<Longrightarrow>
      store_view t s x = Some w"
    and set_big: "\<not> fits v \<Longrightarrow> store_set k v t t' s = s"
begin

lemma set_get:
  assumes "store_inv s" and "fits v" and "fresh u t'"
  shows "fst (store_get k u (store_set k v t t' s)) = v"
    and "fst (store_get k u (snd (store_get k u (store_set k v t t' s)))) = []"
proof -
  have inv: "store_inv (store_set k v t t' s)" by (rule inv_set [OF assms(1)])
  then show "fst (store_get k u (store_set k v t t' s)) = v"
    by (simp add: get_value set_self assms)
  show "fst (store_get k u (snd (store_get k u (store_set k v t t' s)))) = []"
    by (simp add: get_value get_view inv inv_get)
qed

text \<open>
  Reading, extending and writing back, as the sampling closures do. When the extended value does not
  fit, the old one has already been removed: everything stored under the key is lost.
\<close>

lemma extend_fits:
  assumes "store_inv s" and "store_view t s k = Some old" and "fits (old @ new)" and "fresh u t''"
  shows "store_view u (store_set k (fst (store_get k t s) @ new) t' t'' (snd (store_get k t s))) k = Some (old @ new)"
  using assms by (simp add: get_value set_self inv_get)

lemma extend_overflow:
  assumes "store_inv s" and "store_view t s k = Some old" and "\<not> fits (old @ new)"
  shows "store_view t (store_set k (fst (store_get k t s) @ new) t' t'' (snd (store_get k t s))) k = None"
  using assms by (simp add: get_value set_big get_view)

end

interpretation ssm: stack_store SampleStackMap_Set SampleStackMap_GetAndRemove ssm_view ssm_inv
  "\<lambda>v. length v \<le> SAMPLE_STACK_MAP_VALUE_MAX_SIZE" "\<lambda>t t'. t - t' \<le> SAMPLE_STACK_MAP_EXPIRE_MS"
  by unfold_locales
    (auto simp: ssm_inv_Set ssm_inv_Get GetAndRemove_value GetAndRemove_view Set_view_self
      Set_big dest: Set_view_other)

section \<open>Operation sequences\<close>

datatype ssm_op = OpSet string string u64 u64 | OpGet string u64

fun ssm_run :: "Entry list \<Rightarrow> ssm_op list \<Rightarrow> Entry list" where
  "ssm_run es [] = es"
| "ssm_run es (OpSet k v t t' # ops) = ssm_run (SampleStackMap_Set k v t t' es) ops"
| "ssm_run es (OpGet k t # ops) = ssm_run (snd (SampleStackMap_GetAndRemove k t es)) ops"

lemmas ssm_eval = SampleStackMap_init_def SampleStackMap_Set_def ExpireOldEntries_def Let_def
  ssm_consts ssm_view_def e_live_def numeral_3_eq_3

lemma ssm_run_inv: "ssm_inv es \<Longrightarrow> ssm_inv (ssm_run es ops)"
  by (induction es ops rule: ssm_run.induct) (auto intro: ssm_inv_Set ssm_inv_Get)

section \<open>Properties\<close>

text \<open>
  Whatever sequence of calls is made on a new map, with whatever clock readings: it keeps
  exactly three entries, no two valid entries have the same key, and no stored value is larger than
  256 KiB.
\<close>

theorem sample_stack_map_invariant:
  "ssm_inv (ssm_run SampleStackMap_init ops)"
  by (rule ssm_run_inv [OF ssm_inv_init])

text \<open>
  Round trip: after any history, a value that fits is returned by the next \<^verbatim>\<open>GetAndRemove\<close> of
  its key within two minutes of the write, and a second \<^verbatim>\<open>GetAndRemove\<close> returns the empty string.
\<close>

theorem sample_stack_map_roundtrip:
  assumes "es = SampleStackMap_Set k v t t' (ssm_run SampleStackMap_init ops)"
    and "length v \<le> SAMPLE_STACK_MAP_VALUE_MAX_SIZE" and "u - t' \<le> SAMPLE_STACK_MAP_EXPIRE_MS"
  shows "fst (SampleStackMap_GetAndRemove k u es) = v \<and>
    fst (SampleStackMap_GetAndRemove k u (snd (SampleStackMap_GetAndRemove k u es))) = []"
  unfolding assms(1) using ssm.set_get [OF ssm_run_inv [OF ssm_inv_init] assms(2,3)] by blast

theorem sample_stack_map_roundtrip_witness:
  "fst (SampleStackMap_GetAndRemove ''k'' 120010 (SampleStackMap_Set ''k'' ''stack'' 9 10
     (ssm_run SampleStackMap_init [OpSet ''a'' ''b'' 1 1]))) = ''stack''"
  using sample_stack_map_roundtrip [OF refl, of "''stack''" 120010 10 "''k''" 9 "[OpSet ''a'' ''b'' 1 1]"]
  by (simp add: SAMPLE_STACK_MAP_VALUE_MAX_SIZE_def SAMPLE_STACK_MAP_EXPIRE_MS_def)

text \<open>
  C9. Refinement: the map implements a finite map whose entries expire. \<^verbatim>\<open>GetAndRemove\<close> returns the visible value of its
  key, the empty string without one, and deletes exactly that key. \<^verbatim>\<open>Set\<close> of a value that fits makes just that value visible for
  two minutes and no longer; of one that does not fit, it changes nothing. For other keys \<^verbatim>\<open>Set\<close> invents nothing,
  and loses a visible one only when the new key was absent and all three entries were live, the lost one being the oldest.
\<close>

theorem sample_stack_map_refines:
  assumes "es = ssm_run SampleStackMap_init ops"
  shows "fst (SampleStackMap_GetAndRemove k t es) = (case ssm_view t es k of None \<Rightarrow> [] | Some old \<Rightarrow> old) \<and>
    ssm_view t (snd (SampleStackMap_GetAndRemove k t es)) = (ssm_view t es)(k := None) \<and>
    (if length v \<le> SAMPLE_STACK_MAP_VALUE_MAX_SIZE
     then ssm_view u (SampleStackMap_Set k v t t' es) k = (if u - t' \<le> SAMPLE_STACK_MAP_EXPIRE_MS then Some v else None)
     else SampleStackMap_Set k v t t' es = es) \<and>
    (x \<noteq> k \<longrightarrow> ssm_view t (SampleStackMap_Set k v t t' es) x = ssm_view t es x \<or>
      ssm_view t (SampleStackMap_Set k v t t' es) x = None \<and> evicted_ok t k x es)"
proof -
  have inv: "ssm_inv es" using assms ssm_run_inv [OF ssm_inv_init] by simp
  have "ssm_view t (SampleStackMap_Set k v t t' es) x = ssm_view t es x \<or>
      ssm_view t (SampleStackMap_Set k v t t' es) x = None \<and> evicted_ok t k x es" if "x \<noteq> k"
    using Set_keeps_other [OF inv that, of t _ v t'] Set_view_other [OF inv that, of t v t']
    by (cases "ssm_view t es x"; cases "ssm_view t (SampleStackMap_Set k v t t' es) x") auto
  moreover have "ssm_view u (SampleStackMap_Set k v t t' es) k = (if u - t' \<le> SAMPLE_STACK_MAP_EXPIRE_MS then Some v else None)"
    if "length v \<le> SAMPLE_STACK_MAP_VALUE_MAX_SIZE"
    using Set_view_self [OF inv that] Set_view_expired [OF inv that] by (simp add: not_le)
  ultimately show ?thesis using GetAndRemove_view [OF inv] GetAndRemove_value [OF inv] Set_big by simp
qed

text \<open>A fourth key at tick 5: it is visible, the oldest is lost.\<close>

theorem sample_stack_map_refines_witness:
  "let es = ssm_run SampleStackMap_init [OpSet ''a'' ''1'' 1 1, OpSet ''b'' ''2'' 2 2, OpSet ''c'' ''3'' 3 3];
       es' = SampleStackMap_Set ''d'' ''4'' 5 5 es in
   fst (SampleStackMap_GetAndRemove ''d'' 6 es') = ''4'' \<and> ssm_view 120005 es' ''d'' = Some ''4'' \<and>
   ssm_view 120006 es' ''d'' = None \<and> ssm_view 5 es' ''a'' = None \<and> evicted_ok 5 ''d'' ''a'' es"
proof -
  let ?ops = "[OpSet ''a'' ''1'' 1 1, OpSet ''b'' ''2'' 2 2, OpSet ''c'' ''3'' 3 3]"
  let ?es = "ssm_run SampleStackMap_init ?ops"
  let ?es' = "SampleStackMap_Set ''d'' ''4'' 5 5 ?es"
  have len: "length ''4'' \<le> SAMPLE_STACK_MAP_VALUE_MAX_SIZE" by (simp add: SAMPLE_STACK_MAP_VALUE_MAX_SIZE_def)
  have vw: "ssm_view u ?es' ''d'' = (if u - 5 \<le> SAMPLE_STACK_MAP_EXPIRE_MS then Some ''4'' else None)" for u
    using sample_stack_map_refines [of ?es ?ops "''d''" 5 "''4''" u 5 "''a''"] len by simp
  have es': "?es' = ssm_run SampleStackMap_init (?ops @ [OpSet ''d'' ''4'' 5 5])" by simp
  have "fst (SampleStackMap_GetAndRemove ''d'' 6 ?es') = ''4''"
    using sample_stack_map_refines [OF es', of "''d''" 6] vw [of 6] by (simp add: SAMPLE_STACK_MAP_EXPIRE_MS_def)
  moreover have gone: "ssm_view 5 ?es' ''a'' = None" by (simp add: ssm_eval)
  moreover have "ssm_view 5 ?es ''a'' = Some ''1''" by (simp add: ssm_eval)
  then have "evicted_ok 5 ''d'' ''a'' ?es"
    using sample_stack_map_refines [of ?es ?ops "''d''" 5 "''4''" 5 5 "''a''"] gone by simp
  ultimately show ?thesis using vw [of 120005] vw [of 120006] by (simp add: SAMPLE_STACK_MAP_EXPIRE_MS_def Let_def)
qed

text \<open>
  The sampling closures read the stored stacks, append the new one and write the result back.
  When the result does not fit, the write is skipped after the old value has been removed, so every
  stack stored so far is lost.
\<close>

theorem sample_stack_extend_overflow_loses:
  assumes "es = ssm_run SampleStackMap_init ops" and "ssm_view t es k = Some old"
    and "SAMPLE_STACK_MAP_VALUE_MAX_SIZE < length (old @ new)"
  shows "ssm_view t (SampleStackMap_Set k (fst (SampleStackMap_GetAndRemove k t es) @ new) t' t''
           (snd (SampleStackMap_GetAndRemove k t es))) k = None"
  using ssm.extend_overflow [OF ssm_run_inv [OF ssm_inv_init], of t ops k old new t' t''] assms by simp

theorem sample_stack_extend_overflow_loses_witness:
  "\<exists>es. ssm_view 2 es ''k'' = Some ''s'' \<and>
     ssm_view 2 (SampleStackMap_Set ''k'' (''s'' @ replicate (256 * 1024) CHR ''x'') 2 2
           (snd (SampleStackMap_GetAndRemove ''k'' 2 es))) ''k'' = None"
proof -
  let ?ops = "[OpSet ''k'' ''s'' 1 1]"
  have v: "ssm_view 2 (ssm_run SampleStackMap_init ?ops) ''k'' = Some ''s''" by (simp add: ssm_eval)
  have "fst (SampleStackMap_GetAndRemove ''k'' 2 (ssm_run SampleStackMap_init ?ops)) = ''s''"
    unfolding GetAndRemove_value [OF ssm_run_inv [OF ssm_inv_init]] v by simp
  with v show ?thesis
    using sample_stack_extend_overflow_loses [OF refl v, of "replicate (256 * 1024) CHR ''x''" 2 2]
    by (intro exI [of _ "ssm_run SampleStackMap_init ?ops"]) (simp add: SAMPLE_STACK_MAP_VALUE_MAX_SIZE_def)
qed

end
