(* ===== verification/Watchdog_State.thy ===== *)
theory Watchdog_State
  imports Handler_Checker Xcollie_Strings Sample_Stack_Map
begin

text \<open>
  The data of the watchdog: the task object (\<^verbatim>\<open>watchdog_task.h\<close>) with its six constructors
  (\<^verbatim>\<open>watchdog_task.cpp\<close>), the state of the sampling features (\<^verbatim>\<open>watchdog_inner_data.h\<close>) and the
  state of the singleton \<^verbatim>\<open>WatchdogInner\<close> (\<^verbatim>\<open>watchdog_inner.h\<close>) with its simple setters.

  Closures are a datatype with one constructor per closure the sources build, and one for the tasks
  of clients, known by their identity. Callbacks and handlers are known by their identity too.
  Objects the code shares through \<^verbatim>\<open>shared_ptr\<close> (handler checkers, sample counters) live in a store
  and are referred to by address. What the code does to the outside is appended to the trace
  \<open>out\<close>.
\<close>

section \<open>Build options and process environment\<close>

text \<open>
  One flag per preprocessor symbol of the modelled code, and what the code reads of its process: ids,
  names, system parameters and files. \<open>appStartConfig\<close> is the content of the file
  \<^verbatim>\<open>APP_START_CONFIG\<close>, \<^term>\<open>None\<close> when it does not exist or cannot be read.
\<close>

record env =
  SUSPEND_CHECK_ENABLE :: bool
  LOW_MEMORY_FREEZE_STRATEGY_ENABLE :: bool
  ASYNC_BINDER_SPACE_FULL :: bool
  HISYSEVENT_ENABLE :: bool
  KICK_WATCHDOG_ENABLE :: bool
  HICOLLIE_JANK_ENABLE :: bool
  FFRT_CALLBACK_TIME :: u32
  getuid :: nat
  getgid :: nat
  getprocpid :: int
  selfProcName :: string
  procCmdlineName :: string
  isProcessDebug :: bool
  isBetaVersion :: bool
  isDeveloperOpen :: bool
  appStartConfig :: "string option"

definition RENDER_SERVICE_UID :: nat where "RENDER_SERVICE_UID = 1003"
definition AUDIO_SERVER_UID :: nat where "AUDIO_SERVER_UID = 1041"
definition DATA_MANAGE_SERVICE_UID :: nat where "DATA_MANAGE_SERVICE_UID = 3012"
definition FOUNDATION_UID :: nat where "FOUNDATION_UID = 5523"
definition MEDIA_SERVICE_UID :: nat where "MEDIA_SERVICE_UID = 1013"
definition MIN_APP_UID :: nat where "MIN_APP_UID = 20000"
definition MAX_WATCH_NUM :: nat where "MAX_WATCH_NUM = 128"

abbreviation (input) STACK_CHECKER :: string where "STACK_CHECKER \<equiv> ''ThreadSampler''"
abbreviation (input) TRACE_CHECKER :: string where "TRACE_CHECKER \<equiv> ''TraceCollector''"
abbreviation (input) FREEZE_SAMPLE :: string where "FREEZE_SAMPLE \<equiv> ''FreezeSampler''"
abbreviation (input) APP_START_SAMPLE :: string where "APP_START_SAMPLE \<equiv> ''AppStartSample''"
abbreviation (input) KICK_WATCHDOG_TASK :: string where "KICK_WATCHDOG_TASK \<equiv> ''Kick_Watchdog_Task''"
abbreviation (input) KEY_SCB_STATE :: string where "KEY_SCB_STATE \<equiv> ''com.ohos.sceneboard''"

text \<open>The environment of the examples: a system service, all build options on.\<close>

definition service_env :: env where
  "service_env = \<lparr>SUSPEND_CHECK_ENABLE = True, LOW_MEMORY_FREEZE_STRATEGY_ENABLE = True,
     ASYNC_BINDER_SPACE_FULL = True, HISYSEVENT_ENABLE = True, KICK_WATCHDOG_ENABLE = True,
     HICOLLIE_JANK_ENABLE = True, FFRT_CALLBACK_TIME = 30000,
     getuid = 1000, getgid = 1000, getprocpid = 4321, selfProcName = ''svc'', procCmdlineName = ''svc'',
     isProcessDebug = False,
     isBetaVersion = False, isDeveloperOpen = False, appStartConfig = None\<rparr>"

text \<open>\<^verbatim>\<open>IsInAppspwan\<close>.\<close>

definition IsInAppspwan :: "env \<Rightarrow> bool" where
  "IsInAppspwan e \<longleftrightarrow> getuid e = 0 \<and>
     (str_contains (selfProcName e) ''appspawn'' \<or> str_contains (selfProcName e) ''nativespawn'' \<or>
      str_contains (selfProcName e) ''hybridspawn'')"

section \<open>Tasks\<close>

text \<open>
  The closures: a task of a client, the stack sampling of a blocked thread (thread, name of its
  store entry, address of its counter, header line), the start-up and scroll sampling of an
  application, the sampling of a slow main thread, the sampling of a freeze, the trace collection
  and the kick of the kernel's hung-task detector.
\<close>

datatype task_fn =
    UserTask nat
  | SampleStackTask int string nat string
  | AppStartSampleTask int bool
  | ScrollSampleTask int int
  | MainThreadSampleTask int int int
  | FreezeSampleTask int int
  | TraceTask
  | KickTask

record WatchdogTask =
  task_name :: string
  task_message :: string
  task_task :: "task_fn option"
  timeOutCallback :: "nat option"
  task_checker :: "nat option"
  task_id :: int
  task_timeout :: u64
  task_func :: "nat option"
  task_arg :: nat
  task_flag :: u32
  checkInterval :: u64
  nextTickTime :: u64
  isOneshotTask :: bool
  watchdogTid :: int
  timeLimit :: u64
  countLimit :: int
  triggerTimes :: "u64 list"
  bootTimeStart :: u64
  monoTimeStart :: u64
  reportCount :: u32
  binderSpaceFullCount :: u32
  lowMemoryCheck :: bool
  lastLowMemoryTime :: u64
  lastLowMemoryFreezeTime :: u64
  hadSendEvent :: bool
  sampleStack :: string

definition WatchdogTask_default :: WatchdogTask where
  "WatchdogTask_default =
     \<lparr>task_name = [], task_message = [], task_task = None, timeOutCallback = None, task_checker = None,
      task_id = 0, task_timeout = 0, task_func = None, task_arg = 0, task_flag = 0, checkInterval = 0,
      nextTickTime = 0, isOneshotTask = False, watchdogTid = 0, timeLimit = 0, countLimit = 0,
      triggerTimes = [], bootTimeStart = 0, monoTimeStart = 0, reportCount = 0,
      binderSpaceFullCount = 0, lowMemoryCheck = False, lastLowMemoryTime = 0,
      lastLowMemoryFreezeTime = 0, hadSendEvent = False, sampleStack = []\<rparr>"

text \<open>
  The times written by \<^verbatim>\<open>CalculateTimes(bootTimeStart, monoTimeStart)\<close>, present in builds with
  \<^verbatim>\<open>SUSPEND_CHECK_ENABLE\<close> only.
\<close>

definition set_times :: "env \<Rightarrow> u64 \<times> u64 \<Rightarrow> WatchdogTask \<Rightarrow> WatchdogTask" where
  "set_times e ts t =
     (if SUSPEND_CHECK_ENABLE e then t\<lparr>bootTimeStart := fst ts, monoTimeStart := snd ts\<rparr> else t)"

definition ShouldCheckLowMemory :: "env \<Rightarrow> bool" where
  "ShouldCheckLowMemory e \<longleftrightarrow> getuid e = RENDER_SERVICE_UID"

text \<open>The constructors. \<open>cid\<close> is the new value of \<^verbatim>\<open>++curId\<close>, \<open>now\<close> the tick, \<open>chk\<close> the new checker.\<close>

definition WatchdogTask_handler ::
  "env \<Rightarrow> int \<Rightarrow> u64 \<Rightarrow> u64 \<times> u64 \<Rightarrow> string \<Rightarrow> nat \<Rightarrow> nat option \<Rightarrow> u64 \<Rightarrow> WatchdogTask" where
  "WatchdogTask_handler e cid now ts nm chk cb interval =
     set_times e ts
       (WatchdogTask_default\<lparr>task_name := nm, timeOutCallback := cb, task_id := cid,
          task_checker := Some chk, checkInterval := interval, nextTickTime := now,
          isOneshotTask := False,
          lowMemoryCheck := LOW_MEMORY_FREEZE_STRATEGY_ENABLE e \<and> ShouldCheckLowMemory e\<rparr>)"

definition WatchdogTask_ipc ::
  "env \<Rightarrow> int \<Rightarrow> u64 \<Rightarrow> u64 \<times> u64 \<Rightarrow> nat \<Rightarrow> u64 \<Rightarrow> u32 \<Rightarrow> nat option \<Rightarrow> nat \<Rightarrow> u32 \<Rightarrow> WatchdogTask" where
  "WatchdogTask_ipc e cid now ts chk interval cnt fn arg flag =
     set_times e ts
       (WatchdogTask_default\<lparr>task_func := fn, task_arg := arg, task_flag := flag, task_id := cid,
          task_checker := (if cnt > 0 then None else Some chk),
          task_name := (if cnt > 0 then ASYNC_BINDER_SPACE_FULL_TASK else IPC_FULL_TASK),
          checkInterval := interval, nextTickTime := now, isOneshotTask := False,
          binderSpaceFullCount := cnt\<rparr>)"

definition WatchdogTask_task ::
  "env \<Rightarrow> int \<Rightarrow> u64 \<Rightarrow> u64 \<times> u64 \<Rightarrow> string \<Rightarrow> task_fn option \<Rightarrow> u64 \<Rightarrow> u64 \<Rightarrow> bool \<Rightarrow> WatchdogTask" where
  "WatchdogTask_task e cid now ts nm tsk delay interval isOneshot =
     set_times e ts
       (WatchdogTask_default\<lparr>task_name := nm, task_task := tsk, task_id := cid, checkInterval := interval,
          nextTickTime := now + delay, isOneshotTask := isOneshot\<rparr>)"

text \<open>The timeout and the time limit arrive as \<^verbatim>\<open>unsigned int\<close>, 32 bits wide.\<close>

definition WatchdogTask_xcollie ::
  "env \<Rightarrow> int \<Rightarrow> u64 \<Rightarrow> u64 \<times> u64 \<Rightarrow> int \<Rightarrow> string \<Rightarrow> u32 \<Rightarrow> nat option \<Rightarrow> nat \<Rightarrow> u32 \<Rightarrow> WatchdogTask" where
  "WatchdogTask_xcollie e cid now ts tid nm timeout fn arg flag =
     set_times e ts
       (WatchdogTask_default\<lparr>task_name := nm, task_timeout := ucast timeout, task_func := fn,
          task_arg := arg, task_flag := flag, task_id := cid, checkInterval := 0,
          nextTickTime := now + ucast timeout, isOneshotTask := True, watchdogTid := tid\<rparr>)"

definition WatchdogTask_timer ::
  "env \<Rightarrow> int \<Rightarrow> u64 \<Rightarrow> u64 \<times> u64 \<Rightarrow> string \<Rightarrow> u32 \<Rightarrow> int \<Rightarrow> WatchdogTask" where
  "WatchdogTask_timer e cid now ts nm tlim clim =
     set_times e ts
       (WatchdogTask_default\<lparr>task_name := nm, timeLimit := ucast tlim, countLimit := clim, task_id := cid,
          checkInterval := ucast (tlim div 2), nextTickTime := now, isOneshotTask := False\<rparr>)"

lemma set_times_sel [simp]:
  "task_name (set_times e x t) = task_name t" "task_task (set_times e x t) = task_task t"
  "task_id (set_times e x t) = task_id t" "task_timeout (set_times e x t) = task_timeout t"
  "task_checker (set_times e x t) = task_checker t" "checkInterval (set_times e x t) = checkInterval t"
  "nextTickTime (set_times e x t) = nextTickTime t" "isOneshotTask (set_times e x t) = isOneshotTask t"
  "timeLimit (set_times e x t) = timeLimit t" "countLimit (set_times e x t) = countLimit t"
  "triggerTimes (set_times e x t) = triggerTimes t" "task_flag (set_times e x t) = task_flag t"
  "binderSpaceFullCount (set_times e x t) = binderSpaceFullCount t"
  by (simp_all add: set_times_def)

lemmas task_constructors = WatchdogTask_handler_def WatchdogTask_ipc_def WatchdogTask_task_def
  WatchdogTask_xcollie_def WatchdogTask_timer_def WatchdogTask_default_def

section \<open>State of the sampling features\<close>

record TimeContent =
  curBegin :: int
  curEnd :: int

record StackContent =
  isStartSampleEnabled :: bool
  detectorCount :: int
  collectCount :: int
  reportTimes :: int
  scrollTimes :: int
  reportBegin :: int
  reportEnd :: int
  lastEndTime :: int

record TraceContent =
  traceState :: int
  traceCount :: int
  dumpCount :: int
  tr_reportBegin :: int
  tr_reportEnd :: int
  tr_lastEndTime :: int

record AppStartContent =
  startTime :: int
  as_sampleInterval :: int
  startUpDuration :: int
  threshold :: int
  as_collectCount :: int
  targetCount :: int
  as_reportTimes :: int
  as_isStartSampleEnabled :: bool
  isFinishStartSample :: bool
  enableStartSample :: bool

record SampleFreezeInfo =
  lastSaveTime :: u64
  freezeFile :: string
  currentFile :: string

text \<open>
  The six pointers into the sampler library are set and reset together: \<open>samplerFuncs\<close> tells whether
  they are; \<open>samplerSigHandler\<close> is the static one the signal handler uses.
\<close>

record Sampling =
  timeContent :: TimeContent
  stackContent :: StackContent
  traceContent :: TraceContent
  startSlowContent :: AppStartContent
  scrollSlowContent :: AppStartContent
  sampleFreezeInfo :: SampleFreezeInfo
  isMainThreadStackEnabled :: bool
  isMainThreadTraceEnabled :: bool
  samplerFuncs :: bool
  samplerSigHandler :: bool
  g_scrollSampleCount :: int
  g_freezeSampleCount :: int
  g_freezeTaskFinished :: bool
  g_isReuseStack :: bool
  g_isDumpStack :: bool
  isScroll :: bool
  initAsyncStack :: bool
  xcollieFfrtTask :: bool
  jankParamsMap :: "string \<rightharpoonup> int"

abbreviation (input) KEY_SAMPLE_INTERVAL :: string where "KEY_SAMPLE_INTERVAL \<equiv> ''sample_interval''"
abbreviation (input) KEY_SAMPLE_COUNT :: string where "KEY_SAMPLE_COUNT \<equiv> ''sample_count''"
abbreviation (input) KEY_SAMPLE_REPORT_TIMES :: string where "KEY_SAMPLE_REPORT_TIMES \<equiv> ''report_times_per_app''"
abbreviation (input) KEY_LOG_TYPE :: string where "KEY_LOG_TYPE \<equiv> ''log_type''"
abbreviation (input) KEY_SET_TIMES_FLAG :: string where "KEY_SET_TIMES_FLAG \<equiv> ''set_report_times_flag''"
abbreviation (input) KEY_IGNORE_STARTUP_TIME :: string where "KEY_IGNORE_STARTUP_TIME \<equiv> ''ignore_startup_time''"
abbreviation (input) KEY_CHECKER_INTERVAL :: string where "KEY_CHECKER_INTERVAL \<equiv> ''checker_interval''"
abbreviation (input) KEY_AUTO_STOP_SAMPLING :: string where "KEY_AUTO_STOP_SAMPLING \<equiv> ''auto_stop_sampling''"

definition SAMPLE_DEFAULT_REPORT_TIMES :: int where "SAMPLE_DEFAULT_REPORT_TIMES = 1"

definition StackContent_init :: StackContent where
  "StackContent_init = \<lparr>isStartSampleEnabled = True, detectorCount = 0, collectCount = 0,
     reportTimes = SAMPLE_DEFAULT_REPORT_TIMES, scrollTimes = SAMPLE_DEFAULT_REPORT_TIMES,
     reportBegin = 0, reportEnd = 0, lastEndTime = 0\<rparr>"

definition TraceContent_init :: TraceContent where
  "TraceContent_init = \<lparr>traceState = 0, traceCount = 0, dumpCount = 0, tr_reportBegin = 0,
     tr_reportEnd = 0, tr_lastEndTime = 0\<rparr>"

definition AppStartContent_init :: AppStartContent where
  "AppStartContent_init = \<lparr>startTime = 0, as_sampleInterval = 0, startUpDuration = 0, threshold = 0,
     as_collectCount = 0, targetCount = 0, as_reportTimes = SAMPLE_DEFAULT_REPORT_TIMES,
     as_isStartSampleEnabled = True, isFinishStartSample = False, enableStartSample = False\<rparr>"

definition jankParamsMap_init :: "string \<rightharpoonup> int" where
  "jankParamsMap_init =
     [KEY_SAMPLE_INTERVAL \<mapsto> 150, KEY_IGNORE_STARTUP_TIME \<mapsto> 10, KEY_SAMPLE_COUNT \<mapsto> 10,
      KEY_SAMPLE_REPORT_TIMES \<mapsto> 1, KEY_LOG_TYPE \<mapsto> 0, KEY_SET_TIMES_FLAG \<mapsto> 1,
      KEY_CHECKER_INTERVAL \<mapsto> 0, KEY_AUTO_STOP_SAMPLING \<mapsto> 0]"

definition Sampling_init :: Sampling where
  "Sampling_init =
     \<lparr>timeContent = \<lparr>curBegin = 0, curEnd = 0\<rparr>, stackContent = StackContent_init,
      traceContent = TraceContent_init, startSlowContent = AppStartContent_init,
      scrollSlowContent = AppStartContent_init,
      sampleFreezeInfo = \<lparr>lastSaveTime = 0, freezeFile = [], currentFile = []\<rparr>,
      isMainThreadStackEnabled = False, isMainThreadTraceEnabled = False, samplerFuncs = False,
      samplerSigHandler = False, g_scrollSampleCount = 0, g_freezeSampleCount = 0,
      g_freezeTaskFinished = False, g_isReuseStack = False, g_isDumpStack = False, isScroll = False,
      initAsyncStack = False, xcollieFfrtTask = False,
      jankParamsMap = jankParamsMap_init\<rparr>"

section \<open>Outside effects\<close>

text \<open>
  An event written with \<^verbatim>\<open>HiSysEventWrite\<close>: its name and the parameters that depend on the watchdog's
  own state. \<open>ev_stack\<close> is the stack text of the attempt that was accepted.
\<close>

record sys_event =
  ev_name :: string
  ev_pid :: int
  ev_tid :: int
  ev_gid :: nat
  ev_uid :: nat
  ev_module :: string
  ev_process :: string
  ev_msg :: string
  ev_stack :: string
  ev_sample_stack :: string
  ev_binder :: string

datatype effect =
    EPost posted_check
  | EUserTask nat
  | ECallback nat nat
  | ETimeOutCallback nat string CheckStatus
  | EEvent sys_event
  | ESample
  | EReport string bool
  | EDumpTrace
  | EStartTrace
  | ESendHungtask string
  | EKill int
  | EAlarm nat
  | EExitProcess string
  | ENotifyAll
  | EStartThread
  | EReadConfig
  | ESetIPCProxyLimit nat
  | ESetFfrtTimeout u32
  | ESetMainLooperWatcher bool

section \<open>The watchdog\<close>

text \<open>
  The members of \<^verbatim>\<open>WatchdogInner\<close> and the file-level variables of its source file. \<open>onceFlag\<close>
  is the once flag \<^verbatim>\<open>flag_\<close>, \<open>threadLoop\<close> tells whether the watchdog thread exists. \<open>checkers\<close> and \<open>counters\<close> are the
  shared objects with their next free addresses, \<open>curId\<close> the static counter of task ids, and
  \<open>stacks\<close> the stack store.
\<close>

record WatchdogInner =
  checkerQueue :: "WatchdogTask list"
  taskNameSet :: "string set"
  isNeedStop :: bool
  nextWeakUpTime :: u64
  onceFlag :: bool
  threadLoop :: bool
  mainRunner :: bool
  cntCallback :: int
  timeCallback :: int
  currentScene :: string
  watchdogStartTime :: u64
  sampling :: Sampling
  bundleName :: string
  bundleVersion :: string
  isSystemApp :: bool
  isForeground :: bool
  isAppDebug :: bool
  specifiedProcessName :: string
  buissnessThreadInfo :: "int set"
  taskIdCnt :: "u64 \<rightharpoonup> int"
  g_fd :: int
  g_kickWatchdog :: bool
  isHmos :: bool
  curId :: int
  checkers :: "nat \<Rightarrow> HandlerChecker"
  nextChecker :: nat
  counters :: "nat \<Rightarrow> int"
  nextCounter :: nat
  stacks :: "Entry list"
  out :: "effect list"

definition idle_scene :: string where
  "idle_scene = ''thread DfxWatchdog: Current scenario is hicollie.'' @ [CHR 0x0A]"

definition WatchdogInner_init :: WatchdogInner where
  "WatchdogInner_init =
     \<lparr>checkerQueue = [], taskNameSet = {}, isNeedStop = False, nextWeakUpTime = - 1,
      onceFlag = False, threadLoop = False, mainRunner = False, cntCallback = 0, timeCallback = 0,
      currentScene = idle_scene, watchdogStartTime = 0, sampling = Sampling_init, bundleName = [],
      bundleVersion = [], isSystemApp = False, isForeground = False, isAppDebug = False,
      specifiedProcessName = [], buissnessThreadInfo = {}, taskIdCnt = Map.empty, g_fd = - 1,
      g_kickWatchdog = False, isHmos = False, curId = 0,
      checkers = (\<lambda>_. HandlerChecker_prio [] None 0), nextChecker = 0, counters = (\<lambda>_. 0),
      nextCounter = 0, stacks = SampleStackMap_init, out = []\<rparr>"

definition emit :: "effect \<Rightarrow> WatchdogInner \<Rightarrow> WatchdogInner" where
  "emit x w = w\<lparr>out := out w @ [x]\<rparr>"

definition SetBundleInfo :: "string \<Rightarrow> string \<Rightarrow> WatchdogInner \<Rightarrow> WatchdogInner" where
  "SetBundleInfo nm ver w = w\<lparr>bundleName := nm, bundleVersion := ver\<rparr>"

definition SetSystemApp :: "bool \<Rightarrow> WatchdogInner \<Rightarrow> WatchdogInner" where
  "SetSystemApp b w = w\<lparr>isSystemApp := b\<rparr>"

definition SetForeground :: "bool \<Rightarrow> WatchdogInner \<Rightarrow> WatchdogInner" where
  "SetForeground b w = w\<lparr>isForeground := b\<rparr>"

definition SetAppDebug :: "bool \<Rightarrow> WatchdogInner \<Rightarrow> WatchdogInner" where
  "SetAppDebug b w = w\<lparr>isAppDebug := b\<rparr>"

definition SetSpecifiedProcessName :: "string \<Rightarrow> WatchdogInner \<Rightarrow> WatchdogInner" where
  "SetSpecifiedProcessName nm w = w\<lparr>specifiedProcessName := nm\<rparr>"

definition SetScrollState :: "bool \<Rightarrow> WatchdogInner \<Rightarrow> WatchdogInner" where
  "SetScrollState b w = w\<lparr>sampling := (sampling w)\<lparr>isScroll := b\<rparr>\<rparr>"

definition CheckBusinessByTid :: "int \<Rightarrow> WatchdogInner \<Rightarrow> bool" where
  "CheckBusinessByTid tid w \<longleftrightarrow> tid \<in> buissnessThreadInfo w"

definition CheckBusinessEmpty :: "WatchdogInner \<Rightarrow> bool" where
  "CheckBusinessEmpty w \<longleftrightarrow> buissnessThreadInfo w = {}"

definition InsertOrRemoveInfo :: "int \<Rightarrow> bool \<Rightarrow> WatchdogInner \<Rightarrow> WatchdogInner" where
  "InsertOrRemoveInfo tid isRemove w =
     (if isRemove then w\<lparr>buissnessThreadInfo := buissnessThreadInfo w - {tid}\<rparr>
      else w\<lparr>buissnessThreadInfo := insert tid (buissnessThreadInfo w)\<rparr>)"

text \<open>
  \<^verbatim>\<open>InitMainLooperWatcher\<close>; \<open>given\<close> tells whether both function pointers are non-null, and the
  result whether they were set. The removal dereferences \<^verbatim>\<open>mainRunner_\<close> without a test; a null
  pointer there is the value \<^term>\<open>None\<close>.
\<close>

definition InitMainLooperWatcher :: "int \<Rightarrow> bool \<Rightarrow> WatchdogInner \<Rightarrow> (bool \<times> WatchdogInner) option" where
  "InitMainLooperWatcher tid given w =
     (if given then
        if CheckBusinessByTid tid w then Some (False, w)
        else let w1 = (if mainRunner w then emit (ESetMainLooperWatcher False) w else w)
             in Some (True, InsertOrRemoveInfo tid False w1)
      else if CheckBusinessByTid tid w then
        (if mainRunner w
         then Some (False, InsertOrRemoveInfo tid True (emit (ESetMainLooperWatcher True) w))
         else None)
      else Some (False, w))"

end
