(* ===== verification/Watchdog_Queue.thy ===== *)
theory Watchdog_Queue
  imports Watchdog_State
begin

text \<open>
  The priority queue of tasks. The code keeps a \<^verbatim>\<open>std::priority_queue<WatchdogTask>\<close> whose
  \<^verbatim>\<open>operator<\<close> puts the task with the smallest \<^verbatim>\<open>nextTickTime\<close> on top, and removes or edits tasks by
  draining the queue into a temporary one and swapping. The locale \<open>prio_queue\<close> states what
  \<^verbatim>\<open>push\<close>, \<^verbatim>\<open>top\<close> and \<^verbatim>\<open>pop\<close> promise; the instance is a list ordered by tick. The C++ standard
  leaves the order of equal ticks open: nothing stated of the queue outside this theory depends on
  it.
\<close>

section \<open>Interface\<close>

locale prio_queue =
  fixes empty :: "'q" and push :: "'e \<Rightarrow> 'q \<Rightarrow> 'q" and top :: "'q \<Rightarrow> 'e" and pop :: "'q \<Rightarrow> 'q"
    and elems :: "'q \<Rightarrow> 'e multiset" and inv :: "'q \<Rightarrow> bool" and prio :: "'e \<Rightarrow> 'k::linorder"
  assumes inv_empty: "inv empty" and elems_empty: "elems empty = {#}"
    and inv_push: "inv q \<Longrightarrow> inv (push x q)"
    and elems_push: "inv q \<Longrightarrow> elems (push x q) = add_mset x (elems q)"
    and top_in: "inv q \<Longrightarrow> elems q \<noteq> {#} \<Longrightarrow> top q \<in># elems q"
    and top_min: "inv q \<Longrightarrow> x \<in># elems q \<Longrightarrow> prio (top q) \<le> prio x"
    and inv_pop: "inv q \<Longrightarrow> elems q \<noteq> {#} \<Longrightarrow> inv (pop q)"
    and elems_pop: "inv q \<Longrightarrow> elems q \<noteq> {#} \<Longrightarrow> elems (pop q) = elems q - {#top q#}"
begin

lemma split_top: "inv q \<Longrightarrow> elems q \<noteq> {#} \<Longrightarrow> elems q = add_mset (top q) (elems (pop q))"
  by (simp add: elems_pop top_in)

lemma pop_increasing:
  assumes "inv q" and "elems q \<noteq> {#}" and "elems (pop q) \<noteq> {#}"
  shows "prio (top q) \<le> prio (top (pop q))"
proof -
  have "top (pop q) \<in># elems (pop q)" using assms by (intro top_in inv_pop) auto
  then have "top (pop q) \<in># elems q" using split_top [OF assms(1,2)] by simp
  then show ?thesis by (rule top_min [OF assms(1)])
qed

lemma top_push:
  assumes "inv q"
  shows "prio (top (push x q)) = (if elems q = {#} then prio x else min (prio x) (prio (top q)))"
proof -
  have inv: "inv (push x q)" and el: "elems (push x q) = add_mset x (elems q)"
    using assms by (auto intro: inv_push elems_push)
  have "top (push x q) \<in># add_mset x (elems q)" using top_in [OF inv] el by simp
  moreover have "prio (top (push x q)) \<le> prio x" using top_min [OF inv] el by simp
  moreover have "prio (top (push x q)) \<le> prio (top q)" if "elems q \<noteq> {#}"
    using top_min [OF inv, of "top q"] el top_in [OF assms that] by simp
  moreover have "prio (top q) \<le> prio y" if "y \<in># elems q" for y
    using top_min [OF assms that] .
  ultimately show ?thesis by (fastforce simp: min_def)
qed

text \<open>Two queues with the same elements agree on the tick that is served next.\<close>

lemma top_prio_unique:
  assumes "inv q" and "inv q'" and "elems q = elems q'" and "elems q \<noteq> {#}"
  shows "prio (top q) = prio (top q')"
  using top_min [OF assms(1), of "top q'"] top_min [OF assms(2), of "top q"]
    top_in [OF assms(1)] top_in [OF assms(2)] assms(3,4) by simp

end

section \<open>The instance\<close>

fun pq_push :: "WatchdogTask \<Rightarrow> WatchdogTask list \<Rightarrow> WatchdogTask list" where
  "pq_push t [] = [t]"
| "pq_push t (x # q) = (if nextTickTime t < nextTickTime x then t # x # q else x # pq_push t q)"

definition pq_top :: "WatchdogTask list \<Rightarrow> WatchdogTask" where
  "pq_top q = hd q"

definition pq_pop :: "WatchdogTask list \<Rightarrow> WatchdogTask list" where
  "pq_pop q = tl q"

definition pq_inv :: "WatchdogTask list \<Rightarrow> bool" where
  "pq_inv q \<longleftrightarrow> sorted_wrt (\<lambda>a b. nextTickTime a \<le> nextTickTime b) q"

lemma mset_push [simp]: "mset (pq_push t q) = add_mset t (mset q)"
  by (induction q) auto

lemma set_push [simp]: "set (pq_push t q) = insert t (set q)"
  by (induction q) auto

lemma length_push [simp]: "length (pq_push t q) = Suc (length q)"
  by (induction q) auto

lemma pq_inv_Nil [simp]: "pq_inv []"
  by (simp add: pq_inv_def)

lemma pq_inv_Cons [simp]: "pq_inv (t # q) \<longleftrightarrow> (\<forall>x \<in> set q. nextTickTime t \<le> nextTickTime x) \<and> pq_inv q"
  by (simp add: pq_inv_def)

lemma pq_inv_push [simp]: "pq_inv q \<Longrightarrow> pq_inv (pq_push t q)"
  by (induction q) (auto intro: less_imp_le order_trans)

lemma pq_inv_pop: "pq_inv q \<Longrightarrow> pq_inv (pq_pop q)"
  by (cases q) (auto simp: pq_pop_def)

interpretation pq: prio_queue "[]" pq_push pq_top pq_pop mset pq_inv nextTickTime
proof unfold_locales
  fix q :: "WatchdogTask list" and x
  show "pq_inv q \<Longrightarrow> mset q \<noteq> {#} \<Longrightarrow> pq_top q \<in># mset q" by (cases q) (auto simp: pq_top_def)
  show "pq_inv q \<Longrightarrow> x \<in># mset q \<Longrightarrow> nextTickTime (pq_top q) \<le> nextTickTime x"
    by (cases q) (auto simp: pq_top_def)
  show "pq_inv q \<Longrightarrow> mset q \<noteq> {#} \<Longrightarrow> mset (pq_pop q) = mset q - {#pq_top q#}"
    by (cases q) (auto simp: pq_pop_def pq_top_def)
qed (auto intro: pq_inv_pop)

section \<open>Draining into a temporary queue\<close>

text \<open>
  The loop \<^verbatim>\<open>while (!checkerQueue_.empty()) { ... top() ... tmpQueue.push ... pop(); }\<close>. Its body
  decides, from a local state, whether to keep the task and in which form.
\<close>

fun pq_drain ::
  "('s \<Rightarrow> WatchdogTask \<Rightarrow> 's \<times> WatchdogTask option) \<Rightarrow> 's \<Rightarrow> WatchdogTask list \<Rightarrow> WatchdogTask list
     \<Rightarrow> 's \<times> WatchdogTask list" where
  "pq_drain f s [] tmp = (s, tmp)"
| "pq_drain f s (t # q) tmp =
     (case f s t of
        (s', None) \<Rightarrow> pq_drain f s' q tmp
      | (s', Some t') \<Rightarrow> pq_drain f s' q (pq_push t' tmp))"

lemma pq_drain_inv: "pq_inv tmp \<Longrightarrow> pq_inv (snd (pq_drain f s q tmp))"
  by (induction f s q tmp rule: pq_drain.induct) (auto split: prod.split option.split)

lemma pq_drain_mset:
  assumes "\<And>s t. snd (f s t) = g t"
  shows "mset (snd (pq_drain f s q tmp)) = mset tmp + mset (List.map_filter g q)"
proof (induction q arbitrary: s tmp)
  case (Cons t q)
  have "snd (f s t) = g t" by (rule assms)
  with Cons show ?case
    by (cases "f s t") (auto simp: List.map_filter_simps split: option.split)
qed (simp add: List.map_filter_simps)

lemma pq_drain_state:
  assumes "\<And>s t. fst (f s t) = h t s"
  shows "fst (pq_drain f s q tmp) = fold h q s"
proof (induction q arbitrary: s tmp)
  case (Cons t q)
  have "fst (f s t) = h t s" by (rule assms)
  with Cons show ?case by (cases "f s t") (auto split: option.split)
qed simp

lemma map_filter_filter: "List.map_filter (\<lambda>t. if P t then Some t else None) q = filter P q"
  by (induction q) (auto simp: List.map_filter_simps)

lemma map_filter_map: "List.map_filter (\<lambda>t. Some (g t)) q = map g q"
  by (induction q) (auto simp: List.map_filter_simps)

end
