(* ===== verification/App_Start_Config.thy ===== *)
theory App_Start_Config
  imports Watchdog_State "HOL-Library.AList"
begin

text \<open>
  The configuration of the start-up and scroll sampling, read once when the watchdog thread of an
  application is created (\<^verbatim>\<open>ReadAppStartConfig\<close>, \<^verbatim>\<open>ParseAppStartParams\<close> and
  \<^verbatim>\<open>UpdateAppStartContent\<close> of \<^verbatim>\<open>watchdog_inner.cpp\<close>). Each line names an event and gives
  comma-separated \<^verbatim>\<open>key:value\<close> pairs. The \<^verbatim>\<open>std::map\<close> of one line is an association list with
  distinct keys.
\<close>

section \<open>Model\<close>

abbreviation (input) EVENT_APP_START_SLOW :: string where "EVENT_APP_START_SLOW \<equiv> ''APP_START_SLOW''"
abbreviation (input) EVENT_SLIDING_JANK :: string where "EVENT_SLIDING_JANK \<equiv> ''SLIDING_JANK''"
abbreviation (input) KEY_EVENT_NAME :: string where "KEY_EVENT_NAME \<equiv> ''event_name''"
abbreviation (input) KEY_THRESHOLD :: string where "KEY_THRESHOLD \<equiv> ''threshold''"
abbreviation (input) KEY_TRIGGER_INTERVAL :: string where "KEY_TRIGGER_INTERVAL \<equiv> ''trigger_interval''"
abbreviation (input) KEY_COLLECT_TIMES :: string where "KEY_COLLECT_TIMES \<equiv> ''collect_times''"
abbreviation (input) KEY_REPORT_TIMES :: string where "KEY_REPORT_TIMES \<equiv> ''report_times''"
abbreviation (input) KEY_START_TIME :: string where "KEY_START_TIME \<equiv> ''start_time''"
abbreviation (input) KEY_STARTUP_DURATION :: string where "KEY_STARTUP_DURATION \<equiv> ''startup_duration''"

definition APP_START_PARAM_SIZE :: nat where
  "APP_START_PARAM_SIZE = 5"

definition getRequiredParam :: "(string \<times> int) list \<Rightarrow> string \<Rightarrow> int option" where
  "getRequiredParam paramsMap k =
     (case map_of paramsMap k of
        None \<Rightarrow> None
      | Some v \<Rightarrow> if v \<le> 0 then None else Some v)"

text \<open>Each parameter is written as soon as it is read, so a later failure keeps the earlier ones.\<close>

definition UpdateAppStartContent :: "(string \<times> int) list \<Rightarrow> AppStartContent \<Rightarrow> AppStartContent" where
  "UpdateAppStartContent paramsMap c0 =
     (case getRequiredParam paramsMap KEY_THRESHOLD of None \<Rightarrow> c0 | Some th \<Rightarrow>
      let c1 = c0\<lparr>threshold := th\<rparr> in
      case getRequiredParam paramsMap KEY_TRIGGER_INTERVAL of None \<Rightarrow> c1 | Some ti \<Rightarrow>
      let c2 = c1\<lparr>as_sampleInterval := ti\<rparr> in
      case getRequiredParam paramsMap KEY_COLLECT_TIMES of None \<Rightarrow> c2 | Some ct \<Rightarrow>
      let c3 = c2\<lparr>targetCount := to_int32 ct\<rparr> in
      case getRequiredParam paramsMap KEY_REPORT_TIMES of None \<Rightarrow> c3 | Some rt \<Rightarrow>
      let c4 = c3\<lparr>as_reportTimes := to_int32 rt\<rparr> in
      case getRequiredParam paramsMap KEY_START_TIME of None \<Rightarrow> c4 | Some st \<Rightarrow>
      let c5 = c4\<lparr>startTime := st\<rparr>;
          c6 = (case map_of paramsMap KEY_STARTUP_DURATION of
                  Some v \<Rightarrow> if v > 0 then c5\<lparr>startUpDuration := v\<rparr> else c5
                | None \<Rightarrow> c5)
      in c6\<lparr>enableStartSample := True\<rparr>)"

definition parse_token :: "string \<Rightarrow> (string \<times> int) option" where
  "parse_token tokens =
     (case GetKeyValueByStr tokens (CHR '':'') of
        None \<Rightarrow> None
      | Some (k, v) \<Rightarrow>
          if length v > 19 then None
          else (case SafeStringToInt64 v of None \<Rightarrow> None | Some i \<Rightarrow> Some (k, i)))"

fun parse_tokens :: "string list \<Rightarrow> (string \<times> int) list \<Rightarrow> (string \<times> int) list" where
  "parse_tokens [] kv = kv"
| "parse_tokens (t # ts) kv =
     (case parse_token t of
        None \<Rightarrow> parse_tokens ts kv
      | Some (k, i) \<Rightarrow> parse_tokens ts (AList.update k i kv))"

definition ParseAppStartParams :: "string \<Rightarrow> string \<Rightarrow> Sampling \<Rightarrow> Sampling" where
  "ParseAppStartParams line eventName s =
     (let keyValueMap = parse_tokens (SplitStr line '','' True False) [] in
      if length keyValueMap < APP_START_PARAM_SIZE then s
      else if eventName = EVENT_APP_START_SLOW
        then s\<lparr>startSlowContent := UpdateAppStartContent keyValueMap (startSlowContent s)\<rparr>
      else if eventName = EVENT_SLIDING_JANK
        then s\<lparr>scrollSlowContent := UpdateAppStartContent keyValueMap (scrollSlowContent s)\<rparr>
      else s)"

fun ReadAppStartConfig_loop :: "string list \<Rightarrow> Sampling \<Rightarrow> Sampling" where
  "ReadAppStartConfig_loop [] s = s"
| "ReadAppStartConfig_loop (line # ls) s =
     (if line = [] \<or> \<not> str_contains line KEY_EVENT_NAME then ReadAppStartConfig_loop ls s
      else if str_contains line EVENT_SLIDING_JANK
        then ReadAppStartConfig_loop ls (ParseAppStartParams line EVENT_SLIDING_JANK s)
      else if str_contains line EVENT_APP_START_SLOW
        then ReadAppStartConfig_loop ls (ParseAppStartParams line EVENT_APP_START_SLOW s)
      else ReadAppStartConfig_loop ls s)"

definition ReadAppStartConfig :: "env \<Rightarrow> Sampling \<Rightarrow> Sampling" where
  "ReadAppStartConfig e s =
     (case appStartConfig e of
        None \<Rightarrow> s
      | Some str \<Rightarrow> ReadAppStartConfig_loop (SplitStr str [CHR 0x0A] False False) s)"

section \<open>What the configuration can enable\<close>

definition content_ok :: "AppStartContent \<Rightarrow> bool" where
  "content_ok c \<longleftrightarrow> (enableStartSample c \<longrightarrow>
     0 < threshold c \<and> 0 < as_sampleInterval c \<and> 0 < startTime c) \<and>
     0 \<le> threshold c \<and> 0 \<le> as_sampleInterval c \<and> 0 \<le> startTime c \<and> 0 \<le> startUpDuration c"

lemma getRequiredParam_pos: "getRequiredParam m k = Some v \<Longrightarrow> 0 < v"
  by (auto simp: getRequiredParam_def split: option.splits if_splits)

lemma content_ok_Update:
  assumes "content_ok c"
  shows "content_ok (UpdateAppStartContent m c)"
proof -
  note pos = getRequiredParam_pos [of m KEY_THRESHOLD] getRequiredParam_pos [of m KEY_TRIGGER_INTERVAL]
    getRequiredParam_pos [of m KEY_START_TIME]
  show ?thesis
    using assms
    by (auto simp: UpdateAppStartContent_def content_ok_def Let_def less_imp_le dest: pos split: option.split)
qed

lemma content_ok_init: "content_ok AppStartContent_init"
  by (simp add: content_ok_def AppStartContent_init_def)

definition config_ok :: "Sampling \<Rightarrow> bool" where
  "config_ok s \<longleftrightarrow> content_ok (startSlowContent s) \<and> content_ok (scrollSlowContent s)"

lemma config_ok_Parse: "config_ok s \<Longrightarrow> config_ok (ParseAppStartParams line ev s)"
  by (simp add: config_ok_def ParseAppStartParams_def Let_def content_ok_Update)

lemma config_ok_loop: "config_ok s \<Longrightarrow> config_ok (ReadAppStartConfig_loop ls s)"
  by (induction ls s rule: ReadAppStartConfig_loop.induct) (simp_all add: config_ok_Parse)

lemma parse_tokens_distinct: "distinct (map fst kv) \<Longrightarrow> distinct (map fst (parse_tokens ts kv))"
  by (induction ts kv rule: parse_tokens.induct) (auto split: option.split simp: distinct_update)

lemma config_frame_loop: "\<exists>a b. ReadAppStartConfig_loop ls s = s\<lparr>startSlowContent := a, scrollSlowContent := b\<rparr>"
proof (induction ls arbitrary: s)
  case Nil
  show ?case by (intro exI [of _ "startSlowContent s"] exI [of _ "scrollSlowContent s"]) simp
next
  case (Cons line ls)
  have frame: "\<exists>a b. ReadAppStartConfig_loop ls (ParseAppStartParams line ev s) =
      s\<lparr>startSlowContent := a, scrollSlowContent := b\<rparr>" for ev
  proof -
    obtain a b where "ReadAppStartConfig_loop ls (ParseAppStartParams line ev s) =
        (ParseAppStartParams line ev s)\<lparr>startSlowContent := a, scrollSlowContent := b\<rparr>"
      using Cons by blast
    then show ?thesis
      by (intro exI [of _ a] exI [of _ b]) (simp add: ParseAppStartParams_def Let_def)
  qed
  show ?case using Cons [of s] frame by simp
qed

text \<open>The line a configuration tool writes for the slow start-up event.\<close>

definition start_line :: "nat \<Rightarrow> nat \<Rightarrow> nat \<Rightarrow> nat \<Rightarrow> nat \<Rightarrow> string" where
  "start_line th ti ct rt st =
     ''event_name:APP_START_SLOW'' @ CHR '','' # (''threshold'' @ CHR '':'' # show_nat th) @ CHR '','' #
     (''trigger_interval'' @ CHR '':'' # show_nat ti) @ CHR '','' # (''collect_times'' @ CHR '':'' # show_nat ct) @
     CHR '','' # (''report_times'' @ CHR '':'' # show_nat rt) @ CHR '','' # (''start_time'' @ CHR '':'' # show_nat st)"

lemma comma_show_nat: "CHR '','' \<notin> set (show_nat n)"
  using show_nat_digits [of n] by (auto simp: isdigit_def)

lemma fields_start_line:
  "str_fields (CHR '','') (start_line th ti ct rt st) =
    [''event_name:APP_START_SLOW'', ''threshold'' @ CHR '':'' # show_nat th,
     ''trigger_interval'' @ CHR '':'' # show_nat ti, ''collect_times'' @ CHR '':'' # show_nat ct,
     ''report_times'' @ CHR '':'' # show_nat rt, ''start_time'' @ CHR '':'' # show_nat st]"
  unfolding start_line_def
  by (subst fields_append, simp add: comma_show_nat)+ (simp add: fields_no_sep comma_show_nat)

lemma parse_token_show:
  assumes "k \<noteq> []" and "CHR '':'' \<notin> set k" and "int n \<le> INT64_MAX"
  shows "parse_token (k @ CHR '':'' # show_nat n) = Some (k, int n)"
proof -
  have "length (show_nat n) \<le> 19" using assms(3) by (intro length_show_nat) simp_all
  moreover have "strtoull (show_nat n) = (n, [], False)"
    using strtoull_digits [of "show_nat n"] assms(3) by (simp add: list_all_show_nat)
  ultimately show ?thesis
    using assms by (simp add: parse_token_def GetKeyValue_show SafeStringToInt64_def)
qed

lemma parse_token_event: "parse_token ''event_name:APP_START_SLOW'' = None"
  by (simp add: parse_token_def GetKeyValueByStr_def str_find_def Let_def IsNum_def isdigit_def isspace_def)

section \<open>When a line enables the sampling\<close>

text \<open>The parameters of a line; a complete line gives the five required ones, each positive; the event a line is taken for.\<close>

definition line_params :: "string \<Rightarrow> (string \<times> int) list" where
  "line_params line = parse_tokens (SplitStr line '','' True False) []"

definition required_keys :: "string list" where
  "required_keys = [KEY_THRESHOLD, KEY_TRIGGER_INTERVAL, KEY_COLLECT_TIMES, KEY_REPORT_TIMES, KEY_START_TIME]"

definition complete_line :: "string \<Rightarrow> bool" where
  "complete_line line \<longleftrightarrow> list_all (\<lambda>k. getRequiredParam (line_params line) k \<noteq> None) required_keys"

definition scroll_line :: "string \<Rightarrow> bool" where
  "scroll_line line \<longleftrightarrow> line \<noteq> [] \<and> str_contains line KEY_EVENT_NAME \<and> str_contains line EVENT_SLIDING_JANK"

definition slow_line :: "string \<Rightarrow> bool" where
  "slow_line line \<longleftrightarrow> line \<noteq> [] \<and> str_contains line KEY_EVENT_NAME \<and> \<not> str_contains line EVENT_SLIDING_JANK \<and>
     str_contains line EVENT_APP_START_SLOW"

definition config_lines :: "env \<Rightarrow> string list" where
  "config_lines e = (case appStartConfig e of None \<Rightarrow> [] | Some str \<Rightarrow> SplitStr str [CHR 0x0A] False False)"

lemma Read_lines: "ReadAppStartConfig e s = ReadAppStartConfig_loop (config_lines e) s"
  by (simp add: ReadAppStartConfig_def config_lines_def split: option.split)

lemma config_frame: "\<exists>a b. ReadAppStartConfig e s = s\<lparr>startSlowContent := a, scrollSlowContent := b\<rparr>"
  unfolding Read_lines by (rule config_frame_loop)

text \<open>The keys of a line are distinct, so a complete line has at least five: the test of the size refuses none.\<close>

lemma complete_line_size: "complete_line line \<Longrightarrow> APP_START_PARAM_SIZE \<le> length (line_params line)"
proof -
  assume "complete_line line"
  then have "set required_keys \<subseteq> fst ` set (line_params line)"
    by (auto simp: complete_line_def required_keys_def getRequiredParam_def split: option.splits
        dest!: map_of_SomeD intro: rev_image_eqI)
  then have "card (set required_keys) \<le> card (fst ` set (line_params line))" by (intro card_mono) simp_all
  also have "\<dots> \<le> length (line_params line)" by (meson card_image_le card_length finite_set order_trans)
  finally show ?thesis by (simp add: required_keys_def APP_START_PARAM_SIZE_def)
qed

lemma Update_enables:
  "enableStartSample (UpdateAppStartContent m c) \<longleftrightarrow>
     enableStartSample c \<or> list_all (\<lambda>k. getRequiredParam m k \<noteq> None) required_keys"
  by (auto simp: UpdateAppStartContent_def required_keys_def Let_def split: option.split)

lemma Parse_enables:
  "enableStartSample (startSlowContent (ParseAppStartParams line EVENT_APP_START_SLOW s)) \<longleftrightarrow>
     enableStartSample (startSlowContent s) \<or> complete_line line"
  "enableStartSample (scrollSlowContent (ParseAppStartParams line EVENT_SLIDING_JANK s)) \<longleftrightarrow>
     enableStartSample (scrollSlowContent s) \<or> complete_line line"
  "scrollSlowContent (ParseAppStartParams line EVENT_APP_START_SLOW s) = scrollSlowContent s"
  "startSlowContent (ParseAppStartParams line EVENT_SLIDING_JANK s) = startSlowContent s"
  using complete_line_size [of line]
  by (auto simp: ParseAppStartParams_def line_params_def complete_line_def Update_enables Let_def)

lemma loop_enables:
  "enableStartSample (startSlowContent (ReadAppStartConfig_loop ls s)) \<longleftrightarrow>
     enableStartSample (startSlowContent s) \<or> (\<exists>line\<in>set ls. slow_line line \<and> complete_line line)"
  "enableStartSample (scrollSlowContent (ReadAppStartConfig_loop ls s)) \<longleftrightarrow>
     enableStartSample (scrollSlowContent s) \<or> (\<exists>line\<in>set ls. scroll_line line \<and> complete_line line)"
  by (induction ls s rule: ReadAppStartConfig_loop.induct) (auto simp: Parse_enables slow_line_def scroll_line_def)

section \<open>Properties\<close>

text \<open>
  C39. What the configuration file can do. It touches nothing but the two start-up contents. The sampling of an event is enabled by
  the file exactly when one of its lines is taken for that event and gives all five required parameters as positive
  64-bit numbers; such a line sets threshold, interval and start time to its numbers, and the counts of samples and of reports to
  their low 32 bits, which may then be zero or negative. An enabled sampling so has a positive threshold, a positive interval
  and a positive start time, also when a later, incomplete line overwrites some of them.
\<close>

theorem app_start_config_sound:
  assumes "config_ok s"
  shows "(enableStartSample (startSlowContent (ReadAppStartConfig e s)) \<longleftrightarrow>
      enableStartSample (startSlowContent s) \<or> (\<exists>line\<in>set (config_lines e). slow_line line \<and> complete_line line)) \<and>
    (enableStartSample (scrollSlowContent (ReadAppStartConfig e s)) \<longleftrightarrow>
      enableStartSample (scrollSlowContent s) \<or> (\<exists>line\<in>set (config_lines e). scroll_line line \<and> complete_line line)) \<and>
    (complete_line line \<longrightarrow>
      (let c' = UpdateAppStartContent (line_params line) c; v = (\<lambda>k. the (map_of (line_params line) k)) in
       threshold c' = v ''threshold'' \<and> as_sampleInterval c' = v ''trigger_interval'' \<and> startTime c' = v ''start_time'' \<and>
       targetCount c' = to_int32 (v ''collect_times'') \<and> as_reportTimes c' = to_int32 (v ''report_times'') \<and>
       (\<forall>k\<in>set required_keys. 0 < v k))) \<and>
    config_ok (ReadAppStartConfig e s) \<and>
    (\<exists>a b. ReadAppStartConfig e s = s\<lparr>startSlowContent := a, scrollSlowContent := b\<rparr>)"
proof (intro conjI)
  show "config_ok (ReadAppStartConfig e s)" unfolding Read_lines by (rule config_ok_loop [OF assms])
  show "complete_line line \<longrightarrow>
      (let c' = UpdateAppStartContent (line_params line) c; v = (\<lambda>k. the (map_of (line_params line) k)) in
       threshold c' = v ''threshold'' \<and> as_sampleInterval c' = v ''trigger_interval'' \<and> startTime c' = v ''start_time'' \<and>
       targetCount c' = to_int32 (v ''collect_times'') \<and> as_reportTimes c' = to_int32 (v ''report_times'') \<and>
       (\<forall>k\<in>set required_keys. 0 < v k))"
    by (auto simp: complete_line_def required_keys_def UpdateAppStartContent_def getRequiredParam_def Let_def
        split: option.splits if_splits)
qed (simp_all only: Read_lines loop_enables config_frame_loop)

text \<open>A line with the five parameters, the number of samples being two to the power of 32: enabled, for no sample at all.\<close>

theorem app_start_config_sound_witness:
  "let line = start_line 450 150 4294967296 3 1700000000; c = UpdateAppStartContent (line_params line) AppStartContent_init in
   (\<forall>e. config_ok (ReadAppStartConfig e Sampling_init)) \<and> threshold c = 450 \<and> targetCount c = 0"
proof -
  let ?l = "start_line 450 150 4294967296 3 1700000000"
  have p: "line_params ?l = [(''threshold'', 450), (''trigger_interval'', 150), (''collect_times'', 4294967296),
      (''report_times'', 3), (''start_time'', 1700000000)]"
    using parse_token_show [of "''threshold''" 450] parse_token_show [of "''trigger_interval''" 150]
      parse_token_show [of "''collect_times''" 4294967296] parse_token_show [of "''report_times''" 3]
      parse_token_show [of "''start_time''" 1700000000]
    unfolding line_params_def SplitStr_fields concat_emit_all fields_start_line
    by (simp add: parse_token_event)
  have ok: "config_ok Sampling_init" by (simp add: config_ok_def Sampling_init_def content_ok_init)
  have c: "complete_line ?l" by (simp add: complete_line_def p required_keys_def getRequiredParam_def)
  have "to_int32 4294967296 = 0" by (simp add: to_int32_def)
  then show ?thesis
    using app_start_config_sound [OF ok, where line = ?l and c = AppStartContent_init] c by (simp add: p Let_def)
qed

text \<open>
  Round trip: a line that gives the five required parameters of the slow start-up event as
  positive numbers sets exactly them and enables the sampling.
\<close>

theorem app_start_line_roundtrip:
  assumes "0 < th" and "0 < ti" and "0 < ct" and "0 < rt" and "0 < st"
    and "int th \<le> INT64_MAX" and "int ti \<le> INT64_MAX" and "int ct \<le> INT32_MAX" and "int rt \<le> INT32_MAX"
    and "int st \<le> INT64_MAX"
  shows "ParseAppStartParams (start_line th ti ct rt st) ''APP_START_SLOW'' s =
    s\<lparr>startSlowContent := (startSlowContent s)\<lparr>threshold := int th, as_sampleInterval := int ti,
        targetCount := int ct, as_reportTimes := int rt, startTime := int st, enableStartSample := True\<rparr>\<rparr>"
proof -
  have "parse_tokens (SplitStr (start_line th ti ct rt st) '','' True False) [] =
      [(''threshold'', int th), (''trigger_interval'', int ti), (''collect_times'', int ct),
       (''report_times'', int rt), (''start_time'', int st)]"
    using assms parse_token_show [of "''threshold''" th] parse_token_show [of "''trigger_interval''" ti]
      parse_token_show [of "''collect_times''" ct] parse_token_show [of "''report_times''" rt]
      parse_token_show [of "''start_time''" st]
    unfolding SplitStr_fields concat_emit_all fields_start_line
    by (simp add: parse_token_event)
  moreover have "to_int32 (int ct) = int ct" "to_int32 (int rt) = int rt"
    using assms by (simp_all add: to_int32_def)
  ultimately show ?thesis
    using assms by (simp add: ParseAppStartParams_def APP_START_PARAM_SIZE_def UpdateAppStartContent_def
        getRequiredParam_def)
qed

theorem app_start_line_roundtrip_witness:
  "enableStartSample (startSlowContent
     (ParseAppStartParams (start_line 450 150 20 3 1700000000) ''APP_START_SLOW'' Sampling_init))"
  using app_start_line_roundtrip [of 450 150 20 3 1700000000 Sampling_init] by simp

end
