(* ===== verification/Watchdog_Inner.thy ===== *)
theory Watchdog_Inner
  imports Watchdog_Queue App_Start_Config
begin

text \<open>
  The operations of \<^verbatim>\<open>WatchdogInner\<close> on the task queue (\<^verbatim>\<open>watchdog_inner.cpp\<close>): registration of
  handler checks, one-shot and periodic tasks, timers and count timers, the IPC checks, removal and
  triggering, the creation of the watchdog thread, and the limit on callbacks. Each public operation
  runs under \<^verbatim>\<open>lock_\<close>, so it is one step of the interleavings studied in the theory of the loop.
  A \<open>stamp\<close> holds what one call reads: the tick, the boot and monotonic times and the thread id.
\<close>

section \<open>Model\<close>

record stamp =
  st_now :: u64
  st_times :: "u64 \<times> u64"
  st_tid :: int

definition INVALID_ID :: int where
  "INVALID_ID = - 1"

definition new_id :: "WatchdogInner \<Rightarrow> int \<times> WatchdogInner" where
  "new_id w = (curId w + 1, w\<lparr>curId := curId w + 1\<rparr>)"

definition new_checker :: "HandlerChecker \<Rightarrow> WatchdogInner \<Rightarrow> nat \<times> WatchdogInner" where
  "new_checker c w =
     (nextChecker w, w\<lparr>checkers := (checkers w)(nextChecker w := c), nextChecker := Suc (nextChecker w)\<rparr>)"

definition CreateWatchdogThreadIfNeed :: "env \<Rightarrow> WatchdogInner \<Rightarrow> WatchdogInner" where
  "CreateWatchdogThreadIfNeed e w =
     (if onceFlag w then w
      else let w0 = w\<lparr>onceFlag := True\<rparr> in
        if threadLoop w0 then w0
        else let w1 = emit (ESetMainLooperWatcher True) (w0\<lparr>mainRunner := True\<rparr>);
                 w2 = (if MIN_APP_UID \<le> getuid e
                       then w1\<lparr>sampling := ReadAppStartConfig e (sampling w1)\<rparr> else w1);
                 w3 = emit (ESetIPCProxyLimit 20000) w2
             in emit EStartThread (w3\<lparr>threadLoop := True\<rparr>))"

definition IsTaskExistLocked :: "string \<Rightarrow> WatchdogInner \<Rightarrow> bool" where
  "IsTaskExistLocked nm w \<longleftrightarrow> nm \<in> taskNameSet w"

definition IsExceedMaxTaskLocked :: "WatchdogInner \<Rightarrow> bool" where
  "IsExceedMaxTaskLocked w \<longleftrightarrow> MAX_WATCH_NUM \<le> length (checkerQueue w)"

definition InsertWatchdogTaskLocked ::
  "env \<Rightarrow> string \<Rightarrow> WatchdogTask \<Rightarrow> WatchdogInner \<Rightarrow> int \<times> WatchdogInner" where
  "InsertWatchdogTaskLocked e nm t w =
     (if \<not> isOneshotTask t \<and> IsTaskExistLocked nm w then (0, w)
      else if IsExceedMaxTaskLocked w then (0, w)
      else let w1 = w\<lparr>checkerQueue := pq_push t (checkerQueue w)\<rparr>;
               w2 = (if \<not> isOneshotTask t then w1\<lparr>taskNameSet := insert nm (taskNameSet w1)\<rparr> else w1);
               w3 = CreateWatchdogThreadIfNeed e w2;
               w4 = (if nextTickTime t < nextWeakUpTime w3 then emit ENotifyAll w3 else w3)
           in (task_id t, w4))"

definition PRIORITY_MAX :: nat where
  "PRIORITY_MAX = 4"

definition AddThread ::
  "env \<Rightarrow> stamp \<Rightarrow> string \<Rightarrow> nat option \<Rightarrow> nat option \<Rightarrow> u64 \<Rightarrow> nat \<Rightarrow> WatchdogInner \<Rightarrow> int \<times> WatchdogInner" where
  "AddThread e st nm handler cb interval priority w =
     (if nm = [] \<or> handler = None then (- 1, w)
      else if IsInAppspwan e then (- 1, w)
      else let limitedName = GetLimitedSizeName nm in
        if priority > PRIORITY_MAX then (- 1, w)
        else let (cid, w1) = new_id w;
                 (chk, w2) = new_checker (HandlerChecker_prio limitedName handler priority) w1;
                 (r, w3) = InsertWatchdogTaskLocked e limitedName
                   (WatchdogTask_handler e cid (st_now st) (st_times st) limitedName chk cb interval) w2
             in (if r = 0 then - 1 else 0, w3))"

definition RunOneShotTask ::
  "env \<Rightarrow> stamp \<Rightarrow> string \<Rightarrow> task_fn option \<Rightarrow> u64 \<Rightarrow> WatchdogInner \<Rightarrow> WatchdogInner" where
  "RunOneShotTask e st nm tsk delay w =
     (if nm = [] \<or> tsk = None then w
      else if IsInAppspwan e then w
      else let limitedName = GetLimitedSizeName nm; (cid, w1) = new_id w
           in snd (InsertWatchdogTaskLocked e limitedName
                (WatchdogTask_task e cid (st_now st) (st_times st) limitedName tsk delay 0 True) w1))"

definition RunXCollieTask ::
  "env \<Rightarrow> stamp \<Rightarrow> string \<Rightarrow> u64 \<Rightarrow> nat option \<Rightarrow> nat \<Rightarrow> u32 \<Rightarrow> WatchdogInner \<Rightarrow> int \<times> WatchdogInner" where
  "RunXCollieTask e st nm timeout fn arg flag w =
     (if nm = [] \<or> timeout = 0 then (INVALID_ID, w)
      else if IsInAppspwan e then (INVALID_ID, w)
      else let limitedName = GetLimitedSizeName nm; (cid, w1) = new_id w
           in InsertWatchdogTaskLocked e limitedName
                (WatchdogTask_xcollie e cid (st_now st) (st_times st) (st_tid st) limitedName
                   (ucast timeout) fn arg flag) w1)"

definition RemoveXCollieTask :: "int \<Rightarrow> WatchdogInner \<Rightarrow> WatchdogInner" where
  "RemoveXCollieTask i w =
     (if checkerQueue w = [] then w
      else w\<lparr>checkerQueue := snd (pq_drain
             (\<lambda>(_::unit) t. ((), if task_id t \<noteq> i \<or> task_timeout t = 0 then Some t else None))
             () (checkerQueue w) [])\<rparr>)"

definition RunPeriodicalTask ::
  "env \<Rightarrow> stamp \<Rightarrow> string \<Rightarrow> task_fn option \<Rightarrow> u64 \<Rightarrow> u64 \<Rightarrow> WatchdogInner \<Rightarrow> WatchdogInner" where
  "RunPeriodicalTask e st nm tsk interval delay w =
     (if nm = [] \<or> tsk = None then w
      else if IsInAppspwan e then w
      else let limitedName = GetLimitedSizeName nm; (cid, w1) = new_id w
           in snd (InsertWatchdogTaskLocked e limitedName
                (WatchdogTask_task e cid (st_now st) (st_times st) limitedName tsk delay interval False) w1))"

definition SetTimerCountTask ::
  "env \<Rightarrow> stamp \<Rightarrow> string \<Rightarrow> u64 \<Rightarrow> int \<Rightarrow> WatchdogInner \<Rightarrow> int \<times> WatchdogInner" where
  "SetTimerCountTask e st nm tlim clim w =
     (if nm = [] \<or> tlim = 0 \<or> clim \<le> 0 then (INVALID_ID, w)
      else if IsInAppspwan e then (INVALID_ID, w)
      else let limitedName = GetLimitedSizeName nm; (cid, w1) = new_id w
           in InsertWatchdogTaskLocked e limitedName
                (WatchdogTask_timer e cid (st_now st) (st_times st) limitedName (ucast tlim) clim) w1)"

definition TriggerTimerCountTask ::
  "u64 \<Rightarrow> string \<Rightarrow> bool \<Rightarrow> string \<Rightarrow> WatchdogInner \<Rightarrow> WatchdogInner" where
  "TriggerTimerCountTask now nm bTrigger msg w =
     (if checkerQueue w = [] then w
      else w\<lparr>checkerQueue := snd (pq_drain
             (\<lambda>(_::unit) t. ((), Some (
                if task_name t = nm then
                  (if bTrigger then t\<lparr>triggerTimes := triggerTimes t @ [now], task_message := msg\<rparr>
                   else t\<lparr>triggerTimes := []\<rparr>)
                else t)))
             () (checkerQueue w) [])\<rparr>)"

definition RemoveInnerTask :: "string \<Rightarrow> WatchdogInner \<Rightarrow> bool \<times> WatchdogInner" where
  "RemoveInnerTask nm w =
     (if nm = [] then (False, w)
      else if checkerQueue w = [] then (False, w)
      else let (names, tmp) = pq_drain
                 (\<lambda>names t. if task_name t \<noteq> nm then (names, Some t)
                            else (if names \<noteq> {} \<and> \<not> isOneshotTask t then names - {nm} else names, None))
                 (taskNameSet w) (checkerQueue w) [];
               w1 = w\<lparr>checkerQueue := tmp, taskNameSet := names\<rparr>
           in (length tmp \<noteq> length (checkerQueue w), w1))"

definition XCOLLIE_CALLBACK_HISTORY_MAX :: int where "XCOLLIE_CALLBACK_HISTORY_MAX = 5"
definition XCOLLIE_CALLBACK_TIMEWIN_MAX :: int where "XCOLLIE_CALLBACK_TIMEWIN_MAX = 60"

definition IsCallbackLimit :: "u32 \<Rightarrow> int \<Rightarrow> WatchdogInner \<Rightarrow> bool \<times> WatchdogInner" where
  "IsCallbackLimit flag startT w =
     (if \<not> flag_log flag then (False, w)
      else if timeCallback w + XCOLLIE_CALLBACK_TIMEWIN_MAX < startT
        then (False, w\<lparr>timeCallback := startT\<rparr>)
      else (cntCallback w + 1 > XCOLLIE_CALLBACK_HISTORY_MAX, w\<lparr>cntCallback := cntCallback w + 1\<rparr>))"

definition TO_MILLISECOND_MULTPLE :: u64 where "TO_MILLISECOND_MULTPLE = 1000"
definition JOIN_IPC_FULL_UIDS :: "nat list" where
  "JOIN_IPC_FULL_UIDS = [AUDIO_SERVER_UID, DATA_MANAGE_SERVICE_UID, FOUNDATION_UID, RENDER_SERVICE_UID]"

text \<open>\<open>fresh\<close> is the handler the checker of the IPC task creates for itself.\<close>

definition IpcCheck ::
  "env \<Rightarrow> stamp \<Rightarrow> nat \<Rightarrow> u64 \<Rightarrow> u32 \<Rightarrow> nat option \<Rightarrow> nat \<Rightarrow> bool \<Rightarrow> WatchdogInner \<Rightarrow> bool \<times> WatchdogInner" where
  "IpcCheck e st fresh interval flag fn arg defaultType w =
     (if defaultType \<and> getuid e \<notin> set JOIN_IPC_FULL_UIDS \<and> selfProcName e \<noteq> KEY_SCB_STATE then (False, w)
      else let (cid, w1) = new_id w;
               (chk, w2) = new_checker (HandlerChecker_ipc IPC_FULL_TASK None fresh) w1;
               (r, w3) = InsertWatchdogTaskLocked e IPC_FULL_TASK
                 (WatchdogTask_ipc e cid (st_now st) (st_times st) chk (interval * TO_MILLISECOND_MULTPLE)
                    0 fn arg flag) w2
           in (r > 0, w3))"

definition MIN_IPC_CHECK_INTERVAL :: u64 where "MIN_IPC_CHECK_INTERVAL = 10"
definition MAX_IPC_CHECK_INTERVAL :: u64 where "MAX_IPC_CHECK_INTERVAL = 30"

definition AddIpcFull ::
  "env \<Rightarrow> stamp \<Rightarrow> nat \<Rightarrow> u64 \<Rightarrow> u32 \<Rightarrow> nat option \<Rightarrow> nat \<Rightarrow> WatchdogInner \<Rightarrow> bool \<times> WatchdogInner" where
  "AddIpcFull e st fresh interval flag fn arg w =
     (if interval < MIN_IPC_CHECK_INTERVAL \<or> interval > MAX_IPC_CHECK_INTERVAL then (False, w)
      else if IsInAppspwan e then (False, w)
      else IpcCheck e st fresh interval flag fn arg False w)"

definition BINDER_SPACE_FULL_MIN_COUNT :: u32 where "BINDER_SPACE_FULL_MIN_COUNT = 2"
definition BINDER_SPACE_FULL_MAX_COUNT :: u32 where "BINDER_SPACE_FULL_MAX_COUNT = 10"
definition BINDER_SPACE_FULL_MIN_INTERVAL :: u64 where "BINDER_SPACE_FULL_MIN_INTERVAL = 5"
definition BINDER_SPACE_FULL_MAX_INTERVAL :: u64 where "BINDER_SPACE_FULL_MAX_INTERVAL = 30"

definition AsyncBinderSpaceFull ::
  "env \<Rightarrow> stamp \<Rightarrow> u64 \<Rightarrow> u32 \<Rightarrow> u32 \<Rightarrow> nat option \<Rightarrow> nat \<Rightarrow> WatchdogInner \<Rightarrow> bool \<times> WatchdogInner" where
  "AsyncBinderSpaceFull e st interval cnt flag fn arg w =
     (if \<not> isBetaVersion e then (False, w)
      else if cnt < BINDER_SPACE_FULL_MIN_COUNT \<or> cnt > BINDER_SPACE_FULL_MAX_COUNT then (False, w)
      else if interval < BINDER_SPACE_FULL_MIN_INTERVAL \<or> interval > BINDER_SPACE_FULL_MAX_INTERVAL
        then (False, w)
      else let (cid, w1) = new_id w;
               (r, w2) = InsertWatchdogTaskLocked e ASYNC_BINDER_SPACE_FULL_TASK
                 (WatchdogTask_ipc e cid (st_now st) (st_times st) 0 (interval * TO_MILLISECOND_MULTPLE)
                    cnt fn arg flag) w1
           in (r > 0, w2))"

definition KICK_WATCHDOG_INTERVAL :: u64 where "KICK_WATCHDOG_INTERVAL = 30 * 1000"

definition AddKickWatchdog :: "env \<Rightarrow> stamp \<Rightarrow> WatchdogInner \<Rightarrow> WatchdogInner" where
  "AddKickWatchdog e st w =
     (let kick = (getuid e = FOUNDATION_UID \<or>
                  KICK_WATCHDOG_ENABLE e \<and> getuid e = MEDIA_SERVICE_UID \<and> selfProcName e = ''media_service'');
          w1 = w\<lparr>g_kickWatchdog := kick\<rparr>
      in if \<not> kick then w1
         else RunPeriodicalTask e st KICK_WATCHDOG_TASK (Some KickTask) KICK_WATCHDOG_INTERVAL 0 w1)"

definition DEFAULT_IPC_FULL_INTERVAL :: u64 where "DEFAULT_IPC_FULL_INTERVAL = 30"

definition InitDefaultTask :: "env \<Rightarrow> stamp \<Rightarrow> stamp \<Rightarrow> nat \<Rightarrow> WatchdogInner \<Rightarrow> WatchdogInner" where
  "InitDefaultTask e st st' fresh w =
     AddKickWatchdog e st'
       (snd (IpcCheck e st fresh DEFAULT_IPC_FULL_INTERVAL XCOLLIE_FLAG_DEFAULT None 0 True w))"

definition InitFfrtWatchdog :: "env \<Rightarrow> WatchdogInner \<Rightarrow> WatchdogInner" where
  "InitFfrtWatchdog e w =
     emit (ESetFfrtTimeout (FFRT_CALLBACK_TIME e)) (CreateWatchdogThreadIfNeed e w)"

text \<open>
  \<^verbatim>\<open>Stop\<close> asks the thread to end, wakes it, and joins it: \<open>Stop_join\<close> happens when the thread has
  ended, other threads may run in between.
\<close>

definition Stop_request :: "WatchdogInner \<Rightarrow> WatchdogInner" where
  "Stop_request w =
     (let w1 = emit (ESetIPCProxyLimit 0) w;
          w2 = (if mainRunner w1 then emit (ESetMainLooperWatcher False) w1 else w1)
      in emit ENotifyAll (w2\<lparr>isNeedStop := True\<rparr>))"

definition Stop_join :: "WatchdogInner \<Rightarrow> WatchdogInner" where
  "Stop_join w = w\<lparr>threadLoop := False, g_fd := - 1\<rparr>"

definition Stop :: "WatchdogInner \<Rightarrow> WatchdogInner" where
  "Stop w = Stop_join (Stop_request w)"

lemmas Stop_defs = Stop_def Stop_join_def Stop_request_def Let_def

section \<open>What the operations keep\<close>

text \<open>The part of the state that no queue operation but those on the queue itself touches.\<close>

lemma Create_sel [simp]:
  "checkerQueue (CreateWatchdogThreadIfNeed e w) = checkerQueue w"
  "taskNameSet (CreateWatchdogThreadIfNeed e w) = taskNameSet w"
  "curId (CreateWatchdogThreadIfNeed e w) = curId w"
  "isNeedStop (CreateWatchdogThreadIfNeed e w) = isNeedStop w"
  "nextWeakUpTime (CreateWatchdogThreadIfNeed e w) = nextWeakUpTime w"
  "onceFlag (CreateWatchdogThreadIfNeed e w)"
  "checkers (CreateWatchdogThreadIfNeed e w) = checkers w"
  "nextChecker (CreateWatchdogThreadIfNeed e w) = nextChecker w"
  by (simp_all add: CreateWatchdogThreadIfNeed_def emit_def Let_def)

lemma emit_sel [simp]:
  "checkerQueue (emit x w) = checkerQueue w" "taskNameSet (emit x w) = taskNameSet w"
  "curId (emit x w) = curId w" "isNeedStop (emit x w) = isNeedStop w"
  "nextWeakUpTime (emit x w) = nextWeakUpTime w" "onceFlag (emit x w) = onceFlag w"
  "threadLoop (emit x w) = threadLoop w" "checkers (emit x w) = checkers w"
  "nextChecker (emit x w) = nextChecker w" "out (emit x w) = out w @ [x]"
  "cntCallback (emit x w) = cntCallback w" "timeCallback (emit x w) = timeCallback w"
  "sampling (emit x w) = sampling w" "stacks (emit x w) = stacks w" "counters (emit x w) = counters w"
  "nextCounter (emit x w) = nextCounter w" "mainRunner (emit x w) = mainRunner w"
  by (simp_all add: emit_def)

lemma new_sel [simp]:
  "fst (new_id w) = curId w + 1" "checkerQueue (snd (new_id w)) = checkerQueue w"
  "taskNameSet (snd (new_id w)) = taskNameSet w" "curId (snd (new_id w)) = curId w + 1"
  "onceFlag (snd (new_id w)) = onceFlag w" "threadLoop (snd (new_id w)) = threadLoop w"
  "checkerQueue (snd (new_checker c w)) = checkerQueue w"
  "taskNameSet (snd (new_checker c w)) = taskNameSet w" "curId (snd (new_checker c w)) = curId w"
  "onceFlag (snd (new_checker c w)) = onceFlag w" "threadLoop (snd (new_checker c w)) = threadLoop w"
  "isNeedStop (snd (new_id w)) = isNeedStop w" "isNeedStop (snd (new_checker c w)) = isNeedStop w"
  by (simp_all add: new_id_def new_checker_def)

text \<open>An insertion is refused, or it adds the task and registers the name of a repeating one.\<close>

definition insert_refused :: "string \<Rightarrow> WatchdogTask \<Rightarrow> WatchdogInner \<Rightarrow> bool" where
  "insert_refused nm t w \<longleftrightarrow>
     \<not> isOneshotTask t \<and> nm \<in> taskNameSet w \<or> MAX_WATCH_NUM \<le> length (checkerQueue w)"

lemma Insert_refused: "insert_refused nm t w \<Longrightarrow> InsertWatchdogTaskLocked e nm t w = (0, w)"
  by (auto simp: insert_refused_def InsertWatchdogTaskLocked_def IsTaskExistLocked_def IsExceedMaxTaskLocked_def)

lemma Insert_accepted:
  assumes "\<not> insert_refused nm t w"
  shows "fst (InsertWatchdogTaskLocked e nm t w) = task_id t"
    and "checkerQueue (snd (InsertWatchdogTaskLocked e nm t w)) = pq_push t (checkerQueue w)"
    and "taskNameSet (snd (InsertWatchdogTaskLocked e nm t w)) =
      (if isOneshotTask t then taskNameSet w else insert nm (taskNameSet w))"
    and "curId (snd (InsertWatchdogTaskLocked e nm t w)) = curId w"
    and "length (checkerQueue w) < MAX_WATCH_NUM"
    and "onceFlag (snd (InsertWatchdogTaskLocked e nm t w))"
  using assms
  by (auto simp: insert_refused_def InsertWatchdogTaskLocked_def IsTaskExistLocked_def
      IsExceedMaxTaskLocked_def Let_def)

lemma isNeedStop_Insert [simp]: "isNeedStop (snd (InsertWatchdogTaskLocked e nm t w)) = isNeedStop w"
  by (simp add: InsertWatchdogTaskLocked_def Let_def)

section \<open>Changes of the queue\<close>

text \<open>
  What one operation may do to the queue, the names and the id counter: nothing but drawing an id,
  inserting a task with the id just drawn, removing tasks together with the names of the repeating
  ones, or editing tasks without touching what identifies and orders them. No operation but the
  request to stop touches the flag for it.
\<close>

definition same_key :: "WatchdogTask \<Rightarrow> WatchdogTask \<Rightarrow> bool" where
  "same_key t t' \<longleftrightarrow> task_id t' = task_id t \<and> task_name t' = task_name t \<and>
     isOneshotTask t' = isOneshotTask t \<and> nextTickTime t' = nextTickTime t \<and>
     checkInterval t' = checkInterval t"

inductive queue_change :: "WatchdogInner \<Rightarrow> WatchdogInner \<Rightarrow> bool" where
  draw: "checkerQueue w' = checkerQueue w \<Longrightarrow> taskNameSet w' = taskNameSet w \<Longrightarrow>
    curId w \<le> curId w' \<Longrightarrow> isNeedStop w' = isNeedStop w \<Longrightarrow> queue_change w w'"
| insertion: "checkerQueue w' = pq_push t (checkerQueue w) \<Longrightarrow> curId w' = curId w + 1 \<Longrightarrow>
    task_id t = curId w + 1 \<Longrightarrow> length (checkerQueue w) < MAX_WATCH_NUM \<Longrightarrow>
    (\<not> isOneshotTask t \<longrightarrow> task_name t \<notin> taskNameSet w) \<Longrightarrow>
    taskNameSet w' = (if isOneshotTask t then taskNameSet w else insert (task_name t) (taskNameSet w)) \<Longrightarrow>
    isNeedStop w' = isNeedStop w \<Longrightarrow> queue_change w w'"
| removal: "mset (checkerQueue w') \<subseteq># mset (checkerQueue w) \<Longrightarrow> pq_inv (checkerQueue w') \<Longrightarrow>
    curId w' = curId w \<Longrightarrow> taskNameSet w' \<subseteq> taskNameSet w \<Longrightarrow>
    (\<forall>t \<in> set (checkerQueue w'). task_name t \<in> taskNameSet w \<longrightarrow> task_name t \<in> taskNameSet w') \<Longrightarrow>
    isNeedStop w' = isNeedStop w \<Longrightarrow> queue_change w w'"
| edit: "mset (checkerQueue w') = image_mset f (mset (checkerQueue w)) \<Longrightarrow>
    pq_inv (checkerQueue w') \<Longrightarrow> (\<And>t. same_key t (f t)) \<Longrightarrow> curId w' = curId w \<Longrightarrow>
    taskNameSet w' = taskNameSet w \<Longrightarrow> isNeedStop w' = isNeedStop w \<Longrightarrow> queue_change w w'"

lemma queue_change_insert:
  assumes "curId w0 = curId w + 1" and "checkerQueue w0 = checkerQueue w" and "taskNameSet w0 = taskNameSet w"
    and "isNeedStop w0 = isNeedStop w" and "task_id t = curId w + 1" and "task_name t = nm"
  shows "queue_change w (snd (InsertWatchdogTaskLocked e nm t w0))"
proof (cases "insert_refused nm t w0")
  case True
  then show ?thesis using assms by (simp add: Insert_refused queue_change.draw)
next
  case False
  from Insert_accepted [OF this] assms False show ?thesis
    by (auto simp: insert_refused_def intro!: queue_change.insertion [of _ t])
qed

lemma queue_change_refl: "queue_change w w"
  by (rule queue_change.draw) auto

lemma drain_filter_mset:
  "mset (snd (pq_drain (\<lambda>(_::unit) t. ((), if P t then Some t else None)) () q [])) = mset (filter P q)"
proof -
  have "mset (snd (pq_drain (\<lambda>(_::unit) t. ((), if P t then Some t else None)) () q [])) =
      mset [] + mset (List.map_filter (\<lambda>t. if P t then Some t else None) q)"
    by (rule pq_drain_mset) simp
  then show ?thesis by (simp add: map_filter_filter)
qed

lemma drain_map_mset:
  "mset (snd (pq_drain (\<lambda>(_::unit) t. ((), Some (g t))) () q [])) = mset (map g q)"
proof -
  have "mset (snd (pq_drain (\<lambda>(_::unit) t. ((), Some (g t))) () q [])) =
      mset [] + mset (List.map_filter (\<lambda>t. Some (g t)) q)"
    by (rule pq_drain_mset) simp
  then show ?thesis by (simp add: map_filter_map)
qed

lemma RemoveXCollie_mset:
  "mset (checkerQueue (RemoveXCollieTask i w)) =
    filter_mset (\<lambda>t. task_id t \<noteq> i \<or> task_timeout t = 0) (mset (checkerQueue w))"
  by (simp add: RemoveXCollieTask_def drain_filter_mset)

lemma RemoveXCollie_sel [simp]:
  "taskNameSet (RemoveXCollieTask i w) = taskNameSet w" "curId (RemoveXCollieTask i w) = curId w"
  "pq_inv (checkerQueue (RemoveXCollieTask i w))" "isNeedStop (RemoveXCollieTask i w) = isNeedStop w"
  by (simp_all add: RemoveXCollieTask_def pq_drain_inv)

lemma queue_change_RemoveXCollie: "queue_change w (RemoveXCollieTask i w)"
  by (rule queue_change.removal) (simp_all add: RemoveXCollie_mset)

definition trigger_one :: "u64 \<Rightarrow> string \<Rightarrow> bool \<Rightarrow> string \<Rightarrow> WatchdogTask \<Rightarrow> WatchdogTask" where
  "trigger_one now nm b msg t =
     (if task_name t = nm then
        (if b then t\<lparr>triggerTimes := triggerTimes t @ [now], task_message := msg\<rparr>
         else t\<lparr>triggerTimes := []\<rparr>)
      else t)"

lemma Trigger_mset:
  "mset (checkerQueue (TriggerTimerCountTask now nm b msg w)) =
    image_mset (trigger_one now nm b msg) (mset (checkerQueue w))"
  by (simp add: TriggerTimerCountTask_def trigger_one_def [symmetric] drain_map_mset)

lemma Trigger_sel [simp]:
  "taskNameSet (TriggerTimerCountTask now nm b msg w) = taskNameSet w"
  "curId (TriggerTimerCountTask now nm b msg w) = curId w"
  "pq_inv (checkerQueue (TriggerTimerCountTask now nm b msg w))"
  "isNeedStop (TriggerTimerCountTask now nm b msg w) = isNeedStop w"
  by (simp_all add: TriggerTimerCountTask_def pq_drain_inv)

lemma queue_change_Trigger: "queue_change w (TriggerTimerCountTask now nm b msg w)"
  by (rule queue_change.edit [OF Trigger_mset]) (simp_all add: same_key_def trigger_one_def)

text \<open>The removal by name: the queue keeps the other tasks; the name goes with a repeating task.\<close>

lemma RemoveInner_nop: "nm = [] \<or> checkerQueue w = [] \<Longrightarrow> RemoveInnerTask nm w = (False, w)"
  by (auto simp: RemoveInnerTask_def)

definition drop_name :: "string \<Rightarrow> WatchdogTask \<Rightarrow> string set \<Rightarrow> string set" where
  "drop_name nm t names =
     (if task_name t = nm \<and> names \<noteq> {} \<and> \<not> isOneshotTask t then names - {nm} else names)"

lemma fold_drop_name:
  "fold (drop_name nm) q names =
    (if \<exists>t \<in> set q. task_name t = nm \<and> \<not> isOneshotTask t then names - {nm} else names)"
proof (induction q arbitrary: names)
  case (Cons t q)
  then show ?case by (auto simp: drop_name_def)
qed simp

lemma RemoveInner_spec:
  assumes "nm \<noteq> []" and "checkerQueue w \<noteq> []"
  shows "mset (checkerQueue (snd (RemoveInnerTask nm w))) = filter_mset (\<lambda>t. task_name t \<noteq> nm) (mset (checkerQueue w))"
    and "taskNameSet (snd (RemoveInnerTask nm w)) =
      (if \<exists>t \<in> set (checkerQueue w). task_name t = nm \<and> \<not> isOneshotTask t
       then taskNameSet w - {nm} else taskNameSet w)"
    and "fst (RemoveInnerTask nm w) \<longleftrightarrow> (\<exists>t \<in> set (checkerQueue w). task_name t = nm)"
    and "pq_inv (checkerQueue (snd (RemoveInnerTask nm w)))"
    and "curId (snd (RemoveInnerTask nm w)) = curId w"
proof -
  define f where "f = (\<lambda>names (t :: WatchdogTask). if task_name t \<noteq> nm then (names, Some t)
    else (if names \<noteq> {} \<and> \<not> isOneshotTask t then names - {nm} else names, None))"
  obtain names tmp where d: "pq_drain f (taskNameSet w) (checkerQueue w) [] = (names, tmp)" by fastforce
  have eq: "RemoveInnerTask nm w =
      (length tmp \<noteq> length (checkerQueue w), w\<lparr>checkerQueue := tmp, taskNameSet := names\<rparr>)"
    using assms d by (simp add: RemoveInnerTask_def f_def [symmetric])
  have "mset (snd (pq_drain f (taskNameSet w) (checkerQueue w) [])) =
      mset [] + mset (List.map_filter (\<lambda>t. if task_name t \<noteq> nm then Some t else None) (checkerQueue w))"
    by (rule pq_drain_mset) (auto simp: f_def)
  then have tmp: "mset tmp = mset (filter (\<lambda>t. task_name t \<noteq> nm) (checkerQueue w))"
    by (simp add: d map_filter_filter)
  have "fst (pq_drain f (taskNameSet w) (checkerQueue w) []) = fold (drop_name nm) (checkerQueue w) (taskNameSet w)"
    by (rule pq_drain_state) (auto simp: f_def drop_name_def)
  then have names: "names = fold (drop_name nm) (checkerQueue w) (taskNameSet w)" by (simp add: d)
  show "mset (checkerQueue (snd (RemoveInnerTask nm w))) = filter_mset (\<lambda>t. task_name t \<noteq> nm) (mset (checkerQueue w))"
    using tmp by (simp add: eq)
  show "taskNameSet (snd (RemoveInnerTask nm w)) =
      (if \<exists>t \<in> set (checkerQueue w). task_name t = nm \<and> \<not> isOneshotTask t
       then taskNameSet w - {nm} else taskNameSet w)"
    by (simp add: eq names fold_drop_name)
  have "length tmp = length (filter (\<lambda>t. task_name t \<noteq> nm) (checkerQueue w))"
    using tmp by (metis size_mset)
  then have "length tmp = length (checkerQueue w) \<longleftrightarrow> (\<forall>t \<in> set (checkerQueue w). task_name t \<noteq> nm)"
    by (metis (mono_tags, lifting) filter_id_conv length_filter_less nat_neq_iff)
  then show "fst (RemoveInnerTask nm w) \<longleftrightarrow> (\<exists>t \<in> set (checkerQueue w). task_name t = nm)"
    by (simp add: eq)
  show "pq_inv (checkerQueue (snd (RemoveInnerTask nm w)))"
    using pq_drain_inv [of "[]" f "taskNameSet w" "checkerQueue w"] by (simp add: eq d)
  show "curId (snd (RemoveInnerTask nm w)) = curId w" by (simp add: eq)
qed

lemma isNeedStop_RemoveInner [simp]: "isNeedStop (snd (RemoveInnerTask nm w)) = isNeedStop w"
  by (simp add: RemoveInnerTask_def Let_def split_beta)

lemma queue_change_RemoveInner: "queue_change w (snd (RemoveInnerTask nm w))"
proof (cases "nm = [] \<or> checkerQueue w = []")
  case True
  then show ?thesis by (simp add: RemoveInner_nop queue_change_refl)
next
  case False
  then have n: "nm \<noteq> []" "checkerQueue w \<noteq> []" by auto
  have "set (checkerQueue (snd (RemoveInnerTask nm w))) = {t \<in> set (checkerQueue w). task_name t \<noteq> nm}"
    using arg_cong [OF RemoveInner_spec(1) [OF n], of set_mset] by auto
  then show ?thesis
    using RemoveInner_spec [OF n] by (intro queue_change.removal) auto
qed

section \<open>The public operations\<close>

text \<open>
  The calls that clients make from any thread, each under the lock. \<open>CStop\<close> is left out: it ends
  the thread.
\<close>

datatype api =
    CAddThread string "nat option" "nat option" u64 nat
  | COneShot string "task_fn option" u64
  | CPeriodical string "task_fn option" u64 u64
  | CXCollie string u64 "nat option" nat u32
  | CRemoveXCollie int
  | CTimerCount string u64 int
  | CTrigger string bool string
  | CRemoveInner string
  | CAddIpcFull nat u64 u32 "nat option" nat
  | CBinderSpace u64 u32 u32 "nat option" nat

fun api_exec :: "env \<Rightarrow> stamp \<Rightarrow> api \<Rightarrow> WatchdogInner \<Rightarrow> WatchdogInner" where
  "api_exec e st (CAddThread nm h cb i p) w = snd (AddThread e st nm h cb i p w)"
| "api_exec e st (COneShot nm tsk d) w = RunOneShotTask e st nm tsk d w"
| "api_exec e st (CPeriodical nm tsk i d) w = RunPeriodicalTask e st nm tsk i d w"
| "api_exec e st (CXCollie nm t f a fl) w = snd (RunXCollieTask e st nm t f a fl w)"
| "api_exec e st (CRemoveXCollie i) w = RemoveXCollieTask i w"
| "api_exec e st (CTimerCount nm t c) w = snd (SetTimerCountTask e st nm t c w)"
| "api_exec e st (CTrigger nm b m) w = TriggerTimerCountTask (st_now st) nm b m w"
| "api_exec e st (CRemoveInner nm) w = snd (RemoveInnerTask nm w)"
| "api_exec e st (CAddIpcFull fr i fl f a) w = snd (AddIpcFull e st fr i fl f a w)"
| "api_exec e st (CBinderSpace i c fl f a) w = snd (AsyncBinderSpaceFull e st i c fl f a w)"

lemma queue_change_AddThread: "queue_change w (snd (AddThread e st nm h cb i p w))"
  by (auto simp: AddThread_def Let_def split_beta queue_change_refl task_constructors
      intro!: queue_change_insert)

lemma queue_change_OneShot: "queue_change w (RunOneShotTask e st nm tsk d w)"
  by (auto simp: RunOneShotTask_def Let_def split_beta queue_change_refl task_constructors
      intro!: queue_change_insert)

lemma queue_change_Periodical: "queue_change w (RunPeriodicalTask e st nm tsk i d w)"
  by (auto simp: RunPeriodicalTask_def Let_def split_beta queue_change_refl task_constructors
      intro!: queue_change_insert)

lemma queue_change_XCollie: "queue_change w (snd (RunXCollieTask e st nm t f a fl w))"
  by (auto simp: RunXCollieTask_def Let_def split_beta queue_change_refl task_constructors
      intro!: queue_change_insert)

lemma queue_change_TimerCount: "queue_change w (snd (SetTimerCountTask e st nm t c w))"
  by (auto simp: SetTimerCountTask_def Let_def split_beta queue_change_refl task_constructors
      intro!: queue_change_insert)

lemma queue_change_Ipc: "queue_change w (snd (IpcCheck e st fr i fl f a d w))"
  by (auto simp: IpcCheck_def Let_def split_beta queue_change_refl task_constructors
      intro!: queue_change_insert)

lemma queue_change_AddIpc: "queue_change w (snd (AddIpcFull e st fr i fl f a w))"
  by (auto simp: AddIpcFull_def queue_change_refl queue_change_Ipc)

lemma queue_change_Binder: "queue_change w (snd (AsyncBinderSpaceFull e st i c fl f a w))"
  by (auto simp: AsyncBinderSpaceFull_def Let_def split_beta queue_change_refl task_constructors
      BINDER_SPACE_FULL_MIN_COUNT_def word_less_nat_alt intro!: queue_change_insert)

lemmas queue_changes = queue_change_AddThread queue_change_OneShot queue_change_Periodical
  queue_change_XCollie queue_change_RemoveXCollie queue_change_TimerCount queue_change_Trigger
  queue_change_RemoveInner queue_change_AddIpc queue_change_Binder

lemma queue_change_api: "queue_change w (api_exec e st a w)"
  by (cases a) (simp_all add: queue_changes)

section \<open>The invariant of the queue\<close>

text \<open>
  \<open>fl\<close> is the task being run by the watchdog thread, if any: it is not in the queue. The queue is
  ordered, ids are unique and were drawn from the counter, and at most one task more than
  \<^verbatim>\<open>MAX_WATCH_NUM\<close> exists.
\<close>

definition wd_inv :: "WatchdogTask list \<Rightarrow> WatchdogInner \<Rightarrow> bool" where
  "wd_inv fl w \<longleftrightarrow> pq_inv (checkerQueue w) \<and> length fl \<le> 1 \<and>
     length fl + length (checkerQueue w) \<le> MAX_WATCH_NUM + 1 \<and>
     distinct (map task_id (fl @ checkerQueue w)) \<and>
     (\<forall>t \<in> set (fl @ checkerQueue w). 0 < task_id t \<and> task_id t \<le> curId w) \<and> 0 \<le> curId w"

lemma wd_inv_init: "wd_inv [] WatchdogInner_init"
  by (simp add: wd_inv_def WatchdogInner_init_def)

lemma distinct_count: "distinct xs \<longleftrightarrow> (\<forall>i. count (mset xs) i \<le> 1)"
proof (induction xs)
  case (Cons x xs)
  have "(\<forall>i. count (mset (x # xs)) i \<le> 1) \<longleftrightarrow> count (mset xs) x = 0 \<and> (\<forall>i. count (mset xs) i \<le> 1)"
    by (auto simp: le_Suc_eq)
  with Cons show ?case by (simp add: count_eq_zero_iff)
qed simp

lemma distinct_submset:
  assumes "mset ys \<subseteq># mset xs" and "distinct (map f (fl @ xs))"
  shows "distinct (map f (fl @ ys))"
proof -
  have "mset (map f (fl @ ys)) \<subseteq># mset (map f (fl @ xs))"
    using image_mset_subseteq_mono [OF assms(1), of f] by simp
  then show ?thesis
    using assms(2) unfolding distinct_count by (meson mset_subset_eq_count order_trans)
qed

lemma distinct_same_mset:
  assumes "image_mset f (mset ys) = image_mset f (mset xs)" and "distinct (map f (fl @ xs))"
  shows "distinct (map f (fl @ ys))"
  using assms by (simp add: distinct_count)

lemma wd_inv_old: "wd_inv fl w \<Longrightarrow> x \<in> set (fl @ checkerQueue w) \<Longrightarrow> task_id x \<le> curId w"
  unfolding wd_inv_def by blast

lemma wd_inv_change:
  assumes "queue_change w w'" and inv: "wd_inv fl w"
  shows "wd_inv fl w'"
  using assms(1)
proof cases
  case draw
  then show ?thesis using inv unfolding wd_inv_def by (auto intro: order_trans)
next
  case (insertion t)
  have "task_id x \<noteq> task_id t" if "x \<in> set (fl @ checkerQueue w)" for x
  proof -
    have "task_id x \<le> curId w" using inv that unfolding wd_inv_def by blast
    then show ?thesis using insertion(3) by simp
  qed
  then have "task_id t \<notin> task_id ` set (fl @ checkerQueue w)" by (metis imageE)
  then have "distinct (map task_id (fl @ t # checkerQueue w))"
    using inv by (simp add: wd_inv_def) blast
  then have "distinct (map task_id (fl @ pq_push t (checkerQueue w)))"
    by (rule distinct_same_mset [rotated]) simp
  moreover have "length fl + length (checkerQueue w') \<le> MAX_WATCH_NUM + 1"
    using inv insertion(1,4) by (simp add: wd_inv_def)
  moreover have "0 < task_id x \<and> task_id x \<le> curId w'" if "x \<in> set (fl @ checkerQueue w')" for x
  proof (cases "x = t")
    case True
    then show ?thesis using inv insertion(2,3) by (simp add: wd_inv_def)
  next
    case False
    then have "x \<in> set (fl @ checkerQueue w)" using that insertion(1) by auto
    then have "0 < task_id x \<and> task_id x \<le> curId w" using inv unfolding wd_inv_def by blast
    then show ?thesis using insertion(2) by simp
  qed
  ultimately show ?thesis
    using inv insertion(1,2) unfolding wd_inv_def by auto
next
  case removal
  have "set (checkerQueue w') \<subseteq> set (checkerQueue w)" using removal(1) by (metis set_mset_mono set_mset_mset)
  moreover have "length (checkerQueue w') \<le> length (checkerQueue w)"
    using size_mset_mono [OF removal(1)] by simp
  moreover have "distinct (map task_id (fl @ checkerQueue w'))"
    by (rule distinct_submset [OF removal(1)]) (use inv in \<open>simp add: wd_inv_def\<close>)
  ultimately show ?thesis using inv removal by (auto simp: wd_inv_def)
next
  case (edit f)
  have id: "task_id (f t) = task_id t" for t using edit(3) by (simp add: same_key_def)
  have "image_mset task_id (mset (checkerQueue w')) = image_mset task_id (mset (checkerQueue w))"
    by (simp add: edit(1) multiset.map_comp comp_def id)
  then have "distinct (map task_id (fl @ checkerQueue w'))"
    by (rule distinct_same_mset) (use inv in \<open>simp add: wd_inv_def\<close>)
  moreover have "set (checkerQueue w') = f ` set (checkerQueue w)"
    using arg_cong [OF edit(1), of set_mset] by simp
  moreover have "length (checkerQueue w') = length (checkerQueue w)"
    using arg_cong [OF edit(1), of size] by simp
  ultimately show ?thesis using inv edit(2,4) by (auto simp: wd_inv_def id)
qed

section \<open>The thread is started once\<close>

lemma Create_once: "onceFlag w \<Longrightarrow> CreateWatchdogThreadIfNeed e w = w"
  by (simp add: CreateWatchdogThreadIfNeed_def)

definition thread_state :: "WatchdogInner \<Rightarrow> bool \<times> bool \<times> bool" where
  "thread_state w = (onceFlag w, threadLoop w, isNeedStop w)"

lemma thread_state_new [simp]:
  "thread_state (snd (new_id w)) = thread_state w" "thread_state (snd (new_checker c w)) = thread_state w"
  by (simp_all add: thread_state_def new_id_def new_checker_def)

lemma thread_state_Insert:
  "onceFlag w \<Longrightarrow> thread_state (snd (InsertWatchdogTaskLocked e nm t w)) = thread_state w"
  by (simp add: InsertWatchdogTaskLocked_def thread_state_def Let_def Create_once)

lemma thread_state_api:
  assumes "onceFlag w"
  shows "thread_state (api_exec e st a w) = thread_state w"
  by (cases a)
    (simp_all add: AddThread_def RunOneShotTask_def RunPeriodicalTask_def RunXCollieTask_def
      SetTimerCountTask_def AddIpcFull_def IpcCheck_def AsyncBinderSpaceFull_def Let_def split_beta
      thread_state_Insert assms, simp_all add: thread_state_def RemoveXCollieTask_def
      TriggerTimerCountTask_def RemoveInnerTask_def Let_def split_beta)

lemma thread_state_apis:
  "onceFlag w \<Longrightarrow> thread_state (fold (\<lambda>(st, a). api_exec e st a) calls w) = thread_state w"
proof (induction calls arbitrary: w)
  case (Cons c calls)
  obtain st a where c: "c = (st, a)" by (cases c)
  have eq: "thread_state (api_exec e st a w) = thread_state w" by (rule thread_state_api [OF Cons.prems])
  then have "onceFlag (api_exec e st a w)" using Cons.prems by (simp add: thread_state_def)
  from Cons.IH [OF this] eq show ?case by (simp add: c)
qed simp

section \<open>The limit on callbacks\<close>

fun callback_run :: "(u32 \<times> int) list \<Rightarrow> WatchdogInner \<Rightarrow> WatchdogInner" where
  "callback_run [] w = w"
| "callback_run ((flag, t) # cs) w = callback_run cs (snd (IsCallbackLimit flag t w))"

lemma cntCallback_mono: "cntCallback w \<le> cntCallback (callback_run cs w)"
proof (induction cs arbitrary: w)
  case (Cons c cs)
  obtain flag t where c: "c = (flag, t)" by (cases c)
  have "cntCallback w \<le> cntCallback (snd (IsCallbackLimit flag t w))" by (simp add: IsCallbackLimit_def)
  also have "\<dots> \<le> cntCallback (callback_run cs (snd (IsCallbackLimit flag t w)))" by (rule Cons)
  finally show ?case by (simp add: c)
qed simp

text \<open>An accepted timer, as the other proofs use it.\<close>

definition new_timer :: "env \<Rightarrow> stamp \<Rightarrow> string \<Rightarrow> u64 \<Rightarrow> nat option \<Rightarrow> nat \<Rightarrow> u32 \<Rightarrow> WatchdogInner \<Rightarrow> WatchdogTask" where
  "new_timer e st nm timeout fn arg flag w =
     WatchdogTask_xcollie e (curId w + 1) (st_now st) (st_times st) (st_tid st) (GetLimitedSizeName nm)
       (ucast timeout) fn arg flag"

lemma RunXCollie_accepted:
  assumes "RunXCollieTask e st nm timeout fn arg flag w = (r, w')" and "0 < r"
  defines "t \<equiv> new_timer e st nm timeout fn arg flag w"
  shows "InsertWatchdogTaskLocked e (GetLimitedSizeName nm) t (snd (new_id w)) = (r, w')"
    and "\<not> insert_refused (GetLimitedSizeName nm) t (snd (new_id w))" and "r = curId w + 1"
    and "checkerQueue w' = pq_push t (checkerQueue w)" and "timeout \<noteq> 0"
proof -
  show ok: "timeout \<noteq> 0" using assms(1,2) by (auto simp: RunXCollieTask_def INVALID_ID_def split: if_splits)
  show run: "InsertWatchdogTaskLocked e (GetLimitedSizeName nm) t (snd (new_id w)) = (r, w')"
    using assms(1,2)
    by (auto simp: RunXCollieTask_def INVALID_ID_def t_def new_timer_def Let_def split_beta split: if_splits)
  show acc: "\<not> insert_refused (GetLimitedSizeName nm) t (snd (new_id w))"
    using run assms(2) Insert_refused [of "GetLimitedSizeName nm" t "snd (new_id w)" e] by auto
  show "r = curId w + 1"
    using Insert_accepted(1) [OF acc, of e] run by (simp add: t_def new_timer_def task_constructors)
  show "checkerQueue w' = pq_push t (checkerQueue w)" using Insert_accepted(2) [OF acc, of e] run by simp
qed

lemma new_timer_sel [simp]:
  "task_id (new_timer e st nm timeout fn arg flag w) = curId w + 1"
  "task_timeout (new_timer e st nm timeout fn arg flag w) = ucast (ucast timeout :: u32)"
  "nextTickTime (new_timer e st nm timeout fn arg flag w) = st_now st + ucast (ucast timeout :: u32)"
  by (simp_all add: new_timer_def task_constructors)

text \<open>Cancelling the id of the newest timer takes it away, unless its timeout is zero.\<close>

lemma cancel_new_timer:
  assumes "wd_inv fl w" and "checkerQueue w' = pq_push t (checkerQueue w)" and "task_id t = curId w + 1"
  shows "mset (checkerQueue (RemoveXCollieTask (curId w + 1) w')) =
      (if task_timeout t = 0 then add_mset t (mset (checkerQueue w)) else mset (checkerQueue w))"
    and "i \<noteq> curId w + 1 \<Longrightarrow> t \<in># mset (checkerQueue (RemoveXCollieTask i w'))"
proof -
  have q: "mset (checkerQueue w') = add_mset t (mset (checkerQueue w))" using assms(2) by simp
  have "task_id x \<noteq> curId w + 1" if "x \<in># mset (checkerQueue w)" for x
    using wd_inv_old [OF assms(1), of x] that by simp
  then have "filter_mset (\<lambda>x. task_id x \<noteq> curId w + 1 \<or> task_timeout x = 0) (mset (checkerQueue w)) = mset (checkerQueue w)"
    by (simp add: filter_mset_eq_conv)
  then show "mset (checkerQueue (RemoveXCollieTask (curId w + 1) w')) =
      (if task_timeout t = 0 then add_mset t (mset (checkerQueue w)) else mset (checkerQueue w))"
    by (simp add: RemoveXCollie_mset q assms(3))
  show "i \<noteq> curId w + 1 \<Longrightarrow> t \<in># mset (checkerQueue (RemoveXCollieTask i w'))"
    by (simp add: RemoveXCollie_mset q assms(3))
qed

section \<open>Properties\<close>

text \<open>
  Setting a timer whose timeout fits in 32 bits either is refused and leaves the queue alone,
  or returns a positive id, unique in the queue, of a timer due after the timeout; cancelling that
  id gives the previous queue back, and cancelling any other id keeps the timer.
\<close>

theorem timer_set_cancel:
  assumes "wd_inv fl w" and "RunXCollieTask e st nm timeout fn arg flag w = (r, w')"
    and "0 < r" and "unat timeout < 2 ^ 32"
  shows "(\<exists>t. mset (checkerQueue w') = add_mset t (mset (checkerQueue w)) \<and> task_id t = r \<and>
      task_timeout t = timeout \<and> nextTickTime t = st_now st + timeout \<and>
      (i \<noteq> r \<longrightarrow> t \<in> set (checkerQueue (RemoveXCollieTask i w')))) \<and>
    mset (checkerQueue (RemoveXCollieTask r w')) = mset (checkerQueue w)"
proof -
  note acc = RunXCollie_accepted [OF assms(2,3)]
  let ?t = "new_timer e st nm timeout fn arg flag w"
  have cast: "ucast (ucast timeout :: u32) = timeout" by (rule u32_roundtrip [OF assms(4)])
  note cancel = cancel_new_timer [OF assms(1) acc(4)]
  show ?thesis using acc cast cancel(1) cancel(2) [of i] by (intro conjI exI [of _ ?t]) auto
qed

definition demo_stamp :: stamp where
  "demo_stamp = \<lparr>st_now = 1000, st_times = (1, 1), st_tid = 4321\<rparr>"

lemmas demo_defs = demo_stamp_def service_env_def WatchdogInner_init_def IsInAppspwan_def

lemma demo_timer:
  "RunXCollieTask service_env demo_stamp ''t'' 5000 (Some 1) 2 3 WatchdogInner_init =
    (1, snd (RunXCollieTask service_env demo_stamp ''t'' 5000 (Some 1) 2 3 WatchdogInner_init))"
  by (simp add: RunXCollieTask_def demo_defs new_id_def InsertWatchdogTaskLocked_def
      IsExceedMaxTaskLocked_def MAX_WATCH_NUM_def Let_def task_constructors set_times_def)

theorem timer_set_cancel_witness:
  "mset (checkerQueue (RemoveXCollieTask 1
     (snd (RunXCollieTask service_env demo_stamp ''t'' 5000 (Some 1) 2 3 WatchdogInner_init)))) = {#}"
  using timer_set_cancel [OF wd_inv_init demo_timer] by (simp add: WatchdogInner_init_def)



text \<open>
  Removing by name: the tasks of that name leave the queue and no other, the result tells
  whether there was one, and the name can be registered again exactly when a repeating task of it was
  removed.
\<close>

theorem remove_by_name:
  assumes "nm \<noteq> []"
  shows "mset (checkerQueue (snd (RemoveInnerTask nm w))) =
      filter_mset (\<lambda>t. task_name t \<noteq> nm) (mset (checkerQueue w)) \<and>
    (fst (RemoveInnerTask nm w) \<longleftrightarrow> (\<exists>t \<in> set (checkerQueue w). task_name t = nm)) \<and>
    taskNameSet (snd (RemoveInnerTask nm w)) = taskNameSet w -
      {n. n = nm \<and> (\<exists>t \<in> set (checkerQueue w). task_name t = nm \<and> \<not> isOneshotTask t)}"
proof (cases "checkerQueue w = []")
  case True
  then show ?thesis by (simp add: RemoveInner_nop)
next
  case False
  show ?thesis using RemoveInner_spec [OF assms False] by auto
qed

theorem remove_by_name_witness:
  "fst (RemoveInnerTask ''t'' (snd (RunXCollieTask service_env demo_stamp ''t'' 5000 (Some 1) 2 3 WatchdogInner_init)))"
proof -
  let ?w = "snd (RunXCollieTask service_env demo_stamp ''t'' 5000 (Some 1) 2 3 WatchdogInner_init)"
  have "\<exists>t \<in> set (checkerQueue ?w). task_name t = ''t''"
    by (simp add: RunXCollieTask_def demo_defs new_id_def InsertWatchdogTaskLocked_def
      IsExceedMaxTaskLocked_def MAX_WATCH_NUM_def Let_def task_constructors GetLimitedSizeName_def MAX_NAME_SIZE_def)
  then show ?thesis using remove_by_name [of "''t''" ?w] by simp
qed

text \<open>
  Triggering a count timer records the tick and the message in every task of that name, or
  forgets the recorded ticks, and changes nothing else.
\<close>

theorem trigger_edits_only_named:
  "mset (checkerQueue (TriggerTimerCountTask now nm b msg w)) =
    image_mset (\<lambda>t. if task_name t \<noteq> nm then t
       else if b then t\<lparr>triggerTimes := triggerTimes t @ [now], task_message := msg\<rparr>
       else t\<lparr>triggerTimes := []\<rparr>) (mset (checkerQueue w)) \<and>
   taskNameSet (TriggerTimerCountTask now nm b msg w) = taskNameSet w"
  unfolding Trigger_mset by (auto simp: trigger_one_def intro!: image_mset_cong)

text \<open>
  The limit on callbacks never recovers: the counter is not reset when a new window of 60
  seconds starts. After five counted callbacks, every later one that does not itself open a window
  is limited, whatever came in between.
\<close>

theorem callback_limit_never_recovers:
  assumes "XCOLLIE_CALLBACK_HISTORY_MAX \<le> cntCallback w" and "flag_log flag"
  shows "fst (IsCallbackLimit flag t (callback_run cs w)) \<longleftrightarrow>
    t \<le> timeCallback (callback_run cs w) + XCOLLIE_CALLBACK_TIMEWIN_MAX"
  using assms cntCallback_mono [of w cs] by (auto simp: IsCallbackLimit_def)

theorem callback_limit_never_recovers_witness:
  "fst (IsCallbackLimit XCOLLIE_FLAG_LOG 1000001
     (callback_run [(XCOLLIE_FLAG_LOG, 1000000)] (WatchdogInner_init\<lparr>cntCallback := 5, timeCallback := 3\<rparr>)))"
  using callback_limit_never_recovers [of "WatchdogInner_init\<lparr>cntCallback := 5, timeCallback := 3\<rparr>"
      XCOLLIE_FLAG_LOG 1000001 "[(XCOLLIE_FLAG_LOG, 1000000)]"]
  by (simp add: IsCallbackLimit_def XCOLLIE_CALLBACK_HISTORY_MAX_def XCOLLIE_CALLBACK_TIMEWIN_MAX_def)

text \<open>
  The watchdog thread is started at most once in the life of the process: after it has been
  stopped, no call starts it again, although calls are still accepted.
\<close>

theorem stopped_watchdog_stays_stopped:
  assumes "onceFlag w"
  shows "\<not> threadLoop (fold (\<lambda>(st, a). api_exec e st a) calls (Stop w)) \<and>
    isNeedStop (fold (\<lambda>(st, a). api_exec e st a) calls (Stop w))"
proof -
  have "onceFlag (Stop w)" using assms by (simp add: Stop_defs)
  moreover have "\<not> threadLoop (Stop w)" "isNeedStop (Stop w)" by (simp_all add: Stop_defs)
  ultimately show ?thesis
    using thread_state_apis [of "Stop w" e calls] by (simp add: thread_state_def)
qed

theorem stopped_watchdog_stays_stopped_witness:
  "\<not> threadLoop (api_exec service_env demo_stamp (CXCollie ''t'' 5000 (Some 1) 2 3)
     (Stop (CreateWatchdogThreadIfNeed service_env WatchdogInner_init)))"
  using stopped_watchdog_stays_stopped [of "CreateWatchdogThreadIfNeed service_env WatchdogInner_init"
      service_env "[(demo_stamp, CXCollie ''t'' 5000 (Some 1) 2 3)]"] by simp

end
