(* ===== verification/Timer_Service.thy ===== *)
theory Timer_Service
  imports Watchdog_Inner
begin

text \<open>
  What clients of timers rely on: an id that is positive stands for exactly one pending timer, and cancelling it
  takes away that timer and nothing else. The locale \<open>timer_service\<close> states it, the functions
  \<^verbatim>\<open>RunXCollieTask\<close> and \<^verbatim>\<open>RemoveXCollieTask\<close> of \<^verbatim>\<open>watchdog_inner.cpp\<close> provide it, and what follows for many
  timers at once is proved from the laws alone.
\<close>

section \<open>Interface\<close>

locale timer_service =
  fixes set_timer :: "'a \<Rightarrow> 's \<Rightarrow> int \<times> 's" and cancel :: "int \<Rightarrow> 's \<Rightarrow> 's"
    and pending :: "'s \<Rightarrow> 't multiset" and ident :: "'t \<Rightarrow> int" and timer :: "'t \<Rightarrow> bool"
    and inv :: "'s \<Rightarrow> bool" and ok :: "'a \<Rightarrow> bool"
  assumes inv_set: "inv s \<Longrightarrow> inv (snd (set_timer a s))"
    and set_refused: "inv s \<Longrightarrow> fst (set_timer a s) \<le> 0 \<Longrightarrow> pending (snd (set_timer a s)) = pending s"
    and set_accepted: "inv s \<Longrightarrow> ok a \<Longrightarrow> 0 < fst (set_timer a s) \<Longrightarrow>
      \<exists>t. pending (snd (set_timer a s)) = add_mset t (pending s) \<and> ident t = fst (set_timer a s) \<and> timer t"
    and set_fresh: "inv s \<Longrightarrow> 0 < fst (set_timer a s) \<Longrightarrow> x \<in># pending s \<Longrightarrow> ident x \<noteq> fst (set_timer a s)"
    and cancel_pending: "pending (cancel i s) = filter_mset (\<lambda>t. ident t \<noteq> i \<or> \<not> timer t) (pending s)"
begin

fun set_all :: "'a list \<Rightarrow> 's \<Rightarrow> int list \<times> 's" where
  "set_all [] s = ([], s)"
| "set_all (a # as) s = (let (i, s1) = set_timer a s; (is, s2) = set_all as s1 in (i # is, s2))"

lemma cancel_all: "pending (fold cancel is s) = filter_mset (\<lambda>t. ident t \<notin> set is \<or> \<not> timer t) (pending s)"
proof (induction "is" arbitrary: s)
  case (Cons i "is")
  have "pending (fold cancel (i # is) s) =
      filter_mset (\<lambda>t. ident t \<notin> set is \<or> \<not> timer t) (filter_mset (\<lambda>t. ident t \<noteq> i \<or> \<not> timer t) (pending s))"
    by (simp add: Cons cancel_pending)
  also have "\<dots> = filter_mset (\<lambda>t. ident t \<notin> set (i # is) \<or> \<not> timer t) (pending s)"
    unfolding filter_filter_mset by (rule filter_mset_cong) auto
  finally show ?case .
qed simp

text \<open>The timers that were added are the ones with the positive ids returned, each once.\<close>

lemma set_all_adds:
  assumes "inv s" and "\<forall>a \<in> set as. ok a"
  shows "\<exists>T. pending (snd (set_all as s)) = T + pending s \<and> (\<forall>t \<in># T. timer t) \<and>
    image_mset ident T = mset (filter ((<) 0) (fst (set_all as s))) \<and>
    (\<forall>x \<in># pending s. ident x \<notin> set (filter ((<) 0) (fst (set_all as s)))) \<and> inv (snd (set_all as s))"
  using assms
proof (induction "as" arbitrary: s)
  case (Cons a "as")
  obtain i s1 where set: "set_timer a s = (i, s1)" by fastforce
  have s1: "inv s1" using inv_set [OF Cons.prems(1), of a] set by simp
  obtain T where T: "pending (snd (set_all as s1)) = T + pending s1" "\<forall>t \<in># T. timer t"
      "image_mset ident T = mset (filter ((<) 0) (fst (set_all as s1)))"
      "\<forall>x \<in># pending s1. ident x \<notin> set (filter ((<) 0) (fst (set_all as s1)))" "inv (snd (set_all as s1))"
    using Cons.IH [OF s1] Cons.prems(2) by auto
  show ?case
  proof (cases "0 < i")
    case False
    then have "pending s1 = pending s" using set_refused [OF Cons.prems(1), of a] set by simp
    then show ?thesis using T set False by (intro exI [of _ T]) (simp add: split_beta)
  next
    case True
    then obtain t where t: "pending s1 = add_mset t (pending s)" "ident t = i" "timer t"
      using set_accepted [OF Cons.prems(1), of a] Cons.prems(2) set by auto
    have "ident x \<noteq> i" if "x \<in># pending s" for x using set_fresh [OF Cons.prems(1) _ that, of a] set True by auto
    then show ?thesis using T set True t by (intro exI [of _ "add_mset t T"]) (auto simp: split_beta)
  qed
qed simp

lemma cancel_any_order:
  assumes "inv s" and "\<forall>a \<in> set as. ok a" and "set_all as s = (is, s')" and "set js = set (filter ((<) 0) is)"
  shows "pending (fold cancel js s') = pending s"
proof -
  obtain T where T: "pending s' = T + pending s" "\<forall>t \<in># T. timer t" "image_mset ident T = mset (filter ((<) 0) is)"
      "\<forall>x \<in># pending s. ident x \<notin> set js"
    using set_all_adds [OF assms(1,2)] assms(3,4) by auto
  have "ident t \<in> set js" if "t \<in># T" for t
    using that T(3) assms(4) by (metis imageI set_image_mset set_mset_mset)
  then have "filter_mset (\<lambda>t. ident t \<notin> set js \<or> \<not> timer t) T = {#}" using T(2) by (auto simp: filter_mset_eq_conv)
  moreover have "filter_mset (\<lambda>t. ident t \<notin> set js \<or> \<not> timer t) (pending s) = pending s"
    using T(4) by (simp add: filter_mset_eq_conv)
  ultimately show ?thesis by (simp add: cancel_all T(1))
qed

end

section \<open>The watchdog as a timer service\<close>

record timer_request =
  tr_stamp :: stamp
  tr_name :: string
  tr_timeout :: u64
  tr_fn :: "nat option"
  tr_arg :: nat
  tr_flag :: u32

definition request_timer :: "env \<Rightarrow> timer_request \<Rightarrow> WatchdogInner \<Rightarrow> int \<times> WatchdogInner" where
  "request_timer e q w = RunXCollieTask e (tr_stamp q) (tr_name q) (tr_timeout q) (tr_fn q) (tr_arg q) (tr_flag q) w"

lemma request_inv: "wd_inv fl w \<Longrightarrow> wd_inv fl (snd (request_timer e q w))"
  using wd_inv_change [OF queue_change_api [of w e "tr_stamp q"
      "CXCollie (tr_name q) (tr_timeout q) (tr_fn q) (tr_arg q) (tr_flag q)"]]
  by (simp add: request_timer_def)

lemma request_refused:
  assumes "wd_inv fl w" and "fst (request_timer e q w) \<le> 0"
  shows "checkerQueue (snd (request_timer e q w)) = checkerQueue w"
  using assms by (auto simp: request_timer_def RunXCollieTask_def InsertWatchdogTaskLocked_def new_id_def Let_def
      split_beta task_constructors wd_inv_def split: if_splits)

lemma request_accepted:
  assumes "wd_inv fl w" and "0 < fst (request_timer e q w)"
  shows "\<exists>t. checkerQueue (snd (request_timer e q w)) = pq_push t (checkerQueue w) \<and>
    task_id t = fst (request_timer e q w) \<and> task_id t = curId w + 1 \<and> task_timeout t = ucast (ucast (tr_timeout q) :: u32) \<and>
    tr_timeout q \<noteq> 0"
  using RunXCollie_accepted [OF prod.collapse [symmetric], of e "tr_stamp q" "tr_name q" "tr_timeout q" "tr_fn q"
      "tr_arg q" "tr_flag q" w] assms(2)
  by (intro exI [of _ "new_timer e (tr_stamp q) (tr_name q) (tr_timeout q) (tr_fn q) (tr_arg q) (tr_flag q) w"])
    (simp add: request_timer_def)

interpretation wt: timer_service "request_timer e" RemoveXCollieTask "\<lambda>w. mset (checkerQueue w)" task_id
    "\<lambda>t. task_timeout t \<noteq> 0" "wd_inv fl" "\<lambda>q. unat (tr_timeout q) < 2 ^ 32" for e fl
proof unfold_locales
  fix w q x i
  assume i: "wd_inv fl w"
  show "wd_inv fl (snd (request_timer e q w))" by (rule request_inv [OF i])
  show "fst (request_timer e q w) \<le> 0 \<Longrightarrow> mset (checkerQueue (snd (request_timer e q w))) = mset (checkerQueue w)"
    by (simp add: request_refused [OF i])
  show "\<exists>t. mset (checkerQueue (snd (request_timer e q w))) = add_mset t (mset (checkerQueue w)) \<and>
      task_id t = fst (request_timer e q w) \<and> task_timeout t \<noteq> 0"
    if "unat (tr_timeout q) < 2 ^ 32" and "0 < fst (request_timer e q w)"
    using request_accepted [OF i that(2)] u32_roundtrip [OF that(1)] by (metis mset_push)
  show "task_id x \<noteq> fst (request_timer e q w)"
    if "0 < fst (request_timer e q w)" and "x \<in># mset (checkerQueue w)"
    using request_accepted [OF i that(1)] wd_inv_old [OF i, of x] that(2) by auto
qed (simp add: RemoveXCollie_mset)

fun set_timers :: "env \<Rightarrow> timer_request list \<Rightarrow> WatchdogInner \<Rightarrow> int list \<times> WatchdogInner" where
  "set_timers e [] w = ([], w)"
| "set_timers e (q # qs) w = (let (i, w1) = request_timer e q w; (is, w2) = set_timers e qs w1 in (i # is, w2))"

lemma set_timers_all: "set_timers e qs w = wt.set_all e qs w"
  by (induction qs arbitrary: w) (auto simp: Let_def split_beta)

section \<open>Properties\<close>

text \<open>
  C7. However many timers are set, with timeouts that fit in 32 bits, some of them refused: the positive ids returned
  are distinct, and cancelling them, in any order and as often as one likes, gives the previous queue back.
\<close>

theorem timers_cancel_any_order:
  assumes "wd_inv fl w" and "\<forall>q \<in> set qs. unat (tr_timeout q) < 2 ^ 32"
    and "set_timers e qs w = (ids, w')" and "set js = {i \<in> set ids. 0 < i}"
  shows "distinct (filter ((<) 0) ids) \<and>
    mset (checkerQueue (fold RemoveXCollieTask js w')) = mset (checkerQueue w)"
proof
  note all = assms(3) [unfolded set_timers_all]
  show "mset (checkerQueue (fold RemoveXCollieTask js w')) = mset (checkerQueue w)"
    using wt.cancel_any_order [OF assms(1,2) all, of js] assms(4) by simp
  obtain T where T: "mset (checkerQueue w') = T + mset (checkerQueue w)"
      "image_mset task_id T = mset (filter ((<) 0) ids)" and i: "wd_inv fl w'"
    using wt.set_all_adds [OF assms(1,2), of e] all by auto
  have "mset (filter ((<) 0) ids) \<subseteq># mset (map task_id (checkerQueue w'))"
    unfolding T(2) [symmetric] mset_map T(1) by simp
  moreover have "distinct (map task_id (checkerQueue w'))" using i by (simp add: wd_inv_def)
  ultimately show "distinct (filter ((<) 0) ids)" by (metis distinct_count dual_order.trans mset_subset_eq_count)
qed

text \<open>Two timers, cancelled in the order they were set.\<close>

theorem timers_cancel_any_order_witness:
  "let q = \<lparr>tr_stamp = demo_stamp, tr_name = ''t'', tr_timeout = 5000, tr_fn = Some 1, tr_arg = 0, tr_flag = 0\<rparr>;
       w' = snd (set_timers service_env [q, q] WatchdogInner_init)
   in length (checkerQueue w') = 2 \<and> checkerQueue (RemoveXCollieTask 2 (RemoveXCollieTask 1 w')) = []"
proof -
  define q where "q = \<lparr>tr_stamp = demo_stamp, tr_name = ''t'', tr_timeout = 5000, tr_fn = Some 1, tr_arg = 0, tr_flag = 0\<rparr>"
  define w' where "w' = snd (set_timers service_env [q, q] WatchdogInner_init)"
  have r: "set_timers service_env [q, q] WatchdogInner_init = ([1, 2], w')" "length (checkerQueue w') = 2"
    by (simp_all add: w'_def q_def request_timer_def RunXCollieTask_def demo_defs new_id_def InsertWatchdogTaskLocked_def
        CreateWatchdogThreadIfNeed_def IsExceedMaxTaskLocked_def MAX_WATCH_NUM_def Let_def task_constructors emit_def)
  have b: "\<forall>q \<in> set [q, q]. unat (tr_timeout q) < 2 ^ 32" by (simp add: q_def)
  have js: "set [1, 2] = {i \<in> set [1, 2]. 0 < (i :: int)}" by auto
  have "checkerQueue WatchdogInner_init = []" by (simp add: WatchdogInner_init_def)
  then show ?thesis
    using conjunct2 [OF timers_cancel_any_order [OF wd_inv_init b r(1) js]] r(2)
    by (simp only: q_def [symmetric] w'_def [symmetric] Let_def) simp
qed

end
