(* ===== verification/Watchdog_Sampling.thy ===== *)
theory Watchdog_Sampling
  imports Watchdog_Inner
begin

text \<open>
  The sampling features of \<^verbatim>\<open>watchdog_inner.cpp\<close>: the detection of a slow main thread, of a slow
  start-up, of slow scrolling and of a freeze, the collection of traces, the stacks of a blocked
  thread, and the closures these install as periodic tasks of the watchdog; and the clean-up of a
  finished closure by the watchdog thread (\<^verbatim>\<open>CheckCurrentTaskLocked\<close>). Time points are nanoseconds.
  What one call reads of the outside is the record \<open>probe\<close>.
\<close>

section \<open>The outside\<close>

text \<open>Loading the sampler library: it is absent, lacks a function, or provides all of them.\<close>

datatype dl_result = DlFail | DlPartial | DlOk

record probe =
  pr_dl :: dl_result
  pr_install :: bool
  pr_init :: int
  pr_deinit :: int
  pr_collect :: "string option"
  pr_write :: bool
  pr_dir :: bool
  pr_ns :: int
  pr_tick :: u64
  pr_tick2 :: u64
  pr_tick3 :: u64
  pr_time :: string
  pr_backtrace :: "string option"
  pr_open1 :: int
  pr_open2 :: int
  pr_sent :: bool
  pr_pid :: int
  pr_config_exists :: bool
  pr_collector :: bool

section \<open>Model\<close>

definition upd_sampling :: "(Sampling \<Rightarrow> Sampling) \<Rightarrow> WatchdogInner \<Rightarrow> WatchdogInner" where
  "upd_sampling f w = w\<lparr>sampling := f (sampling w)\<rparr>"

definition jank :: "string \<Rightarrow> Sampling \<Rightarrow> int" where
  "jank k s = (case jankParamsMap s k of Some v \<Rightarrow> v | None \<Rightarrow> 0)"

text \<open>\<^verbatim>\<open>duration_cast<milliseconds>\<close>, which rounds towards zero.\<close>

definition to_ms :: "int \<Rightarrow> int" where
  "to_ms ns = (if 0 \<le> ns then ns div 1000000 else - ((- ns) div 1000000))"

definition MILLISEC_TO_NANOSEC :: int where "MILLISEC_TO_NANOSEC = 1000 * 1000"
definition ONE_DAY_LIMIT :: int where "ONE_DAY_LIMIT = 24 * 60 * 60 * 1000"
definition ONE_HOUR_LIMIT :: int where "ONE_HOUR_LIMIT = 60 * 60 * 1000"
definition DETECT_STACK_COUNT :: int where "DETECT_STACK_COUNT = 2"
definition COLLECT_TRACE_MIN :: int where "COLLECT_TRACE_MIN = 1"
definition COLLECT_TRACE_MAX :: int where "COLLECT_TRACE_MAX = 20"
definition DURATION_TIME :: int where "DURATION_TIME = 150"
definition DUMPTRACE_TIME :: int where "DUMPTRACE_TIME = 450"
definition SCROLL_INTERVAL :: int where "SCROLL_INTERVAL = 50"
definition APP_START_LIMIT :: int where "APP_START_LIMIT = 7 * 24 * 60 * 60 * 1000"
definition SAMPLE_STACK_MAX_COUNT :: int where "SAMPLE_STACK_MAX_COUNT = 10"

definition ResetThreadSamplerFuncs :: "Sampling \<Rightarrow> Sampling" where
  "ResetThreadSamplerFuncs s = s\<lparr>samplerFuncs := False, samplerSigHandler := False\<rparr>"

definition InitThreadSamplerFuncs :: "dl_result \<Rightarrow> Sampling \<Rightarrow> bool \<times> Sampling" where
  "InitThreadSamplerFuncs dl s =
     (case dl of
        DlFail \<Rightarrow> (False, s)
      | DlPartial \<Rightarrow> (False, ResetThreadSamplerFuncs s)
      | DlOk \<Rightarrow> (True, s\<lparr>samplerFuncs := True, samplerSigHandler := True\<rparr>))"

definition CheckThreadSampler :: "probe \<Rightarrow> Sampling \<Rightarrow> bool \<times> Sampling" where
  "CheckThreadSampler pr s =
     (case InitThreadSamplerFuncs (pr_dl pr) s of
        (False, s1) \<Rightarrow> (False, s1)
      | (True, s1) \<Rightarrow> if \<not> pr_install pr then (False, s1) else (pr_init pr = 0, s1))"

definition Deinit :: "probe \<Rightarrow> Sampling \<Rightarrow> bool \<times> Sampling" where
  "Deinit pr s =
     (if \<not> samplerFuncs s then (False, s)
      else (pr_deinit pr = 0, s\<lparr>samplerSigHandler := False\<rparr>))"

definition CheckEventTimer :: "int \<Rightarrow> int \<Rightarrow> int \<Rightarrow> int \<Rightarrow> Sampling \<Rightarrow> bool" where
  "CheckEventTimer currentTime rb re interval s \<longleftrightarrow>
     (let tc = timeContent s; intervalNanos = interval * MILLISEC_TO_NANOSEC in
      \<not> (rb = curBegin tc \<and> re = curEnd tc) \<and>
      (curEnd tc \<le> curBegin tc \<and> currentTime - curBegin tc \<ge> intervalNanos \<or>
       curEnd tc - curBegin tc > intervalNanos))"

text \<open>
  Reporting of a main thread event. The report times of a start-up content are only counted down
  when the stack was written; \<^verbatim>\<open>CollectStack\<close> needs the sampler's functions.
\<close>

definition ReportMainThreadEvent :: "env \<Rightarrow> probe \<Rightarrow> string \<Rightarrow> bool \<Rightarrow> bool \<Rightarrow> WatchdogInner \<Rightarrow> WatchdogInner" where
  "ReportMainThreadEvent e pr eventName scroll appStart w =
     (if \<not> pr_write pr \<or> \<not> HISYSEVENT_ENABLE e then w
      else if appStart then
        emit (EReport eventName scroll) (upd_sampling (\<lambda>s.
          if scroll then s\<lparr>scrollSlowContent := (scrollSlowContent s)\<lparr>as_reportTimes := as_reportTimes (scrollSlowContent s) - 1\<rparr>\<rparr>
          else s\<lparr>startSlowContent := (startSlowContent s)\<lparr>as_reportTimes := as_reportTimes (startSlowContent s) - 1\<rparr>\<rparr>) w)
      else emit (EReport (if scroll then ''SCROLL_TIMEOUT'' else ''MAIN_THREAD_JANK'') scroll) w)"

definition GetMainThreadCheckTimer :: "env \<Rightarrow> Sampling \<Rightarrow> int" where
  "GetMainThreadCheckTimer e s =
     (if jank KEY_CHECKER_INTERVAL s > 0 then jank KEY_CHECKER_INTERVAL s
      else if isDeveloperOpen e \<or> isBetaVersion e \<and> procCmdlineName e = KEY_SCB_STATE then ONE_HOUR_LIMIT
      else ONE_DAY_LIMIT)"

text \<open>
  \<^verbatim>\<open>SampleStackDetect\<close>. Its parameter \<^verbatim>\<open>reportTimes\<close> is a reference to one of two members: the
  main thread's or the scroll's, told apart by \<open>scroll\<close>.
\<close>

definition set_times_member :: "bool \<Rightarrow> int \<Rightarrow> StackContent \<Rightarrow> StackContent" where
  "set_times_member scroll v c = (if scroll then c\<lparr>scrollTimes := v\<rparr> else c\<lparr>reportTimes := v\<rparr>)"

definition times_member :: "bool \<Rightarrow> StackContent \<Rightarrow> int" where
  "times_member scroll c = (if scroll then scrollTimes c else reportTimes c)"

definition SampleStackDetect ::
  "env \<Rightarrow> probe \<Rightarrow> int \<Rightarrow> int \<Rightarrow> int \<Rightarrow> bool \<Rightarrow> u64 \<Rightarrow> Sampling \<Rightarrow> bool \<times> Sampling" where
  "SampleStackDetect e pr endTime updateTimes ignoreTime scroll start s =
     (let c = stackContent s in
      if pr_tick pr - start < word_of_int ignoreTime * 1000 then (False, s)
      else if \<not> isStartSampleEnabled c then (False, s)
      else
        let checkTimer = (if scroll then ONE_DAY_LIMIT else GetMainThreadCheckTimer e s) in
        if times_member scroll c \<le> 0 \<and> to_ms (endTime - lastEndTime c) < checkTimer then (False, s)
        else
          let c1 = (if times_member scroll c \<le> 0 then set_times_member scroll updateTimes c else c) in
          (True, s\<lparr>stackContent := c1\<lparr>isStartSampleEnabled := False,
             reportBegin := curBegin (timeContent s), reportEnd := curEnd (timeContent s),
             lastEndTime := endTime\<rparr>\<rparr>))"

definition start_content :: "bool \<Rightarrow> Sampling \<Rightarrow> AppStartContent" where
  "start_content scroll s = (if scroll then scrollSlowContent s else startSlowContent s)"

definition upd_content :: "bool \<Rightarrow> (AppStartContent \<Rightarrow> AppStartContent) \<Rightarrow> Sampling \<Rightarrow> Sampling" where
  "upd_content scroll f s =
     (if scroll then s\<lparr>scrollSlowContent := f (scrollSlowContent s)\<rparr>
      else s\<lparr>startSlowContent := f (startSlowContent s)\<rparr>)"

text \<open>The closure of \<^verbatim>\<open>AppStartSample\<close>.\<close>

definition app_start_closure :: "env \<Rightarrow> probe \<Rightarrow> bool \<Rightarrow> WatchdogInner \<Rightarrow> WatchdogInner" where
  "app_start_closure e pr scroll w =
     (let c = start_content scroll (sampling w); finish = upd_content scroll (\<lambda>c. c\<lparr>isFinishStartSample := True\<rparr>) in
      if as_collectCount c = 0 \<and> g_isDumpStack (sampling w) then upd_sampling finish w
      else
        let (ok, s1) = (if as_collectCount c = 0 then CheckThreadSampler pr (sampling w) else (True, sampling w));
            w1 = w\<lparr>sampling := s1\<rparr> in
        if as_collectCount c = 0 \<and> \<not> ok \<or> \<not> samplerFuncs s1
        then upd_sampling (\<lambda>s. finish (s\<lparr>g_isDumpStack := False\<rparr>)) w1
        else if as_collectCount c < targetCount c then
          upd_sampling (upd_content scroll (\<lambda>c. c\<lparr>as_collectCount := as_collectCount c + 1\<rparr>))
            (emit ESample (upd_sampling (\<lambda>s. s\<lparr>g_isDumpStack := True\<rparr>) w1))
        else
          upd_sampling (\<lambda>s. finish (s\<lparr>g_isDumpStack := False\<rparr>))
            (ReportMainThreadEvent e pr (if scroll then ''APP_START_SCROLL_JANK'' else ''APP_START_JANK'')
               scroll True w1))"

definition AppStartSample :: "env \<Rightarrow> stamp \<Rightarrow> bool \<Rightarrow> WatchdogInner \<Rightarrow> bool \<times> WatchdogInner" where
  "AppStartSample e st scroll w =
     (let w1 = upd_sampling (upd_content scroll (\<lambda>c. c\<lparr>as_collectCount := 0, as_isStartSampleEnabled := False\<rparr>)) w;
          (cid, w2) = new_id w1;
          (r, w3) = InsertWatchdogTaskLocked e APP_START_SAMPLE
            (WatchdogTask_task e cid (st_now st) (st_times st) APP_START_SAMPLE
               (Some (AppStartSampleTask (st_tid st) scroll)) 0
               (word_of_int (as_sampleInterval (start_content scroll (sampling w1)))) False) w2
      in (r \<noteq> 0, w3))"

definition EnableAppStartSample ::
  "env \<Rightarrow> stamp \<Rightarrow> probe \<Rightarrow> bool \<Rightarrow> int \<Rightarrow> WatchdogInner \<Rightarrow> bool \<times> WatchdogInner" where
  "EnableAppStartSample e st pr scroll durationTime w =
     (let c = start_content scroll (sampling w);
          disable = upd_sampling (upd_content scroll (\<lambda>c. c\<lparr>enableStartSample := False\<rparr>)) in
      if \<not> enableStartSample c then (False, w)
      else if \<not> pr_config_exists pr then (False, disable w)
      else if \<not> scroll \<and> pr_tick pr - watchdogStartTime w > word_of_int (startUpDuration c)
        then (False, disable w)
      else if pr_ns pr div 1000000 - startTime c > APP_START_LIMIT then (False, disable w)
      else if as_reportTimes c \<le> 0 then (scroll, if scroll then w else disable w)
      else if \<not> as_isStartSampleEnabled c then (True, w)
      else if durationTime < threshold c then (False, w)
      else AppStartSample e st scroll w)"

definition insert_task ::
  "env \<Rightarrow> stamp \<Rightarrow> string \<Rightarrow> task_fn \<Rightarrow> int \<Rightarrow> WatchdogInner \<Rightarrow> int \<times> WatchdogInner" where
  "insert_task e st nm tsk interval w =
     (let (cid, w1) = new_id w
      in InsertWatchdogTaskLocked e nm
           (WatchdogTask_task e cid (st_now st) (st_times st) nm (Some tsk) 0 (word_of_int interval) False) w1)"

text \<open>The closure of \<^verbatim>\<open>StartScrollProfile\<close>.\<close>

definition scroll_closure :: "env \<Rightarrow> probe \<Rightarrow> WatchdogInner \<Rightarrow> WatchdogInner" where
  "scroll_closure e pr w =
     (let n = g_scrollSampleCount (sampling w); enable = upd_sampling (\<lambda>s. s\<lparr>isMainThreadStackEnabled := True\<rparr>) in
      if n = 0 \<and> g_isDumpStack (sampling w) then enable w
      else
        let (ok, s1) = (if n = 0 then CheckThreadSampler pr (sampling w) else (True, sampling w));
            w1 = w\<lparr>sampling := s1\<rparr> in
        if n = 0 \<and> \<not> ok then enable w1
        else if \<not> samplerFuncs s1 then enable w1
        else if n = 0 then
          upd_sampling (\<lambda>s. s\<lparr>g_scrollSampleCount := g_scrollSampleCount s + 1\<rparr>)
            (emit ESample (upd_sampling (\<lambda>s. s\<lparr>g_isDumpStack := True\<rparr>) w1))
        else
          upd_sampling (\<lambda>s. s\<lparr>stackContent := (stackContent s)\<lparr>scrollTimes := scrollTimes (stackContent s) - 1\<rparr>,
              g_isDumpStack := False, isMainThreadStackEnabled := True\<rparr>)
            (ReportMainThreadEvent e pr ''SCROLL_JANK'' True False w1))"

definition StartScrollProfile ::
  "env \<Rightarrow> stamp \<Rightarrow> probe \<Rightarrow> int \<Rightarrow> int \<Rightarrow> WatchdogInner \<Rightarrow> bool \<times> WatchdogInner" where
  "StartScrollProfile e st pr endTime sampleInterval w =
     (case SampleStackDetect e pr endTime SAMPLE_DEFAULT_REPORT_TIMES 10 True (watchdogStartTime w) (sampling w) of
        (False, s1) \<Rightarrow> (False, w\<lparr>sampling := s1\<rparr>)
      | (True, s1) \<Rightarrow>
          let w1 = w\<lparr>sampling := s1\<lparr>g_scrollSampleCount := 0\<rparr>\<rparr>
          in (True, snd (insert_task e st STACK_CHECKER (ScrollSampleTask sampleInterval (st_tid st)) sampleInterval w1)))"

definition CheckSample :: "env \<Rightarrow> stamp \<Rightarrow> probe \<Rightarrow> int \<Rightarrow> int \<Rightarrow> WatchdogInner \<Rightarrow> bool \<times> WatchdogInner" where
  "CheckSample e st pr endTime durationTime w =
     (if \<not> isScroll (sampling w) then EnableAppStartSample e st pr False durationTime w
      else case EnableAppStartSample e st pr True durationTime w of
          (True, w1) \<Rightarrow> (False, w1)
        | (False, w1) \<Rightarrow>
            if durationTime > SCROLL_INTERVAL \<and> \<not> enableStartSample (scrollSlowContent (sampling w1))
            then StartScrollProfile e st pr endTime SCROLL_INTERVAL w1
            else (False, w1))"

definition CheckSystemThread :: "env \<Rightarrow> WatchdogInner \<Rightarrow> bool" where
  "CheckSystemThread e w \<longleftrightarrow> isSystemApp w \<or> getuid e < MIN_APP_UID"

text \<open>The closure of \<^verbatim>\<open>StartProfileMainThread\<close>.\<close>

definition upd_stack :: "(StackContent \<Rightarrow> StackContent) \<Rightarrow> WatchdogInner \<Rightarrow> WatchdogInner" where
  "upd_stack f w = upd_sampling (\<lambda>s. s\<lparr>stackContent := f (stackContent s)\<rparr>) w"

definition main_thread_tail :: "WatchdogInner \<Rightarrow> WatchdogInner" where
  "main_thread_tail w =
     (if detectorCount (stackContent (sampling w)) = DETECT_STACK_COUNT
      then upd_sampling (\<lambda>s. s\<lparr>isMainThreadStackEnabled := True\<rparr>) w else w)"

definition main_thread_closure :: "env \<Rightarrow> probe \<Rightarrow> int \<Rightarrow> int \<Rightarrow> WatchdogInner \<Rightarrow> WatchdogInner" where
  "main_thread_closure e pr sampleInterval sampleCount w =
     (let c = stackContent (sampling w);
          first = (detectorCount c = 0 \<and> collectCount c = 0);
          enable = upd_sampling (\<lambda>s. s\<lparr>isMainThreadStackEnabled := True\<rparr>);
          timer = CheckEventTimer (pr_ns pr) (reportBegin c) (reportEnd c) sampleInterval in
      if first \<and> g_isDumpStack (sampling w) then enable w
      else
        let (ok, s1) = (if first then CheckThreadSampler pr (sampling w) else (True, sampling w));
            w1 = w\<lparr>sampling := s1\<rparr> in
        if first \<and> \<not> ok \<or> \<not> samplerFuncs s1 then enable w1
        else if 0 < collectCount c \<and> collectCount c < sampleCount then
          if jank KEY_AUTO_STOP_SAMPLING s1 \<noteq> 0 \<and> \<not> timer s1
          then upd_stack (\<lambda>c. c\<lparr>collectCount := sampleCount\<rparr>) w1
          else main_thread_tail (upd_stack (\<lambda>c. c\<lparr>collectCount := collectCount c + 1\<rparr>)
                 (emit ESample (upd_sampling (\<lambda>s. s\<lparr>g_isDumpStack := True\<rparr>) w1)))
        else if collectCount c = sampleCount then
          let w2 = upd_sampling (\<lambda>s. s\<lparr>g_isDumpStack := False\<rparr>) w1;
              w3 = ReportMainThreadEvent e pr (if CheckBusinessEmpty w2 then ''MAIN_THREAD_JANK'' else ''BUSSINESS_THREAD_JANK'')
                     False False w2
          in enable (upd_stack (\<lambda>c. c\<lparr>reportTimes := reportTimes c - 1\<rparr>) w3)
        else if timer s1 then
          main_thread_tail (upd_stack (\<lambda>c. c\<lparr>collectCount := collectCount c + 1\<rparr>) (emit ESample w1))
        else main_thread_tail (upd_stack (\<lambda>c. c\<lparr>detectorCount := detectorCount c + 1\<rparr>) w1))"

definition StartProfileMainThread ::
  "env \<Rightarrow> stamp \<Rightarrow> probe \<Rightarrow> int \<Rightarrow> int \<Rightarrow> WatchdogInner \<Rightarrow> WatchdogInner" where
  "StartProfileMainThread e st pr endTime sampleInterval w =
     (if CheckSystemThread e w \<and> bundleName w \<noteq> KEY_SCB_STATE then w
      else case SampleStackDetect e pr endTime (jank KEY_SAMPLE_REPORT_TIMES (sampling w))
             (jank KEY_IGNORE_STARTUP_TIME (sampling w)) False (watchdogStartTime w) (sampling w) of
          (False, s1) \<Rightarrow> w\<lparr>sampling := s1\<rparr>
        | (True, s1) \<Rightarrow>
            let w1 = upd_stack (\<lambda>c. c\<lparr>detectorCount := 0, collectCount := 0\<rparr>) (w\<lparr>sampling := s1\<rparr>)
            in snd (insert_task e st STACK_CHECKER
                 (MainThreadSampleTask sampleInterval (jank KEY_SAMPLE_COUNT s1) (st_tid st)) sampleInterval w1))"

section \<open>Freeze sampling\<close>

definition ResetFreezeSampleFlags :: "Sampling \<Rightarrow> Sampling" where
  "ResetFreezeSampleFlags s = s\<lparr>g_isDumpStack := False, g_isReuseStack := False, g_freezeTaskFinished := True\<rparr>"

text \<open>The result is the file name; the content written is not kept.\<close>

definition SaveFreezeStackToFile :: "probe \<Rightarrow> Sampling \<Rightarrow> string \<times> Sampling" where
  "SaveFreezeStackToFile pr s =
     (let s1 = ResetFreezeSampleFlags s in
      if \<not> pr_dir pr then ([], s1)
      else if \<not> samplerFuncs s1 \<or> pr_collect pr = None then ([], s1)
      else let f = currentFile (sampleFreezeInfo s1)
           in (f, s1\<lparr>sampleFreezeInfo := \<lparr>lastSaveTime = pr_tick pr, freezeFile = f, currentFile = []\<rparr>\<rparr>))"

definition CheckTaskValid :: "int \<Rightarrow> int \<Rightarrow> WatchdogInner \<Rightarrow> string + int" where
  "CheckTaskValid duration interval w =
     (if IsTaskExistLocked FREEZE_SAMPLE w then Inl (currentFile (sampleFreezeInfo (sampling w)))
      else if duration \<le> 0 \<or> interval \<le> 0 then Inl []
      else let target = duration div interval in if target < 1 then Inl [] else Inr target)"

definition freeze_closure :: "probe \<Rightarrow> int \<Rightarrow> WatchdogInner \<Rightarrow> WatchdogInner" where
  "freeze_closure pr target w =
     (let s0 = sampling w; n = g_freezeSampleCount s0;
          s1 = (if n = 0 \<and> g_isDumpStack s0 then s0\<lparr>g_isReuseStack := True\<rparr> else s0) in
      if g_isReuseStack s1 then
        (if \<not> g_isDumpStack s1 then w\<lparr>sampling := snd (SaveFreezeStackToFile pr s1)\<rparr> else w\<lparr>sampling := s1\<rparr>)
      else
        let (ok, s2) = (if n = 0 then CheckThreadSampler pr s1 else (True, s1)) in
        if n = 0 \<and> \<not> ok \<or> \<not> samplerFuncs s2 then w\<lparr>sampling := ResetFreezeSampleFlags s2\<rparr>
        else if n < target then
          emit ESample (w\<lparr>sampling := s2\<lparr>g_isDumpStack := True, g_freezeSampleCount := n + 1\<rparr>\<rparr>)
        else
          w\<lparr>sampling := (snd (SaveFreezeStackToFile pr (s2\<lparr>g_freezeSampleCount := n + 1\<rparr>)))\<lparr>g_freezeSampleCount := n + 2\<rparr>\<rparr>)"

text \<open>\<open>date\<close> is the result of \<^verbatim>\<open>GetFormatDate\<close>.\<close>

definition StartSample :: "env \<Rightarrow> stamp \<Rightarrow> string \<Rightarrow> int \<Rightarrow> int \<Rightarrow> WatchdogInner \<Rightarrow> string \<times> WatchdogInner" where
  "StartSample e st date duration interval w =
     (case CheckTaskValid duration interval w of
        Inl result \<Rightarrow> (result, w)
      | Inr target \<Rightarrow>
          let w1 = upd_sampling (\<lambda>s. s\<lparr>g_freezeSampleCount := 0\<rparr>) w;
              (r, w2) = insert_task e st FREEZE_SAMPLE (FreezeSampleTask (getprocpid e) target) interval w1 in
          if to_int32 r = 0 then ([], w2)
          else let f = ''freeze_'' @ date @ ''_'' @ show_int (getprocpid e) @ ''.txt''
               in (f, upd_sampling (\<lambda>s. s\<lparr>sampleFreezeInfo := (sampleFreezeInfo s)\<lparr>currentFile := f\<rparr>\<rparr>) w2))"

definition StopSample :: "probe \<Rightarrow> int \<Rightarrow> WatchdogInner \<Rightarrow> string \<times> WatchdogInner" where
  "StopSample pr sampleCount w =
     (let s = sampling w in
      if sampleCount \<le> 0 then ([], w)
      else if g_freezeSampleCount s > 0 \<and> g_freezeSampleCount s \<le> sampleCount then
        (case SaveFreezeStackToFile pr s of (f, s1) \<Rightarrow> (f, w\<lparr>sampling := s1\<rparr>))
      else (freezeFile (sampleFreezeInfo s), w))"

section \<open>Trace collection\<close>

definition upd_trace :: "(TraceContent \<Rightarrow> TraceContent) \<Rightarrow> WatchdogInner \<Rightarrow> WatchdogInner" where
  "upd_trace f w = upd_sampling (\<lambda>s. s\<lparr>traceContent := f (traceContent s)\<rparr>) w"

definition DumpTraceTask :: "probe \<Rightarrow> int \<Rightarrow> WatchdogInner \<Rightarrow> WatchdogInner" where
  "DumpTraceTask pr interval w =
     (let w1 = upd_trace (\<lambda>c. c\<lparr>traceCount := traceCount c + 1\<rparr>) w;
          c1 = traceContent (sampling w1);
          w2 = (if CheckEventTimer (pr_ns pr) (tr_reportBegin c1) (tr_reportEnd c1) interval (sampling w1)
                then upd_trace (\<lambda>c. c\<lparr>dumpCount := dumpCount c + 1\<rparr>) w1 else w1);
          c2 = traceContent (sampling w2) in
      if traceCount c2 \<ge> COLLECT_TRACE_MAX then
        upd_sampling (\<lambda>s. s\<lparr>isMainThreadTraceEnabled := True\<rparr>)
          (if dumpCount c2 \<ge> COLLECT_TRACE_MIN \<and> xcollieFfrtTask (sampling w2) then emit EDumpTrace w2 else w2)
      else w2)"

definition StartTraceProfile :: "env \<Rightarrow> stamp \<Rightarrow> probe \<Rightarrow> WatchdogInner \<Rightarrow> int \<times> WatchdogInner" where
  "StartTraceProfile e st pr w =
     (if \<not> pr_collector pr then (- 1, upd_trace (\<lambda>c. c\<lparr>traceState := 0\<rparr>) w)
      else let w1 = emit EStartTrace (upd_sampling (\<lambda>s. s\<lparr>xcollieFfrtTask := True\<rparr>) w);
               w2 = upd_trace (\<lambda>c. c\<lparr>dumpCount := 0, traceCount := 0\<rparr>) w1
           in (0, snd (insert_task e st TRACE_CHECKER TraceTask DURATION_TIME w2)))"

definition CollectTraceDetect :: "env \<Rightarrow> stamp \<Rightarrow> probe \<Rightarrow> int \<Rightarrow> WatchdogInner \<Rightarrow> WatchdogInner" where
  "CollectTraceDetect e st pr endTime w =
     (let c = traceContent (sampling w) in
      if isBetaVersion e \<or> CheckSystemThread e w then w
      else if traceState c = 1 \<and> to_ms (endTime - tr_lastEndTime c) < ONE_DAY_LIMIT then w
      else snd (StartTraceProfile e st pr (upd_trace (\<lambda>c. c\<lparr>traceState := 1,
             tr_reportBegin := curBegin (timeContent (sampling w)),
             tr_reportEnd := curEnd (timeContent (sampling w)), tr_lastEndTime := endTime\<rparr>) w)))"

section \<open>The main looper's hooks\<close>

definition DistributeStart :: "int \<Rightarrow> WatchdogInner \<Rightarrow> WatchdogInner" where
  "DistributeStart ns w = upd_sampling (\<lambda>s. s\<lparr>timeContent := (timeContent s)\<lparr>curBegin := ns\<rparr>\<rparr>) w"

text \<open>\<open>ns\<close> is the time stamp written, \<open>start\<close> and \<open>end\<close> are readings of the steady clock.\<close>

definition DistributeEnd ::
  "env \<Rightarrow> stamp \<Rightarrow> probe \<Rightarrow> int \<Rightarrow> int \<Rightarrow> int \<Rightarrow> WatchdogInner \<Rightarrow> WatchdogInner" where
  "DistributeEnd e st pr ns startT endT w =
     (if \<not> HICOLLIE_JANK_ENABLE e then w
      else let duration = endT - startT;
               w1 = upd_sampling (\<lambda>s. s\<lparr>timeContent := (timeContent s)\<lparr>curEnd := ns\<rparr>\<rparr>) w in
        case CheckSample e st pr endT (to_ms duration) w1 of
          (True, w2) \<Rightarrow> w2
        | (False, w2) \<Rightarrow>
            let sampleInterval = jank KEY_SAMPLE_INTERVAL (sampling w2); logType = jank KEY_LOG_TYPE (sampling w2) in
            if duration > sampleInterval * 1000000 then
              if logType = 1 then StartProfileMainThread e st pr endT sampleInterval w2
              else if logType = 2 then
                (if duration > DUMPTRACE_TIME * 1000000 then CollectTraceDetect e st pr endT w2 else w2)
              else if logType = 0 then
                (if duration < DUMPTRACE_TIME * 1000000 then StartProfileMainThread e st pr endT sampleInterval w2
                 else CollectTraceDetect e st pr endT w2)
              else w2
            else w2)"

section \<open>Stacks of a blocked thread\<close>

definition InsertSampleStackTaskImpl ::
  "env \<Rightarrow> stamp \<Rightarrow> string \<Rightarrow> int \<Rightarrow> u64 \<Rightarrow> WatchdogInner \<Rightarrow> WatchdogInner" where
  "InsertSampleStackTaskImpl e st sampleStackName tid sampleInterval w =
     (let headerInfo = ''#ThreadInfos Tid: '' @ show_int tid @ [CHR 0x0A]; ctr = nextCounter w;
          w1 = w\<lparr>counters := (counters w)(ctr := 0), nextCounter := Suc ctr\<rparr>
      in RunPeriodicalTask e st sampleStackName (Some (SampleStackTask tid sampleStackName ctr headerInfo))
           sampleInterval sampleInterval w1)"

definition sample_stack_closure :: "probe \<Rightarrow> string \<Rightarrow> nat \<Rightarrow> string \<Rightarrow> WatchdogInner \<Rightarrow> WatchdogInner" where
  "sample_stack_closure pr nm ctr headerInfo w =
     (let w1 = (case pr_backtrace pr of
                  None \<Rightarrow> w
                | Some stack \<Rightarrow>
                    let (oldStack, es1) = SampleStackMap_GetAndRemove nm (pr_tick pr) (stacks w);
                        newStack = ''SnapshotTime:'' @ pr_time pr @ [CHR 0x0A] @ stack;
                        val = (if oldStack = [] then headerInfo @ newStack else oldStack @ [CHR 0x0A] @ newStack)
                    in w\<lparr>stacks := SampleStackMap_Set nm val (pr_tick2 pr) (pr_tick3 pr) es1\<rparr>);
          c = counters w1 ctr + 1;
          w2 = w1\<lparr>counters := (counters w1)(ctr := c)\<rparr>
      in if c \<ge> SAMPLE_STACK_MAX_COUNT then w2\<lparr>taskNameSet := taskNameSet w2 - {nm}\<rparr> else w2)"

section \<open>The kick of the hung-task detector\<close>

definition SendMsgToHungtask :: "probe \<Rightarrow> string \<Rightarrow> WatchdogInner \<Rightarrow> bool \<times> WatchdogInner" where
  "SendMsgToHungtask pr msg w =
     (if g_fd w = - 1 then (False, w)
      else if \<not> pr_sent pr then (False, w\<lparr>g_fd := - 1\<rparr>)
      else (True, emit (ESendHungtask msg) w))"

definition kick_closure :: "env \<Rightarrow> probe \<Rightarrow> WatchdogInner \<Rightarrow> WatchdogInner" where
  "kick_closure e pr w =
     (if g_fd w \<noteq> - 1 then
        snd (SendMsgToHungtask pr (if isHmos w then ''kick,'' @ selfProcName e else ''kick'') w)
      else if pr_open1 pr < 0 then
        (if pr_open2 pr < 0 then w\<lparr>g_fd := pr_open2 pr\<rparr>
         else snd (SendMsgToHungtask pr (''on,10,'' @ selfProcName e) (w\<lparr>g_fd := pr_open2 pr, isHmos := True\<rparr>)))
      else let w1 = w\<lparr>g_fd := pr_open1 pr\<rparr>
           in snd (SendMsgToHungtask pr (if isHmos w1 then ''on,10,'' @ selfProcName e else ''on,72'') w1))"

section \<open>Running and finishing closures\<close>

fun run_closure :: "env \<Rightarrow> probe \<Rightarrow> task_fn \<Rightarrow> WatchdogInner \<Rightarrow> WatchdogInner" where
  "run_closure e pr (UserTask n) w = emit (EUserTask n) w"
| "run_closure e pr (SampleStackTask tid nm ctr header) w = sample_stack_closure pr nm ctr header w"
| "run_closure e pr (AppStartSampleTask tid scroll) w = app_start_closure e pr scroll w"
| "run_closure e pr (ScrollSampleTask i tid) w = scroll_closure e pr w"
| "run_closure e pr (MainThreadSampleTask i c tid) w = main_thread_closure e pr i c w"
| "run_closure e pr (FreezeSampleTask pid target) w = freeze_closure pr target w"
| "run_closure e pr TraceTask w = DumpTraceTask pr DURATION_TIME w"
| "run_closure e pr KickTask w = kick_closure e pr w"

definition deinit_if :: "bool \<Rightarrow> probe \<Rightarrow> WatchdogInner \<Rightarrow> WatchdogInner" where
  "deinit_if b pr w =
     (if \<not> b then w
      else case Deinit pr (sampling w) of
          (True, s1) \<Rightarrow> w\<lparr>sampling := ResetThreadSamplerFuncs s1\<rparr>
        | (False, s1) \<Rightarrow> w\<lparr>sampling := s1\<rparr>)"

definition pop_queue :: "WatchdogInner \<Rightarrow> WatchdogInner" where
  "pop_queue w = w\<lparr>checkerQueue := pq_pop (checkerQueue w)\<rparr>"

definition erase_name :: "string \<Rightarrow> WatchdogInner \<Rightarrow> WatchdogInner" where
  "erase_name nm w = w\<lparr>taskNameSet := taskNameSet w - {nm}\<rparr>"

definition CheckCurrentTaskLocked :: "probe \<Rightarrow> WatchdogTask \<Rightarrow> WatchdogInner \<Rightarrow> bool \<times> WatchdogInner" where
  "CheckCurrentTaskLocked pr t w =
     (let s = sampling w in
      if task_name t = [] then (True, pop_queue w)
      else if task_name t = STACK_CHECKER \<and> isMainThreadStackEnabled s then
        (True, upd_sampling (\<lambda>s. s\<lparr>stackContent := (stackContent s)\<lparr>isStartSampleEnabled := True\<rparr>,
             isMainThreadStackEnabled := False\<rparr>)
           (deinit_if (\<not> g_isDumpStack s \<and> \<not> g_isReuseStack s) pr (erase_name STACK_CHECKER (pop_queue w))))
      else if task_name t = APP_START_SAMPLE \<and>
          (isFinishStartSample (startSlowContent s) \<or> isFinishStartSample (scrollSlowContent s)) then
        (True, upd_sampling (\<lambda>s. s\<lparr>
             startSlowContent := (startSlowContent s)\<lparr>isFinishStartSample := False, as_isStartSampleEnabled := True\<rparr>,
             scrollSlowContent := (scrollSlowContent s)\<lparr>isFinishStartSample := False, as_isStartSampleEnabled := True\<rparr>\<rparr>)
           (deinit_if (\<not> g_isDumpStack s \<and> \<not> g_isReuseStack s) pr (erase_name APP_START_SAMPLE (pop_queue w))))
      else if task_name t = TRACE_CHECKER \<and> isMainThreadTraceEnabled s then
        (True, upd_sampling (\<lambda>s. s\<lparr>isMainThreadTraceEnabled := False,
             traceContent := (if dumpCount (traceContent s) < COLLECT_TRACE_MIN
                              then (traceContent s)\<lparr>traceState := 0\<rparr> else traceContent s)\<rparr>)
           (erase_name TRACE_CHECKER (pop_queue w)))
      else if task_name t = FREEZE_SAMPLE \<and> g_freezeTaskFinished s then
        (True, upd_sampling (\<lambda>s. s\<lparr>g_isReuseStack := False, g_freezeTaskFinished := False\<rparr>)
           (erase_name FREEZE_SAMPLE (deinit_if (\<not> g_isDumpStack s) pr (pop_queue w))))
      else (False, w))"

section \<open>Frame\<close>

lemma upd_sampling_sel [simp]:
  "checkerQueue (upd_sampling f w) = checkerQueue w" "curId (upd_sampling f w) = curId w"
  "taskNameSet (upd_sampling f w) = taskNameSet w" "sampling (upd_sampling f w) = f (sampling w)"
  "isNeedStop (upd_sampling f w) = isNeedStop w" "out (upd_sampling f w) = out w"
  "checkers (upd_sampling f w) = checkers w" "nextChecker (upd_sampling f w) = nextChecker w"
  by (simp_all add: upd_sampling_def)

lemma Report_sel [simp]:
  "checkerQueue (ReportMainThreadEvent e pr nm s a w) = checkerQueue w"
  "curId (ReportMainThreadEvent e pr nm s a w) = curId w"
  "taskNameSet (ReportMainThreadEvent e pr nm s a w) = taskNameSet w"
  "isNeedStop (ReportMainThreadEvent e pr nm s a w) = isNeedStop w"
  "checkers (ReportMainThreadEvent e pr nm s a w) = checkers w"
  "nextChecker (ReportMainThreadEvent e pr nm s a w) = nextChecker w"
  by (simp_all add: ReportMainThreadEvent_def)

lemma Report_sampling:
  "stackContent (sampling (ReportMainThreadEvent e pr nm s a w)) = stackContent (sampling w)"
  "isMainThreadStackEnabled (sampling (ReportMainThreadEvent e pr nm s a w)) = isMainThreadStackEnabled (sampling w)"
  by (simp_all add: ReportMainThreadEvent_def)

definition queue_state :: "WatchdogInner \<Rightarrow> WatchdogTask list \<times> int \<times> bool" where
  "queue_state w = (checkerQueue w, curId w, isNeedStop w)"

lemma queue_state_closures:
  "queue_state (app_start_closure e pr scroll w) = queue_state w"
  "queue_state (scroll_closure e pr w) = queue_state w"
  "queue_state (main_thread_closure e pr i c w) = queue_state w"
  "queue_state (freeze_closure pr target w) = queue_state w"
  "queue_state (DumpTraceTask pr i w) = queue_state w"
  "queue_state (sample_stack_closure pr nm ctr h w) = queue_state w"
  "queue_state (kick_closure e pr w) = queue_state w"
  by (simp_all add: queue_state_def app_start_closure_def scroll_closure_def main_thread_closure_def
      main_thread_tail_def upd_stack_def freeze_closure_def DumpTraceTask_def upd_trace_def
      sample_stack_closure_def kick_closure_def SendMsgToHungtask_def Let_def split_beta
      split: option.split)

lemma queue_state_run_closure: "queue_state (run_closure e pr f w) = queue_state w"
  by (cases f) (simp_all add: queue_state_closures, simp_all add: queue_state_def)

section \<open>The main thread's closure ends\<close>

text \<open>
  Runs of the closure with arbitrary readings. The rank bounds the number of runs left: detections
  still allowed, then samples still wanted, then the report.
\<close>

fun main_thread_runs :: "env \<Rightarrow> int \<Rightarrow> int \<Rightarrow> probe list \<Rightarrow> WatchdogInner \<Rightarrow> WatchdogInner" where
  "main_thread_runs e i n [] w = w"
| "main_thread_runs e i n (pr # prs) w = main_thread_runs e i n prs (main_thread_closure e pr i n w)"

definition mt_state :: "WatchdogInner \<Rightarrow> int \<times> int \<times> bool" where
  "mt_state w = (detectorCount (stackContent (sampling w)), collectCount (stackContent (sampling w)),
     isMainThreadStackEnabled (sampling w))"

definition mt_rank :: "int \<Rightarrow> int \<times> int \<times> bool \<Rightarrow> nat" where
  "mt_rank n st = (case st of (d, c, b) \<Rightarrow> nat (if c = 0 then n + 3 - d else n + 1 - c))"

definition mt_good :: "int \<Rightarrow> int \<times> int \<times> bool \<Rightarrow> bool" where
  "mt_good n st \<longleftrightarrow> (case st of (d, c, b) \<Rightarrow> 0 \<le> d \<and> d < 2 \<and> 0 \<le> c \<and> c \<le> n)"

lemma CheckThreadSampler_frame:
  "stackContent (snd (CheckThreadSampler pr s)) = stackContent s"
  "isMainThreadStackEnabled (snd (CheckThreadSampler pr s)) = isMainThreadStackEnabled s"
  by (auto simp: CheckThreadSampler_def InitThreadSamplerFuncs_def ResetThreadSamplerFuncs_def
      split: dl_result.split prod.split bool.split)

lemma mt_state_simps:
  "mt_state (emit x w) = mt_state w"
  "mt_state (ReportMainThreadEvent e pr nm s a w) = mt_state w"
  "mt_state (upd_sampling (\<lambda>s. s\<lparr>g_isDumpStack := b\<rparr>) w) = mt_state w"
  "mt_state (upd_sampling (\<lambda>s. s\<lparr>isMainThreadStackEnabled := True\<rparr>) w) =
     (fst (mt_state w), fst (snd (mt_state w)), True)"
  "mt_state (upd_stack (\<lambda>c. c\<lparr>collectCount := collectCount c + 1\<rparr>) w) =
     (fst (mt_state w), fst (snd (mt_state w)) + 1, snd (snd (mt_state w)))"
  "mt_state (upd_stack (\<lambda>c. c\<lparr>collectCount := n\<rparr>) w) = (fst (mt_state w), n, snd (snd (mt_state w)))"
  "mt_state (upd_stack (\<lambda>c. c\<lparr>detectorCount := detectorCount c + 1\<rparr>) w) =
     (fst (mt_state w) + 1, fst (snd (mt_state w)), snd (snd (mt_state w)))"
  "mt_state (upd_stack (\<lambda>c. c\<lparr>reportTimes := reportTimes c - 1\<rparr>) w) = mt_state w"
  "mt_state (main_thread_tail w) =
     (fst (mt_state w), fst (snd (mt_state w)), snd (snd (mt_state w)) \<or> fst (mt_state w) = 2)"
  by (simp_all add: mt_state_def upd_stack_def main_thread_tail_def Report_sampling DETECT_STACK_COUNT_def)

text \<open>What one run does to the counters and the flag.\<close>

lemma mt_next:
  assumes "mt_state w = (d, c, b)"
  shows "mt_state (main_thread_closure e pr i n w) \<in>
    {(d, c, True)} \<union>
    (if 0 < c \<and> c < n then {(d, n, b), (d, c + 1, b \<or> d = 2)}
     else if c = n then {} else {(d, c + 1, b \<or> d = 2), (d + 1, c, b \<or> d + 1 = 2)})"
proof -
  have dc: "detectorCount (stackContent (sampling w)) = d" "collectCount (stackContent (sampling w)) = c"
    using assms by (simp_all add: mt_state_def)
  have m1: "mt_state (w\<lparr>sampling := snd (CheckThreadSampler pr (sampling w))\<rparr>) = (d, c, b)"
    using assms by (simp add: mt_state_def CheckThreadSampler_frame)
  show ?thesis
    by (simp add: main_thread_closure_def dc Let_def split_beta mt_state_simps m1 assms)
qed

lemma main_thread_closure_state:
  assumes "mt_good n (mt_state w)" and "\<not> snd (snd (mt_state w))"
  shows "snd (snd (mt_state (main_thread_closure e pr i n w))) \<or>
    mt_good n (mt_state (main_thread_closure e pr i n w)) \<and>
    mt_rank n (mt_state (main_thread_closure e pr i n w)) < mt_rank n (mt_state w)"
proof -
  obtain d c b where st: "mt_state w = (d, c, b)" by (cases "mt_state w")
  show ?thesis
    using mt_next [OF st, of e pr i n] assms unfolding st
    by (auto simp: mt_rank_def mt_good_def split: if_splits)
qed

lemma main_thread_keeps_flag:
  "snd (snd (mt_state w)) \<Longrightarrow> snd (snd (mt_state (main_thread_closure e pr i n w)))"
  using mt_next [of w "fst (mt_state w)" "fst (snd (mt_state w))" True e pr i n]
  by (auto simp: prod_eq_iff split: if_splits)

lemma main_thread_runs_flag:
  "snd (snd (mt_state w)) \<Longrightarrow> snd (snd (mt_state (main_thread_runs e i n prs w)))"
  by (induction prs arbitrary: w) (auto simp: main_thread_keeps_flag)

lemma main_thread_runs_end:
  assumes "mt_good n (mt_state w)" and "mt_rank n (mt_state w) \<le> length prs"
  shows "snd (snd (mt_state (main_thread_runs e i n prs w)))"
  using assms
proof (induction prs arbitrary: w)
  case Nil
  then show ?case by (auto simp: mt_rank_def mt_good_def split: if_splits prod.splits)
next
  case (Cons pr prs)
  show ?case
  proof (cases "snd (snd (mt_state w))")
    case True
    then show ?thesis by (rule main_thread_runs_flag)
  next
    case False
    from main_thread_closure_state [OF Cons.prems(1) False, of e pr i] show ?thesis
    proof
      assume "snd (snd (mt_state (main_thread_closure e pr i n w)))"
      then show ?thesis by (simp add: main_thread_runs_flag)
    next
      assume "mt_good n (mt_state (main_thread_closure e pr i n w)) \<and>
        mt_rank n (mt_state (main_thread_closure e pr i n w)) < mt_rank n (mt_state w)"
      with Cons.prems(2) show ?thesis using Cons.IH [of "main_thread_closure e pr i n w"] by simp
    qed
  qed
qed

section \<open>The closure of a blocked thread\<close>

fun sample_stack_runs :: "string \<Rightarrow> nat \<Rightarrow> string \<Rightarrow> probe list \<Rightarrow> WatchdogInner \<Rightarrow> WatchdogInner" where
  "sample_stack_runs nm ctr h [] w = w"
| "sample_stack_runs nm ctr h (pr # prs) w = sample_stack_runs nm ctr h prs (sample_stack_closure pr nm ctr h w)"

lemma sample_stack_closure_sel:
  "counters (sample_stack_closure pr nm ctr h w) ctr = counters w ctr + 1"
  "taskNameSet (sample_stack_closure pr nm ctr h w) =
     (if counters w ctr + 1 \<ge> SAMPLE_STACK_MAX_COUNT then taskNameSet w - {nm} else taskNameSet w)"
  by (simp_all add: sample_stack_closure_def Let_def split_beta split: option.split)

lemma sample_stack_runs_names:
  "taskNameSet (sample_stack_runs nm ctr h prs w) =
    (if prs \<noteq> [] \<and> counters w ctr + int (length prs) \<ge> SAMPLE_STACK_MAX_COUNT
     then taskNameSet w - {nm} else taskNameSet w)"
proof (induction prs arbitrary: w)
  case (Cons pr prs)
  then show ?case by (auto simp: sample_stack_closure_sel)
qed simp

lemma stacks_inv_closure: "ssm_inv (stacks w) \<Longrightarrow> ssm_inv (stacks (sample_stack_closure pr nm ctr h w))"
  by (simp add: sample_stack_closure_def Let_def split_beta ssm.inv_set ssm.inv_get split: option.split)

section \<open>Properties\<close>

text \<open>
  C28. The sampling of a slow main thread always ends: whatever the clock and the sampler return,
  after at most the number of samples plus three runs the closure has marked itself finished.
\<close>

theorem main_thread_sampling_ends:
  assumes "detectorCount (stackContent (sampling w)) = 0" and "collectCount (stackContent (sampling w)) = 0"
    and "0 \<le> n" and "n + 3 \<le> int (length prs)"
  shows "isMainThreadStackEnabled (sampling (main_thread_runs e i n prs w))"
proof -
  have "mt_good n (mt_state w)" "mt_rank n (mt_state w) \<le> length prs"
    using assms by (simp_all add: mt_good_def mt_rank_def mt_state_def)
  from main_thread_runs_end [OF this, of e i] show ?thesis by (simp add: mt_state_def)
qed

definition demo_probe :: probe where
  "demo_probe = \<lparr>pr_dl = DlOk, pr_install = True, pr_init = 0, pr_deinit = 0, pr_collect = Some [],
     pr_write = True, pr_dir = True, pr_ns = 5, pr_tick = 5, pr_tick2 = 5, pr_tick3 = 5, pr_time = [],
     pr_backtrace = Some ''frame'', pr_open1 = - 1, pr_open2 = - 1, pr_sent = False, pr_pid = 1,
     pr_config_exists = True, pr_collector = True\<rparr>"

theorem main_thread_sampling_ends_witness:
  "isMainThreadStackEnabled (sampling (main_thread_runs service_env 150 10 (replicate 13 demo_probe) WatchdogInner_init))"
  using main_thread_sampling_ends [of WatchdogInner_init 10 "replicate 13 demo_probe" service_env 150]
  by (simp add: WatchdogInner_init_def Sampling_init_def StackContent_init_def)

text \<open>
  A detection that succeeds closes the door for every further one, main thread or scrolling,
  until the watchdog thread takes the finished task from the queue, which opens it again.
\<close>

theorem one_sampling_session:
  assumes "SampleStackDetect e pr endT upd ign scroll start s = (True, s')"
  shows "isStartSampleEnabled (stackContent s) \<and>
    fst (SampleStackDetect e' pr' endT' upd' ign' scroll' start' s') = False \<and>
    (isMainThreadStackEnabled (sampling w) \<longrightarrow>
      isStartSampleEnabled (stackContent (sampling (snd (CheckCurrentTaskLocked pr
        (WatchdogTask_default\<lparr>task_name := STACK_CHECKER\<rparr>) w)))))"
  using assms
  by (auto simp: SampleStackDetect_def CheckCurrentTaskLocked_def Let_def split: if_splits)

theorem one_sampling_session_witness:
  "fst (SampleStackDetect service_env demo_probe 9 1 10 False 0
     (snd (SampleStackDetect service_env (demo_probe\<lparr>pr_tick := 20000\<rparr>) 7 1 10 True 0 Sampling_init))) = False"
proof -
  have "SampleStackDetect service_env (demo_probe\<lparr>pr_tick := 20000\<rparr>) 7 1 10 True 0 Sampling_init =
     (True, snd (SampleStackDetect service_env (demo_probe\<lparr>pr_tick := 20000\<rparr>) 7 1 10 True 0 Sampling_init))"
    by (simp add: SampleStackDetect_def demo_probe_def Sampling_init_def StackContent_init_def Let_def
        times_member_def SAMPLE_DEFAULT_REPORT_TIMES_def)
  from one_sampling_session [OF this, of service_env demo_probe 9 1 10 False 0] show ?thesis by simp
qed

text \<open>
  When the queue is full, the sampling of the main thread is lost for good: the detection has
  already closed the door, the task is refused, and the refusal is ignored; no later detection
  succeeds although nothing is sampled.
\<close>

theorem sampling_lost_when_queue_full:
  assumes "MAX_WATCH_NUM \<le> length (checkerQueue w)"
    and "\<not> (CheckSystemThread e w \<and> bundleName w \<noteq> KEY_SCB_STATE)"
    and "SampleStackDetect e pr endT (jank KEY_SAMPLE_REPORT_TIMES (sampling w))
      (jank KEY_IGNORE_STARTUP_TIME (sampling w)) False (watchdogStartTime w) (sampling w) = (True, s1)"
  shows "checkerQueue (StartProfileMainThread e st pr endT i w) = checkerQueue w \<and>
    fst (SampleStackDetect e' pr' endT' upd' ign' scroll' start'
      (sampling (StartProfileMainThread e st pr endT i w))) = False"
proof -
  have off: "\<not> isStartSampleEnabled (stackContent s1)"
    using assms(3) by (auto simp: SampleStackDetect_def Let_def set_times_member_def split: if_splits)
  define w1 where "w1 = upd_stack (\<lambda>c. c\<lparr>detectorCount := 0, collectCount := 0\<rparr>) (w\<lparr>sampling := s1\<rparr>)"
  have "InsertWatchdogTaskLocked e STACK_CHECKER t (snd (new_id w1)) = (0, snd (new_id w1))" for t
    using assms(1) by (intro Insert_refused) (simp add: insert_refused_def w1_def upd_stack_def)
  then have eq: "StartProfileMainThread e st pr endT i w = snd (new_id w1)"
    using assms(2,3) unfolding StartProfileMainThread_def
    by (auto simp: w1_def [symmetric] insert_task_def Let_def split_beta)
  have "sampling (snd (new_id w1)) = s1\<lparr>stackContent := (stackContent s1)\<lparr>detectorCount := 0, collectCount := 0\<rparr>\<rparr>"
    by (simp add: new_id_def w1_def upd_stack_def)
  then show ?thesis
    unfolding eq using off by (simp add: SampleStackDetect_def Let_def w1_def upd_stack_def)
qed

theorem sampling_lost_when_queue_full_witness:
  "fst (SampleStackDetect service_env demo_probe 9 1 10 False 0
     (sampling (StartProfileMainThread (service_env\<lparr>getuid := 20001\<rparr>) demo_stamp (demo_probe\<lparr>pr_tick := 20000\<rparr>) 7 150
       (WatchdogInner_init\<lparr>checkerQueue := replicate 128 WatchdogTask_default\<rparr>)))) = False"
proof -
  let ?w = "WatchdogInner_init\<lparr>checkerQueue := replicate 128 WatchdogTask_default\<rparr>"
  let ?e = "service_env\<lparr>getuid := 20001\<rparr>"
  let ?p = "demo_probe\<lparr>pr_tick := 20000\<rparr>"
  have "SampleStackDetect ?e ?p 7 (jank KEY_SAMPLE_REPORT_TIMES (sampling ?w))
      (jank KEY_IGNORE_STARTUP_TIME (sampling ?w)) False (watchdogStartTime ?w) (sampling ?w) =
    (True, snd (SampleStackDetect ?e ?p 7 (jank KEY_SAMPLE_REPORT_TIMES (sampling ?w))
      (jank KEY_IGNORE_STARTUP_TIME (sampling ?w)) False (watchdogStartTime ?w) (sampling ?w)))"
    by (simp add: SampleStackDetect_def demo_probe_def WatchdogInner_init_def Sampling_init_def
        StackContent_init_def Let_def times_member_def SAMPLE_DEFAULT_REPORT_TIMES_def jank_def jankParamsMap_init_def)
  moreover have "\<not> CheckSystemThread ?e ?w"
    by (simp add: CheckSystemThread_def WatchdogInner_init_def service_env_def MIN_APP_UID_def)
  ultimately show ?thesis
    using sampling_lost_when_queue_full [of ?w ?e ?p 7] by (simp add: MAX_WATCH_NUM_def)
qed

text \<open>
  The stack sampling of a blocked thread runs at most ten times: its name leaves the set of
  registered names exactly at the tenth run, so that it is not inserted again; until then the set is
  unchanged.
\<close>

theorem blocked_thread_sampled_ten_times:
  assumes "counters w ctr = 0" and "nm \<in> taskNameSet w"
  shows "nm \<in> taskNameSet (sample_stack_runs nm ctr h prs w) \<longleftrightarrow> length prs < 10"
  using assms by (auto simp: sample_stack_runs_names SAMPLE_STACK_MAX_COUNT_def)

theorem blocked_thread_sampled_ten_times_witness:
  "''n'' \<in> taskNameSet (sample_stack_runs ''n'' 0 ''h'' (replicate 9 demo_probe)
     (WatchdogInner_init\<lparr>taskNameSet := {''n''}\<rparr>))"
  using blocked_thread_sampled_ten_times [of "WatchdogInner_init\<lparr>taskNameSet := {''n''}\<rparr>" 0 "''n''" "''h''" "replicate 9 demo_probe"]
  by (simp add: WatchdogInner_init_def)

end
