(* ===== verification/Watchdog_Task.thy ===== *)
theory Watchdog_Task
  imports Watchdog_Sampling
begin

text \<open>
  What a task does when it is due (\<^verbatim>\<open>watchdog_task.cpp\<close>): the dispatch of \<^verbatim>\<open>Run\<close>, timers and their
  callbacks, count timers, the check of a watched handler with its warning and block events, the
  watch of the asynchronous binder space, the strategy for low memory, and the events sent. A task
  that exits the process is followed by the effect \<^term>\<open>EExitProcess d\<close> in the trace; what the
  model does after it did not happen. What one run reads is the record \<open>run_in\<close>.
\<close>

section \<open>The outside\<close>

record run_in =
  ri_probe :: probe
  ri_stamp :: stamp
  ri_time :: int
  ri_ctime :: string
  ri_fault :: string
  ri_dump :: "string list"
  ri_post :: bool
  ri_mem :: int
  ri_t1 :: u64
  ri_t2 :: u64
  ri_t3 :: u64
  ri_tick :: u64
  ri_binder :: "int \<Rightarrow> string \<times> string"
  ri_stack :: string
  ri_stack2 :: string
  ri_oversize :: bool
  ri_usage :: "(u64 \<times> u64) option"
  ri_ge80 :: "u64 \<Rightarrow> u64 \<Rightarrow> bool"
  ri_killed :: "int option"

section \<open>Leaving the process\<close>

definition LeftTimeExitProcess :: "env \<Rightarrow> string \<Rightarrow> WatchdogInner \<Rightarrow> WatchdogInner" where
  "LeftTimeExitProcess e description w =
     (if isProcessDebug e then w else emit (EExitProcess description) w)"

text \<open>\<open>ri_killed\<close> is the process killed by \<^verbatim>\<open>KillProcessByPid\<close>, if it killed one.\<close>

definition KillPeerBinderProcess :: "env \<Rightarrow> run_in \<Rightarrow> string \<Rightarrow> WatchdogInner \<Rightarrow> WatchdogInner" where
  "KillPeerBinderProcess e ri description w =
     (if getuid e = FOUNDATION_UID then
        (case ri_killed ri of
           Some p \<Rightarrow> emit (EKill p) w
         | None \<Rightarrow> LeftTimeExitProcess e description w)
      else LeftTimeExitProcess e description w)"

section \<open>Thread ids in messages\<close>

fun ParseTid_loop :: "string \<Rightarrow> int \<Rightarrow> int option" where
  "ParseTid_loop [] v = Some v"
| "ParseTid_loop (c # s) v =
     (if isdigit c then ParseTid_loop s (v * 10 + int (digit_val c)) else None)"

definition INT32_MAX_DIGITS :: nat where
  "INT32_MAX_DIGITS = 10"

definition ParseTid :: "string \<Rightarrow> int option" where
  "ParseTid s = (if length s = 0 \<or> length s \<ge> INT32_MAX_DIGITS then None else ParseTid_loop s 0)"

abbreviation (input) tidFrontStr :: string where "tidFrontStr \<equiv> ''Thread ID = ''"
abbreviation (input) tidRearStr :: string where "tidRearStr \<equiv> '') is running''"

definition ParseTidFromMsg :: "string \<Rightarrow> WatchdogTask \<Rightarrow> WatchdogTask" where
  "ParseTidFromMsg sendMsg t =
     (case str_find sendMsg tidFrontStr 0 of
        None \<Rightarrow> t
      | Some frontPos \<Rightarrow>
          (case str_find sendMsg tidRearStr frontPos of
             None \<Rightarrow> t
           | Some rearPos \<Rightarrow>
               let startPos = frontPos + length tidFrontStr in
               (case ParseTid (str_substr sendMsg startPos (rearPos - startPos)) of
                  Some tid \<Rightarrow> t\<lparr>watchdogTid := tid\<rparr>
                | None \<Rightarrow> t)))"

section \<open>Events\<close>

definition SendHisyseventEvent ::
  "env \<Rightarrow> run_in \<Rightarrow> string \<Rightarrow> string \<Rightarrow> string \<Rightarrow> WatchdogTask \<Rightarrow> WatchdogInner \<Rightarrow> WatchdogInner" where
  "SendHisyseventEvent e ri sendMsg eventName binderInfo t w =
     (if \<not> HISYSEVENT_ENABLE e then w
      else emit (EEvent \<lparr>ev_name = eventName, ev_pid = getprocpid e, ev_tid = watchdogTid t,
             ev_gid = getgid e, ev_uid = getuid e,
             ev_module = (if task_name t = IPC_FULL_TASK then selfProcName e @ ''_'' @ task_name t else task_name t),
             ev_process = selfProcName e, ev_msg = sendMsg,
             ev_stack = (if ri_oversize ri then ri_stack2 ri else ri_stack ri),
             ev_sample_stack = sampleStack t, ev_binder = binderInfo\<rparr>) w)"

definition sample_stack_name :: "WatchdogTask \<Rightarrow> string" where
  "sample_stack_name t = task_name t @ ''_sample_stack'' @ show_int (watchdogTid t)"

definition InsertSampleStackTask :: "env \<Rightarrow> run_in \<Rightarrow> WatchdogTask \<Rightarrow> WatchdogInner \<Rightarrow> WatchdogInner" where
  "InsertSampleStackTask e ri t w =
     InsertSampleStackTaskImpl e (ri_stamp ri) (sample_stack_name t) (watchdogTid t) (checkInterval t div 11) w"

definition with_binder :: "string \<times> string \<Rightarrow> string" where
  "with_binder b = (case b of (info, raw) \<Rightarrow> if info = [] then raw else raw @ ''PROCESS_NAME:'' @ info)"

definition SendEvent ::
  "env \<Rightarrow> run_in \<Rightarrow> string \<Rightarrow> string \<Rightarrow> string \<Rightarrow> WatchdogTask \<times> WatchdogInner \<Rightarrow> WatchdogTask \<times> WatchdogInner" where
  "SendEvent e ri msg eventName faultTimeStr tw =
     (case tw of (t, w) \<Rightarrow>
      if isProcessDebug e then (t, w)
      else
        let sendMsg = ri_ctime ri @ [CHR 0x0A] @ msg @ [CHR 0x0A] @
              (case task_checker t of None \<Rightarrow> [] | Some a \<Rightarrow> GetDumpInfo (ri_dump ri) (checkers w a));
            t1 = ParseTidFromMsg sendMsg (t\<lparr>watchdogTid := getprocpid e\<rparr>);
            (binderInfo, t2, w2) =
              (if eventName = ''SERVICE_WARNING'' then
                 (with_binder (ri_binder ri (watchdogTid t1)), t1, InsertSampleStackTask e ri t1 w)
               else if eventName = ''SERVICE_BLOCK'' then
                 (let nm = sample_stack_name t1;
                      (v, es) = SampleStackMap_GetAndRemove nm (ri_tick ri) (stacks w)
                  in ([], t1\<lparr>sampleStack := v\<rparr>, snd (RemoveInnerTask nm (w\<lparr>stacks := es\<rparr>))))
               else ([], t1, w))
        in (t2, SendHisyseventEvent e ri (sendMsg @ faultTimeStr) eventName binderInfo t2 w2))"

definition UID_TYPE_THRESHOLD :: nat where "UID_TYPE_THRESHOLD = 20000"

definition CORE_PROCS :: "string list" where
  "CORE_PROCS = [''anco_service_broker'', ''aptouch_daemon'', ''foundation'', ''init'',
     ''multimodalinput'', ''com.ohos.sceneboard'', ''render_service'']"

definition xcollie_event_name :: "env \<Rightarrow> WatchdogTask \<Rightarrow> string" where
  "xcollie_event_name e t =
     (if getuid e \<le> UID_TYPE_THRESHOLD then
        (if selfProcName e \<in> set CORE_PROCS \<and> flag_recovery (task_flag t) then ''SERVICE_TIMEOUT''
         else ''SERVICE_TIMEOUT_WARNING'')
      else ''APP_HICOLLIE'')"

text \<open>\<open>ri_stack\<close> is the stack collected by the branch taken; the kernel stack is part of it.\<close>

definition SendXCollieEvent ::
  "env \<Rightarrow> run_in \<Rightarrow> string \<Rightarrow> string \<Rightarrow> string \<Rightarrow> WatchdogTask \<Rightarrow> WatchdogInner \<Rightarrow> WatchdogInner" where
  "SendXCollieEvent e ri timerName keyMsg faultTimeStr t w =
     (if isProcessDebug e then w
      else let sendMsg = ri_ctime ri @ [CHR 0x0A] @ ''timeout timer: '' @ timerName @ [CHR 0x0A] @ keyMsg @ faultTimeStr;
               eventName = xcollie_event_name e t;
               binderInfo = (if eventName = ''SERVICE_TIMEOUT'' then with_binder (ri_binder ri (watchdogTid t)) else [])
           in if \<not> HISYSEVENT_ENABLE e then w
              else emit (EEvent \<lparr>ev_name = eventName, ev_pid = getprocpid e, ev_tid = watchdogTid t,
                     ev_gid = getgid e, ev_uid = getuid e, ev_module = timerName,
                     ev_process = selfProcName e, ev_msg = sendMsg, ev_stack = ri_stack ri,
                     ev_sample_stack = [], ev_binder = binderInfo\<rparr>) w)"

definition fault_time_str :: "run_in \<Rightarrow> string" where
  "fault_time_str ri = [CHR 0x0A] @ ''Fault time:'' @ ri_fault ri @ [CHR 0x0A]"

definition call_func :: "WatchdogTask \<Rightarrow> WatchdogInner \<Rightarrow> WatchdogInner" where
  "call_func t w = (case task_func t of Some f \<Rightarrow> emit (ECallback f (task_arg t)) w | None \<Rightarrow> w)"

section \<open>Timers\<close>

definition DoCallback :: "env \<Rightarrow> run_in \<Rightarrow> WatchdogTask \<Rightarrow> WatchdogInner \<Rightarrow> WatchdogInner" where
  "DoCallback e ri t w =
     (let w1 = call_func t w;
          (limited, w2) = IsCallbackLimit (task_flag t) (ri_time ri) w1 in
      if limited then w2
      else
        let w3 = (if flag_log (task_flag t) then
                    SendXCollieEvent e ri (task_name t)
                      (''timeout: '' @ task_name t @ '' to check '' @ show_nat (unat (task_timeout t)) @ ''ms ago'')
                      (fault_time_str ri) t w2
                  else w2) in
        if getuid e > UID_TYPE_THRESHOLD then w3
        else if flag_recovery (task_flag t) then LeftTimeExitProcess e ''timeout, exit...'' (emit (EAlarm 11) w3)
        else w3)"

text \<open>The loop of a count timer, from the newest window of \<open>c\<close> ticks to the oldest.\<close>

fun timer_scan :: "u64 list \<Rightarrow> u64 \<Rightarrow> nat \<Rightarrow> nat \<Rightarrow> u64 option" where
  "timer_scan ts tlim c 0 = None"
| "timer_scan ts tlim c (Suc n) =
     (if Suc n < c then None
      else let timeInterval = ts ! n - ts ! (Suc n - c) in
        if timeInterval < tlim then Some timeInterval else timer_scan ts tlim c n)"

definition TimerCountTask :: "env \<Rightarrow> WatchdogTask \<times> WatchdogInner \<Rightarrow> WatchdogTask \<times> WatchdogInner" where
  "TimerCountTask e tw =
     (case tw of (t, w) \<Rightarrow>
      let ts = triggerTimes t; c = nat (countLimit t) in
      if int (length ts) < countLimit t then (t, w)
      else case timer_scan ts (timeLimit t) c (length ts) of
          Some timeInterval \<Rightarrow>
            (t\<lparr>triggerTimes := []\<rparr>,
             if HISYSEVENT_ENABLE e then
               emit (EEvent \<lparr>ev_name = task_name t, ev_pid = getprocpid e, ev_tid = 0, ev_gid = 0, ev_uid = 0,
                 ev_module = [], ev_process = selfProcName e,
                 ev_msg = task_name t @ '' occured '' @ show_int (countLimit t) @ '' times in '' @
                   show_nat (unat timeInterval) @ '' ms, '' @ task_message t,
                 ev_stack = [], ev_sample_stack = [], ev_binder = []\<rparr>) w
             else w)
        | None \<Rightarrow>
            (if length ts > c * 2 then t\<lparr>triggerTimes := drop (length ts - c) ts\<rparr> else t, w))"

section \<open>Asynchronous binder space\<close>

definition GetBlockDescription :: "u64 \<Rightarrow> WatchdogTask \<Rightarrow> string" where
  "GetBlockDescription interval t =
     ''Watchdog: thread('' @ task_name t @ '') blocked '' @ show_nat (unat interval) @ ''s''"

text \<open>
  \<open>ri_usage\<close> is what \<^verbatim>\<open>GetMemoryUsage\<close> returns, total and free one-way size; \<open>ri_ge80\<close> is the value of
  the comparison in single-precision arithmetic, of the wrapped difference and the total.
\<close>

definition IsBinderSpaceInsufficient :: "run_in \<Rightarrow> bool" where
  "IsBinderSpaceInsufficient ri \<longleftrightarrow>
     (case ri_usage ri of
        None \<Rightarrow> False
      | Some (totalSize, oneWayFreeSize) \<Rightarrow>
          totalSize \<noteq> 0xFFFFFFFF \<and> oneWayFreeSize \<noteq> 0xFFFFFFFF \<and>
          ri_ge80 ri (totalSize - oneWayFreeSize * 2) totalSize)"

definition AsyncBinderSpace ::
  "env \<Rightarrow> run_in \<Rightarrow> WatchdogTask \<times> WatchdogInner \<Rightarrow> WatchdogTask \<times> WatchdogInner" where
  "AsyncBinderSpace e ri tw =
     (case tw of (t0, w) \<Rightarrow>
      if \<not> IsBinderSpaceInsufficient ri then (t0\<lparr>reportCount := 0\<rparr>, w)
      else
        let t = t0\<lparr>reportCount := reportCount t0 + 1\<rparr>;
            description = GetBlockDescription (checkInterval t * ucast (reportCount t) div TO_MILLISECOND_MULTPLE) t @
              [CHR 0x0A] @ ''reportCount = '' @ show_nat (unat (reportCount t));
            logged = flag_log (task_flag t) in
        if reportCount t = binderSpaceFullCount t div 2 then
          (let w1 = call_func t w in
           if logged then SendEvent e ri description ''BINDER_BUFFER_FULL_WARNING'' (fault_time_str ri) (t, w1)
           else (t, w1))
        else if reportCount t = binderSpaceFullCount t then
          (let w1 = call_func t w;
               (t2, w2) = (if logged then SendEvent e ri description ''BINDER_BUFFER_FULL'' (fault_time_str ri) (t, w1)
                           else (t, w1)) in
           (t2, if flag_recovery (task_flag t) \<or> task_func t = None then KillPeerBinderProcess e ri description w2 else w2))
        else if reportCount t \<ge> binderSpaceFullCount t * 10 then
          (t\<lparr>reportCount := 0\<rparr>, KillPeerBinderProcess e ri description w)
        else (t, w))"

section \<open>Low memory\<close>

definition LOW_MEMORY_CHECK_WINDOW :: u64 where "LOW_MEMORY_CHECK_WINDOW = 60 * 1000"
definition MAX_LOW_MEMORY_FREEZE_TIME :: u64 where "MAX_LOW_MEMORY_FREEZE_TIME = 60 * 1000"
definition BELOW_MEM_SIZE :: int where "BELOW_MEM_SIZE = 500 * 1024"

definition IsLowMemoryStatus :: "u64 \<Rightarrow> WatchdogTask \<Rightarrow> bool" where
  "IsLowMemoryStatus now t \<longleftrightarrow>
     lowMemoryCheck t \<and> lastLowMemoryTime t \<noteq> 0 \<and> now - lastLowMemoryTime t \<le> LOW_MEMORY_CHECK_WINDOW"

definition ShouldSkipExitForLowMemory :: "u64 \<Rightarrow> u64 \<Rightarrow> WatchdogTask \<Rightarrow> bool \<times> WatchdogTask" where
  "ShouldSkipExitForLowMemory now now' t =
     (if \<not> IsLowMemoryStatus now t then (False, t)
      else if lastLowMemoryFreezeTime t = 0 then (True, t\<lparr>lastLowMemoryFreezeTime := now'\<rparr>)
      else if now' - lastLowMemoryFreezeTime t \<le> MAX_LOW_MEMORY_FREEZE_TIME then (True, t)
      else (False, t\<lparr>lastLowMemoryFreezeTime := 0\<rparr>))"

definition ShouldSkipSendEventForLowMemory :: "u64 \<Rightarrow> WatchdogTask \<Rightarrow> bool \<times> WatchdogTask" where
  "ShouldSkipSendEventForLowMemory now t =
     (if \<not> IsLowMemoryStatus now t then (False, t)
      else if hadSendEvent t then (True, t)
      else (False, t\<lparr>hadSendEvent := True\<rparr>))"

section \<open>The check of a watched handler\<close>

definition HandleWaitedHalfState ::
  "env \<Rightarrow> run_in \<Rightarrow> string \<Rightarrow> WatchdogTask \<times> WatchdogInner \<Rightarrow> WatchdogTask \<times> WatchdogInner" where
  "HandleWaitedHalfState e ri description tw =
     (case tw of (t0, w) \<Rightarrow>
      let t = t0\<lparr>reportCount := reportCount t0 + 1\<rparr>;
          d = description @ [CHR 0x0A] @ ''ReportCount = '' @ show_nat (unat (reportCount t)) in
      if task_name t \<noteq> IPC_FULL_TASK then SendEvent e ri d ''SERVICE_WARNING'' (fault_time_str ri) (t, w)
      else if flag_log (task_flag t) then SendEvent e ri d ''IPC_FULL_WARNING'' (fault_time_str ri) (t, w)
      else (t, w))"

definition full_state_event ::
  "env \<Rightarrow> run_in \<Rightarrow> string \<Rightarrow> WatchdogTask \<times> WatchdogInner \<Rightarrow> WatchdogTask \<times> WatchdogInner" where
  "full_state_event e ri d tw =
     (case tw of (t, w) \<Rightarrow>
      if task_name t \<noteq> IPC_FULL_TASK then
        (if LOW_MEMORY_FREEZE_STRATEGY_ENABLE e \<and> lowMemoryCheck t then
           (case ShouldSkipSendEventForLowMemory (ri_t1 ri) t of
              (True, t1) \<Rightarrow> (t1, w)
            | (False, t1) \<Rightarrow> SendEvent e ri d ''SERVICE_BLOCK'' (fault_time_str ri) (t1, w))
         else SendEvent e ri d ''SERVICE_BLOCK'' (fault_time_str ri) (t, w))
      else if flag_log (task_flag t) then SendEvent e ri d ''IPC_FULL'' (fault_time_str ri) (t, w)
      else (t, w))"

definition full_state_exit ::
  "env \<Rightarrow> run_in \<Rightarrow> string \<Rightarrow> WatchdogTask \<times> WatchdogInner \<Rightarrow> WatchdogTask \<times> WatchdogInner" where
  "full_state_exit e ri d tw =
     (case tw of (t, w) \<Rightarrow>
      if task_name t \<noteq> IPC_FULL_TASK \<or> flag_recovery (task_flag t) then
        (if LOW_MEMORY_FREEZE_STRATEGY_ENABLE e \<and> lowMemoryCheck t then
           (case ShouldSkipExitForLowMemory (ri_t2 ri) (ri_t3 ri) t of
              (True, t1) \<Rightarrow> (t1, w)
            | (False, t1) \<Rightarrow> (t1, KillPeerBinderProcess e ri d w))
         else (t, KillPeerBinderProcess e ri d w))
      else (t, w))"

definition HandleWaitedFullState ::
  "env \<Rightarrow> run_in \<Rightarrow> string \<Rightarrow> WatchdogTask \<times> WatchdogInner \<Rightarrow> WatchdogTask \<times> WatchdogInner" where
  "HandleWaitedFullState e ri description tw =
     (case tw of (t0, w) \<Rightarrow>
      let t = t0\<lparr>reportCount := reportCount t0 + 1\<rparr>;
          d = description @ '', report twice instead of exiting process.'' @ [CHR 0x0A] @
            ''ReportCount = '' @ show_nat (unat (reportCount t))
      in full_state_exit e ri d (full_state_event e ri d (t, w)))"

definition EvaluateCheckerState ::
  "env \<Rightarrow> run_in \<Rightarrow> nat \<Rightarrow> WatchdogTask \<times> WatchdogInner \<Rightarrow> WatchdogTask \<times> WatchdogInner" where
  "EvaluateCheckerState e ri a tw =
     (case tw of (t, w) \<Rightarrow>
      let (waitState, c) = GetCheckState (checkers w a);
          w1 = w\<lparr>checkers := (checkers w)(a := c)\<rparr> in
      if waitState = COMPLETED then
        (let t1 = t\<lparr>reportCount := 0\<rparr> in
         (if LOW_MEMORY_FREEZE_STRATEGY_ENABLE e \<and> lowMemoryCheck t1
          then t1\<lparr>lastLowMemoryFreezeTime := 0, hadSendEvent := False\<rparr> else t1, w1))
      else
        let (t2, w2) =
              (if task_func t \<noteq> None
               then (t\<lparr>task_flag := (if flag_log (task_flag t) then XCOLLIE_FLAG_LOG else XCOLLIE_FLAG_NOOP)\<rparr>, call_func t w1)
               else (t, w1)) in
        case timeOutCallback t2 of
          Some cb \<Rightarrow> (t2, emit (ETimeOutCallback cb (task_name t2) waitState) w2)
        | None \<Rightarrow>
            let description = GetBlockDescription (checkInterval t2 div TO_MILLISECOND_MULTPLE) t2 in
            if waitState = WAITED_HALF then HandleWaitedHalfState e ri description (t2, w2)
            else HandleWaitedFullState e ri description (t2, w2))"

definition RunHandlerCheckerTask ::
  "env \<Rightarrow> run_in \<Rightarrow> WatchdogTask \<times> WatchdogInner \<Rightarrow> WatchdogTask \<times> WatchdogInner" where
  "RunHandlerCheckerTask e ri tw =
     (case task_checker (fst tw) of
        None \<Rightarrow> tw
      | Some a \<Rightarrow>
          let (t1, w1) = EvaluateCheckerState e ri a tw;
              (c, posted) = ScheduleCheck (ri_post ri) (checkers w1 a);
              w2 = w1\<lparr>checkers := (checkers w1)(a := c)\<rparr>
          in (t1, case posted of None \<Rightarrow> w2 | Some p \<Rightarrow> emit (EPost p) w2))"

section \<open>Dispatch\<close>

definition note_low_memory :: "env \<Rightarrow> run_in \<Rightarrow> u64 \<Rightarrow> WatchdogTask \<Rightarrow> WatchdogTask" where
  "note_low_memory e ri now t =
     (if LOW_MEMORY_FREEZE_STRATEGY_ENABLE e \<and> lowMemoryCheck t \<and> 0 < ri_mem ri \<and> ri_mem ri \<le> BELOW_MEM_SIZE
      then t\<lparr>lastLowMemoryTime := now\<rparr> else t)"

definition blocked_threshold :: "env \<Rightarrow> WatchdogTask \<Rightarrow> u64" where
  "blocked_threshold e t = (if SUSPEND_CHECK_ENABLE e then 2000 else 2 * checkInterval t)"

definition Run :: "env \<Rightarrow> run_in \<Rightarrow> u64 \<Rightarrow> WatchdogTask \<Rightarrow> WatchdogInner \<Rightarrow> WatchdogTask \<times> WatchdogInner" where
  "Run e ri now t0 w =
     (if countLimit t0 > 0 then TimerCountTask e (t0, w)
      else
        let t = note_low_memory e ri now t0 in
        if checkInterval t \<noteq> 0 \<and> now - nextTickTime t > blocked_threshold e t then (t\<lparr>nextTickTime := now\<rparr>, w)
        else if ASYNC_BINDER_SPACE_FULL e \<and> binderSpaceFullCount t > 0 then AsyncBinderSpace e ri (t, w)
        else if task_timeout t \<noteq> 0 then (t, DoCallback e ri t w)
        else case task_task t of
            Some f \<Rightarrow> (t, run_closure e (ri_probe ri) f w)
          | None \<Rightarrow> RunHandlerCheckerTask e ri (t, w))"

section \<open>What a run keeps\<close>

text \<open>
  A run keeps what identifies its task, and changes the queue at most as one operation under the
  lock: a warning registers a sampling task, a block event removes it.
\<close>

definition core :: "WatchdogInner \<Rightarrow> WatchdogTask list \<times> string set \<times> int \<times> bool" where
  "core w = (checkerQueue w, taskNameSet w, curId w, isNeedStop w)"

definition ident :: "WatchdogTask \<Rightarrow> int \<times> string \<times> bool \<times> u64" where
  "ident t = (task_id t, task_name t, isOneshotTask t, checkInterval t)"

named_theorems frame

lemma core_emit [frame]: "core (emit x w) = core w"
  by (simp add: core_def)

lemma core_Left [frame]: "core (LeftTimeExitProcess e d w) = core w"
  by (simp add: LeftTimeExitProcess_def frame)

lemma core_Kill [frame]: "core (KillPeerBinderProcess e ri d w) = core w"
  by (simp add: KillPeerBinderProcess_def frame split: option.split)

lemma core_Hisys [frame]: "core (SendHisyseventEvent e ri m n b t w) = core w"
  by (simp add: SendHisyseventEvent_def frame)

lemma core_XCollieEvent [frame]: "core (SendXCollieEvent e ri m n b t w) = core w"
  by (simp add: SendXCollieEvent_def frame Let_def)

lemma core_call [frame]: "core (call_func t w) = core w"
  by (simp add: call_func_def frame split: option.split)

lemma core_limit [frame]: "core (snd (IsCallbackLimit f s w)) = core w"
  by (simp add: IsCallbackLimit_def core_def)

lemma core_DoCallback [frame]: "core (DoCallback e ri t w) = core w"
  by (simp add: DoCallback_def frame Let_def split_beta)

lemma core_checkers [frame]: "core (w\<lparr>checkers := x\<rparr>) = core w"
  by (simp add: core_def)

lemma core_stacks [frame]: "core (w\<lparr>stacks := x\<rparr>) = core w"
  by (simp add: core_def)

lemma queue_change_core:
  assumes "queue_change w w'" and "core v = core w" and "core v' = core w'"
  shows "queue_change v v'"
proof -
  have eq: "checkerQueue v = checkerQueue w" "taskNameSet v = taskNameSet w" "curId v = curId w"
    "checkerQueue v' = checkerQueue w'" "taskNameSet v' = taskNameSet w'" "curId v' = curId w'"
    "isNeedStop v = isNeedStop w" "isNeedStop v' = isNeedStop w'"
    using assms(2,3) by (simp_all add: core_def)
  from assms(1) show ?thesis
  proof cases
    case draw
    show ?thesis by (rule queue_change.draw) (use draw in \<open>simp_all add: eq\<close>)
  next
    case (insertion t)
    show ?thesis by (rule queue_change.insertion [of v' t v]) (use insertion in \<open>simp_all add: eq\<close>)
  next
    case removal
    show ?thesis by (rule queue_change.removal) (use removal in \<open>simp_all add: eq\<close>)
  next
    case (edit f)
    show ?thesis by (rule queue_change.edit [of v' f v]) (use edit in \<open>simp_all add: eq\<close>)
  qed
qed

lemma queue_change_same: "core w' = core w \<Longrightarrow> queue_change w w'"
  by (rule queue_change_core [OF queue_change_refl]) simp_all

lemma queue_change_SampleStack: "queue_change w (InsertSampleStackTask e ri t w)"
proof -
  let ?v = "w\<lparr>counters := (counters w)(nextCounter w := 0), nextCounter := Suc (nextCounter w)\<rparr>"
  have "core w = core ?v" by (simp add: core_def)
  then show ?thesis
    unfolding InsertSampleStackTask_def InsertSampleStackTaskImpl_def Let_def
    by (rule queue_change_core [OF queue_change_Periodical]) simp
qed

lemma ident_ParseTidFromMsg [frame]: "ident (ParseTidFromMsg m t) = ident t"
  by (simp add: ParseTidFromMsg_def ident_def Let_def split: option.split)

lemma ident_upd [frame]:
  "ident (t\<lparr>watchdogTid := x\<rparr>) = ident t" "ident (t\<lparr>sampleStack := s\<rparr>) = ident t"
  "ident (t\<lparr>reportCount := r\<rparr>) = ident t" "ident (t\<lparr>task_flag := f\<rparr>) = ident t"
  "ident (t\<lparr>nextTickTime := n\<rparr>) = ident t" "ident (t\<lparr>triggerTimes := l\<rparr>) = ident t"
  "ident (t\<lparr>lastLowMemoryTime := n\<rparr>) = ident t" "ident (t\<lparr>lastLowMemoryFreezeTime := n\<rparr>) = ident t"
  "ident (t\<lparr>hadSendEvent := b\<rparr>) = ident t"
  "ident (t\<lparr>lastLowMemoryFreezeTime := n, hadSendEvent := b\<rparr>) = ident t"
  by (simp_all add: ident_def)

lemma SendEvent_change: "queue_change w (snd (SendEvent e ri m n f (t, w)))"
proof -
  have rem: "queue_change w (snd (RemoveInnerTask nm (w\<lparr>stacks := es\<rparr>)))" for nm es
    by (rule queue_change_core [OF queue_change_RemoveInner]) (simp_all add: frame)
  show ?thesis
    by (auto simp: SendEvent_def Let_def split_beta frame queue_change_refl
        intro: queue_change_same queue_change_core [OF queue_change_SampleStack]
          queue_change_core [OF rem])
qed

lemma SendEvent_ident [frame]: "ident (fst (SendEvent e ri m n f tw)) = ident (fst tw)"
  by (simp add: SendEvent_def Let_def split_beta frame)

text \<open>A change of the queue surrounded by steps that leave the queue alone.\<close>

lemma SendEvent_change':
  "core v = core w \<Longrightarrow> queue_change w (snd (SendEvent e ri m n f (t, v)))"
  by (rule queue_change_core [OF SendEvent_change]) simp_all

lemma Half_change: "core v = core w \<Longrightarrow> queue_change w (snd (HandleWaitedHalfState e ri d (t, v)))"
  by (auto simp: HandleWaitedHalfState_def Let_def intro: SendEvent_change' queue_change_same)

lemma Full_event_change: "core v = core w \<Longrightarrow> queue_change w (snd (full_state_event e ri d (t, v)))"
  by (auto simp: full_state_event_def intro: SendEvent_change' queue_change_same split: prod.split bool.split)

lemma Full_exit_core [frame]: "core (snd (full_state_exit e ri d tw)) = core (snd tw)"
  by (auto simp: full_state_exit_def frame split: prod.split bool.split)

lemma Full_change: "core v = core w \<Longrightarrow> queue_change w (snd (HandleWaitedFullState e ri d (t, v)))"
  unfolding HandleWaitedFullState_def Let_def prod.case
  by (rule queue_change_core [OF Full_event_change]) (simp_all add: frame)

lemma Evaluate_change: "queue_change w (snd (EvaluateCheckerState e ri a (t, w)))"
proof -
  obtain st c where gs: "GetCheckState (checkers w a) = (st, c)" by (cases "GetCheckState (checkers w a)")
  let ?w1 = "w\<lparr>checkers := (checkers w)(a := c)\<rparr>"
  have c: "core ?w1 = core w" "\<And>t. core (call_func t ?w1) = core w"
    "\<And>x. core (emit x ?w1) = core w" "\<And>x t. core (emit x (call_func t ?w1)) = core w" by (simp_all add: frame)
  show ?thesis
    using c by (cases "task_func t"; cases "timeOutCallback t")
      (auto simp: EvaluateCheckerState_def gs Let_def intro: Half_change Full_change queue_change_same)
qed

lemma Handler_change: "queue_change w (snd (RunHandlerCheckerTask e ri (t, w)))"
proof (cases "task_checker t")
  case None
  then show ?thesis by (simp add: RunHandlerCheckerTask_def queue_change_refl)
next
  case (Some a)
  then show ?thesis
    by (auto simp: RunHandlerCheckerTask_def Let_def split_beta frame split: option.split
        intro!: queue_change_core [OF Evaluate_change])
qed

lemma Binder_change: "queue_change w (snd (AsyncBinderSpace e ri (t, w)))"
proof -
  have c: "core (call_func t w) = core w" for t by (simp add: frame)
  have k: "queue_change w (KillPeerBinderProcess e ri d v)" if "queue_change w v" for d v
    by (rule queue_change_core [OF that]) (simp_all add: frame)
  show ?thesis
    using c by (auto simp: AsyncBinderSpace_def Let_def split_beta frame
        intro!: k SendEvent_change' intro: queue_change_same)
qed

lemma Timer_core [frame]: "core (snd (TimerCountTask e tw)) = core (snd tw)"
  by (simp add: TimerCountTask_def Let_def split_beta frame split: option.split)

lemma ident_low_memory [frame]:
  "ident (snd (ShouldSkipExitForLowMemory a b t)) = ident t"
  "ident (snd (ShouldSkipSendEventForLowMemory a t)) = ident t"
  "ident (note_low_memory e ri now t) = ident t"
  by (simp_all add: ShouldSkipExitForLowMemory_def ShouldSkipSendEventForLowMemory_def note_low_memory_def frame)

lemma ident_full_event [frame]: "ident (fst (full_state_event e ri d tw)) = ident (fst tw)"
  using ident_low_memory(2) [of "ri_t1 ri" "fst tw"]
  by (auto simp: full_state_event_def split_beta frame split: bool.split prod.split)

lemma ident_full_exit [frame]: "ident (fst (full_state_exit e ri d tw)) = ident (fst tw)"
  using ident_low_memory(1) [of "ri_t2 ri" "ri_t3 ri" "fst tw"]
  by (auto simp: full_state_exit_def split_beta frame split: bool.split prod.split)

lemma ident_Full [frame]: "ident (fst (HandleWaitedFullState e ri d tw)) = ident (fst tw)"
  by (simp add: HandleWaitedFullState_def Let_def split_beta frame)

lemma ident_Half [frame]: "ident (fst (HandleWaitedHalfState e ri d tw)) = ident (fst tw)"
  by (simp add: HandleWaitedHalfState_def Let_def split_beta frame)

lemma ident_Evaluate [frame]: "ident (fst (EvaluateCheckerState e ri a tw)) = ident (fst tw)"
  by (simp add: EvaluateCheckerState_def Let_def split_beta frame split: option.split)

lemma ident_Handler [frame]: "ident (fst (RunHandlerCheckerTask e ri tw)) = ident (fst tw)"
  by (simp add: RunHandlerCheckerTask_def Let_def split_beta frame split: option.split)

lemma ident_Binder [frame]: "ident (fst (AsyncBinderSpace e ri tw)) = ident (fst tw)"
  by (simp add: AsyncBinderSpace_def Let_def split_beta frame)

lemma ident_Timer [frame]: "ident (fst (TimerCountTask e tw)) = ident (fst tw)"
  by (simp add: TimerCountTask_def Let_def split_beta frame split: option.split)

lemma Run_ident: "ident (fst (Run e ri now t w)) = ident t"
  by (simp add: Run_def Let_def frame split: option.split)

lemma wd_inv_queue_state: "queue_state w' = queue_state w \<Longrightarrow> wd_inv fl w' = wd_inv fl w"
  by (simp add: wd_inv_def queue_state_def)

lemma Run_wd_inv:
  assumes "wd_inv fl w"
  shows "wd_inv fl (snd (Run e ri now t w))"
proof -
  have c: "wd_inv fl w'" if "queue_change w w'" for w' by (rule wd_inv_change [OF that assms])
  have r: "wd_inv fl (run_closure e pr f w)" for pr f
    using assms wd_inv_queue_state [OF queue_state_run_closure, of fl e pr f w] by simp
  show ?thesis
    using assms r
    by (auto simp: Run_def Let_def frame split: option.split
        intro!: c Handler_change Binder_change intro: queue_change_same)
qed

section \<open>Windows of a count timer\<close>

text \<open>Some \<open>c\<close> consecutive triggers lie within less than the limit.\<close>

definition has_window :: "u64 \<Rightarrow> nat \<Rightarrow> u64 list \<Rightarrow> bool" where
  "has_window tlim c ts \<longleftrightarrow> (\<exists>i. i + c \<le> length ts \<and> ts ! (i + c - 1) - ts ! i < tlim)"

lemma timer_scan_window:
  assumes "0 < c"
  shows "timer_scan ts tlim c n \<noteq> None \<longleftrightarrow> (\<exists>i. i + c \<le> n \<and> ts ! (i + c - 1) - ts ! i < tlim)"
proof (induction n)
  case 0
  then show ?case using assms by simp
next
  case (Suc n)
  show ?case
  proof (cases "Suc n < c")
    case True
    then show ?thesis by simp
  next
    case False
    have "(\<exists>i. i + c \<le> Suc n \<and> ts ! (i + c - 1) - ts ! i < tlim) \<longleftrightarrow>
        ts ! n - ts ! (Suc n - c) < tlim \<or> (\<exists>i. i + c \<le> n \<and> ts ! (i + c - 1) - ts ! i < tlim)"
    proof -
      have "i + c \<le> Suc n \<longleftrightarrow> i = Suc n - c \<or> i + c \<le> n" for i using False by auto
      moreover have "Suc n - c + c - 1 = n" using False by simp
      ultimately show ?thesis by metis
    qed
    with Suc False show ?thesis by (simp add: Let_def)
  qed
qed

lemma has_window_drop:
  assumes "0 < c" and "k \<le> length ts"
  shows "has_window tlim c (drop k ts) \<longleftrightarrow> (\<exists>i \<ge> k. i + c \<le> length ts \<and> ts ! (i + c - 1) - ts ! i < tlim)"
proof
  assume "has_window tlim c (drop k ts)"
  then obtain i where i: "i + c \<le> length ts - k" "drop k ts ! (i + c - 1) - drop k ts ! i < tlim"
    by (auto simp: has_window_def)
  have "k + (i + c - 1) = k + i + c - 1" using assms(1) by simp
  with i assms show "\<exists>i \<ge> k. i + c \<le> length ts \<and> ts ! (i + c - 1) - ts ! i < tlim"
    by (intro exI [of _ "k + i"]) (auto simp: add.commute)
next
  assume "\<exists>i \<ge> k. i + c \<le> length ts \<and> ts ! (i + c - 1) - ts ! i < tlim"
  then obtain i where i: "k \<le> i" "i + c \<le> length ts" "ts ! (i + c - 1) - ts ! i < tlim" by blast
  then show "has_window tlim c (drop k ts)"
    unfolding has_window_def using assms by (intro exI [of _ "i - k"]) auto
qed

text \<open>Forgetting all but the last \<open>c\<close> triggers loses no window that a later trigger completes.\<close>

lemma trim_keeps_windows:
  assumes "0 < c" and "c \<le> length ts" and "\<not> has_window tlim c ts"
  shows "has_window tlim c (drop (length ts - c) ts @ new) \<longleftrightarrow> has_window tlim c (ts @ new)"
proof -
  let ?k = "length ts - c"
  have eq: "drop ?k ts @ new = drop ?k (ts @ new)" and le: "?k \<le> length (ts @ new)" by simp_all
  have "?k \<le> i" if i: "i + c \<le> length (ts @ new)" "(ts @ new) ! (i + c - 1) - (ts @ new) ! i < tlim" for i
  proof (rule ccontr)
    assume "\<not> ?k \<le> i"
    then have le: "i + c \<le> length ts" by simp
    then have "i + c - 1 < length ts" "i < length ts" using assms(1) by auto
    then have "(ts @ new) ! (i + c - 1) = ts ! (i + c - 1)" "(ts @ new) ! i = ts ! i"
      by (simp_all add: nth_append)
    with i le assms(3) show False by (auto simp: has_window_def)
  qed
  then show ?thesis
    unfolding eq has_window_drop [OF assms(1) le] unfolding has_window_def by blast
qed

section \<open>Thread ids\<close>

lemma ParseTid_loop_spec:
  "ParseTid_loop s (int v) = (if list_all isdigit s then Some (int (num_of_digits v s)) else None)"
proof (induction s arbitrary: v)
  case (Cons c s)
  then show ?case using Cons.IH [of "v * 10 + digit_val c"] by simp
qed simp

lemma ParseTid_spec:
  "ParseTid s = (if 0 < length s \<and> length s < 10 \<and> list_all isdigit s
     then Some (int (num_of_digits 0 s)) else None)"
  using ParseTid_loop_spec [of s 0] by (auto simp: ParseTid_def INT32_MAX_DIGITS_def)

lemma num_of_digits_small: "list_all isdigit s \<Longrightarrow> length s < 10 \<Longrightarrow> num_of_digits 0 s < 10 ^ 9"
proof -
  assume "list_all isdigit s" "length s < 10"
  then have "num_of_digits 0 s < 10 ^ length s" using num_of_digits_bound [of s 0] by (simp add: list_all_iff)
  also have "\<dots> \<le> 10 ^ 9" using \<open>length s < 10\<close> by (intro power_increasing) auto
  finally show ?thesis .
qed

text \<open>The closing mark is never found inside the opening one, so the length does not underflow.\<close>

lemma rear_after_front:
  assumes "str_find m tidFrontStr 0 = Some f" and "str_find m tidRearStr f = Some r"
  shows "f + length tidFrontStr \<le> r"
proof (rule ccontr)
  assume "\<not> f + length tidFrontStr \<le> r"
  then have r: "f \<le> r" "r - f < 12" using str_find_bounds [OF assms(2)] by simp_all
  have len: "f + 12 \<le> length m" using str_find_bounds [OF assms(1)] by simp
  have "m ! r = tidFrontStr ! (r - f)"
  proof -
    have "take 12 (drop f m) ! (r - f) = m ! r" using r len by simp
    moreover have "take 12 (drop f m) = tidFrontStr"
      using str_find_match [OF assms(1)] by (simp add: eval_nat_numeral)
    ultimately show ?thesis by simp
  qed
  moreover have "m ! r = CHR '')''"
  proof -
    have "take 12 (drop r m) ! 0 = m ! r" using str_find_bounds [OF assms(2)] by simp
    moreover have "take 12 (drop r m) = tidRearStr"
      using str_find_match [OF assms(2)] by (simp add: eval_nat_numeral)
    ultimately show ?thesis by simp
  qed
  moreover have "CHR '')'' \<notin> set tidFrontStr" by simp
  moreover have "tidFrontStr ! (r - f) \<in> set tidFrontStr" using r by (intro nth_mem) simp
  ultimately show False by metis
qed

section \<open>What a handler check reports\<close>

text \<open>The part of the trace that tells the outside about a check.\<close>

fun report_of :: "effect \<Rightarrow> string list" where
  "report_of (EEvent ev) = [ev_name ev]"
| "report_of (EExitProcess d) = [''EXIT'']"
| "report_of (EPost p) = [''POST'']"
| "report_of x = []"

definition told :: "WatchdogInner \<Rightarrow> string list" where
  "told w = concat (map report_of (out w))"

definition wiring :: "WatchdogTask \<Rightarrow> string \<times> nat option \<times> nat option \<times> nat option \<times> bool" where
  "wiring t = (task_name t, task_checker t, task_func t, timeOutCallback t, lowMemoryCheck t)"

lemma told_emit [simp]: "told (emit x w) = told w @ report_of x"
  by (simp add: told_def)

lemma told_checkers [simp]: "told (w\<lparr>checkers := x\<rparr>) = told w" "told (w\<lparr>stacks := s\<rparr>) = told w"
  by (simp_all add: told_def)

lemma told_Create [simp]: "told (CreateWatchdogThreadIfNeed e w) = told w"
  by (simp add: CreateWatchdogThreadIfNeed_def told_def emit_def Let_def)

lemma Insert_told:
  "told (snd (InsertWatchdogTaskLocked e nm t w)) = told w"
  "checkers (snd (InsertWatchdogTaskLocked e nm t w)) = checkers w"
proof -
  have upd: "told (w\<lparr>checkerQueue := q, taskNameSet := s\<rparr>) = told w" "told (w\<lparr>checkerQueue := q\<rparr>) = told w" for q s
    by (simp_all add: told_def)
  show "told (snd (InsertWatchdogTaskLocked e nm t w)) = told w"
    by (simp add: InsertWatchdogTaskLocked_def Let_def upd)
  show "checkers (snd (InsertWatchdogTaskLocked e nm t w)) = checkers w"
    by (simp add: InsertWatchdogTaskLocked_def Let_def)
qed

lemma SampleStack_told:
  "told (InsertSampleStackTask e ri t w) = told w"
  "checkers (InsertSampleStackTask e ri t w) = checkers w"
  by (simp_all add: InsertSampleStackTask_def InsertSampleStackTaskImpl_def RunPeriodicalTask_def
      new_id_def Let_def Insert_told split_beta) (simp_all add: told_def)

lemma RemoveInner_told:
  "told (snd (RemoveInnerTask nm w)) = told w" "checkers (snd (RemoveInnerTask nm w)) = checkers w"
  by (simp_all add: RemoveInnerTask_def Let_def split_beta told_def)

lemma wiring_ParseTid [simp]: "wiring (ParseTidFromMsg m t) = wiring t"
  by (simp add: ParseTidFromMsg_def wiring_def Let_def split: option.split)

lemma SendEvent_told:
  assumes "\<not> isProcessDebug e" and "HISYSEVENT_ENABLE e"
  shows "told (snd (SendEvent e ri m n f (t, w))) = told w @ [n]"
    and "checkers (snd (SendEvent e ri m n f (t, w))) = checkers w"
    and "wiring (fst (SendEvent e ri m n f (t, w))) = wiring t"
proof -
  have s: "wiring (t\<lparr>watchdogTid := x\<rparr>) = wiring t" "wiring (t\<lparr>sampleStack := y\<rparr>) = wiring t" for t x y
    by (simp_all add: wiring_def)
  show "told (snd (SendEvent e ri m n f (t, w))) = told w @ [n]"
    using assms by (simp add: SendEvent_def Let_def split_beta SendHisyseventEvent_def SampleStack_told RemoveInner_told)
  show "checkers (snd (SendEvent e ri m n f (t, w))) = checkers w"
    using assms by (simp add: SendEvent_def Let_def split_beta SendHisyseventEvent_def SampleStack_told RemoveInner_told)
  show "wiring (fst (SendEvent e ri m n f (t, w))) = wiring t"
    using assms by (simp add: SendEvent_def Let_def split_beta s)
qed

text \<open>The environment and the task of a plain registered thread, without callback of its own.\<close>

definition plain :: "env \<Rightarrow> nat \<Rightarrow> WatchdogTask \<Rightarrow> bool" where
  "plain e a t \<longleftrightarrow> \<not> isProcessDebug e \<and> HISYSEVENT_ENABLE e \<and> getuid e \<noteq> FOUNDATION_UID \<and>
     task_name t \<noteq> IPC_FULL_TASK \<and> task_checker t = Some a \<and> task_func t = None \<and>
     timeOutCallback t = None \<and> \<not> lowMemoryCheck t"

lemma plain_wiring: "wiring t' = wiring t \<Longrightarrow> plain e a t' = plain e a t"
  by (simp add: wiring_def plain_def)

lemma Handler_completed:
  assumes "plain e a t" and "isCompleted (checkers w a)" and "hc_handler (checkers w a) = Some h"
    and "RunHandlerCheckerTask e ri (t, w) = (t', w')"
  shows "told w' = told w @ [''POST'']" and "wiring t' = wiring t"
    and "checkers w' a = (checkers w a)\<lparr>isCompleted := False, taskSlow := False\<rparr>"
  using assms
  by (auto simp: RunHandlerCheckerTask_def plain_def EvaluateCheckerState_def GetCheckState_def
      ScheduleCheck_def wiring_def Let_def)

lemma Handler_half:
  assumes p: "plain e a t" and c: "\<not> isCompleted (checkers w a)" "\<not> taskSlow (checkers w a)"
    "hc_handler (checkers w a) = Some h" and "RunHandlerCheckerTask e ri (t, w) = (t', w')"
  shows "told w' = told w @ [''SERVICE_WARNING'']" and "wiring t' = wiring t"
    and "checkers w' a = (checkers w a)\<lparr>taskSlow := True\<rparr>"
proof -
  define d where "d = GetBlockDescription (checkInterval t div TO_MILLISECOND_MULTPLE) t @ [CHR 0x0A] @
    ''ReportCount = '' @ show_nat (unat (reportCount t + 1))"
  define t1 where "t1 = t\<lparr>reportCount := reportCount t + 1\<rparr>"
  define w1 where "w1 = w\<lparr>checkers := (checkers w)(a := (checkers w a)\<lparr>taskSlow := True\<rparr>)\<rparr>"
  define r where "r = SendEvent e ri d ''SERVICE_WARNING'' (fault_time_str ri) (t1, w1)"
  have e: "\<not> isProcessDebug e" "HISYSEVENT_ENABLE e" using p by (auto simp: plain_def)
  have ev: "EvaluateCheckerState e ri a (t, w) = r"
    using p c by (simp add: EvaluateCheckerState_def GetCheckState_def HandleWaitedHalfState_def plain_def
        r_def d_def t1_def w1_def Let_def)
  have rr: "told (snd r) = told w @ [''SERVICE_WARNING'']" "checkers (snd r) = checkers w1" "wiring (fst r) = wiring t"
    using SendEvent_told [OF e, of ri d "''SERVICE_WARNING''" "fault_time_str ri" t1 w1]
    by (simp_all add: r_def t1_def w1_def wiring_def)
  have "ScheduleCheck (ri_post ri) (checkers (snd r) a) = (checkers (snd r) a, None)"
    using c by (simp add: ScheduleCheck_def rr w1_def)
  then have eq: "RunHandlerCheckerTask e ri (t, w) = (fst r, (snd r)\<lparr>checkers := checkers (snd r)\<rparr>)"
    using p by (simp add: RunHandlerCheckerTask_def plain_def ev Let_def split_beta)
  show "told w' = told w @ [''SERVICE_WARNING'']" "wiring t' = wiring t"
    "checkers w' a = (checkers w a)\<lparr>taskSlow := True\<rparr>"
    using assms(5) by (auto simp: eq rr w1_def)
qed

lemma Handler_full:
  assumes p: "plain e a t" and c: "\<not> isCompleted (checkers w a)" "taskSlow (checkers w a)"
    "hc_handler (checkers w a) = Some h" and "RunHandlerCheckerTask e ri (t, w) = (t', w')"
  shows "told w' = told w @ [''SERVICE_BLOCK'', ''EXIT'']" and "wiring t' = wiring t"
    and "checkers w' a = checkers w a"
proof -
  define d where "d = GetBlockDescription (checkInterval t div TO_MILLISECOND_MULTPLE) t @
    '', report twice instead of exiting process.'' @ [CHR 0x0A] @ ''ReportCount = '' @ show_nat (unat (reportCount t + 1))"
  define t1 where "t1 = t\<lparr>reportCount := reportCount t + 1\<rparr>"
  define w1 where "w1 = w\<lparr>checkers := (checkers w)(a := checkers w a)\<rparr>"
  define r where "r = SendEvent e ri d ''SERVICE_BLOCK'' (fault_time_str ri) (t1, w1)"
  have e: "\<not> isProcessDebug e" "HISYSEVENT_ENABLE e" "getuid e \<noteq> FOUNDATION_UID" using p by (auto simp: plain_def)
  have rr: "told (snd r) = told w @ [''SERVICE_BLOCK'']" "checkers (snd r) = checkers w" "wiring (fst r) = wiring t"
    using SendEvent_told [OF e(1,2), of ri d "''SERVICE_BLOCK''" "fault_time_str ri" t1 w1]
    by (simp_all add: r_def t1_def w1_def wiring_def)
  have "plain e a (fst r)" using p plain_wiring [OF rr(3)] by simp
  then have ev: "EvaluateCheckerState e ri a (t, w) = (fst r, emit (EExitProcess d) (snd r))"
    using p c e by (simp add: EvaluateCheckerState_def GetCheckState_def HandleWaitedFullState_def plain_def
        full_state_event_def full_state_exit_def KillPeerBinderProcess_def LeftTimeExitProcess_def
        r_def d_def t1_def w1_def Let_def split_beta)
  have "ScheduleCheck (ri_post ri) (checkers w a) = (checkers w a, None)"
    using c by (simp add: ScheduleCheck_def)
  then have eq: "RunHandlerCheckerTask e ri (t, w) =
      (fst r, (emit (EExitProcess d) (snd r))\<lparr>checkers := (checkers w)(a := checkers w a)\<rparr>)"
    using p by (simp add: RunHandlerCheckerTask_def plain_def ev Let_def rr)
  show "told w' = told w @ [''SERVICE_BLOCK'', ''EXIT'']" "wiring t' = wiring t" "checkers w' a = checkers w a"
    using assms(5) by (auto simp: eq rr)
qed

section \<open>Properties\<close>

text \<open>
  C5. A watched thread that stops responding: the first run posts a check; if it has not run by the
  next one, a warning is reported, and if it still has not run by the third, a block event is reported
  and the process exits. Nothing else is told to the outside, and a thread whose check was completed
  in time is told about nothing but the next post.
\<close>

theorem blocked_thread_escalates:
  assumes "plain e a t" and "isCompleted (checkers w a)" and "hc_handler (checkers w a) = Some h"
    and "RunHandlerCheckerTask e ri1 (t, w) = (t1, w1)"
    and "RunHandlerCheckerTask e ri2 (t1, w1) = (t2, w2)"
    and "RunHandlerCheckerTask e ri3 (t2, w2) = (t3, w3)"
  shows "told w1 = told w @ [''POST''] \<and> told w2 = told w1 @ [''SERVICE_WARNING''] \<and>
    told w3 = told w2 @ [''SERVICE_BLOCK'', ''EXIT'']"
proof -
  note h1 = Handler_completed [OF assms(1-4)]
  have p1: "plain e a t1" using assms(1) plain_wiring [OF h1(2)] by simp
  note h2 = Handler_half [OF p1 _ _ _ assms(5), of h]
  have c1: "\<not> isCompleted (checkers w1 a)" "\<not> taskSlow (checkers w1 a)" "hc_handler (checkers w1 a) = Some h"
    using h1(3) assms(3) by simp_all
  have p2: "plain e a t2" using p1 plain_wiring [OF h2(2) [OF c1]] by simp
  have c2: "\<not> isCompleted (checkers w2 a)" "taskSlow (checkers w2 a)" "hc_handler (checkers w2 a) = Some h"
    using h2(3) [OF c1] c1 by simp_all
  show ?thesis
    using h1(1) h2(1) [OF c1] Handler_full(1) [OF p2 c2 assms(6)] by simp
qed

definition demo_in :: run_in where
  "demo_in = \<lparr>ri_probe = demo_probe, ri_stamp = demo_stamp, ri_time = 100, ri_ctime = [], ri_fault = [],
     ri_dump = [], ri_post = True, ri_mem = 0, ri_t1 = 1, ri_t2 = 1, ri_t3 = 1, ri_tick = 1,
     ri_binder = (\<lambda>_. ([], [])), ri_stack = [], ri_stack2 = [], ri_oversize = False, ri_usage = None,
     ri_ge80 = (\<lambda>_ _. False), ri_killed = None\<rparr>"

definition demo_handler_task :: WatchdogTask where
  "demo_handler_task = WatchdogTask_default\<lparr>task_name := ''main'', task_checker := Some 0, checkInterval := 30000\<rparr>"

theorem blocked_thread_escalates_witness:
  "\<exists>w t1 w1. told w = [] \<and> RunHandlerCheckerTask service_env demo_in (demo_handler_task, w) = (t1, w1) \<and>
     told (snd (RunHandlerCheckerTask service_env demo_in (t1, w1))) = [''POST'', ''SERVICE_WARNING'']"
proof -
  let ?w = "WatchdogInner_init\<lparr>checkers := (\<lambda>_. HandlerChecker_prio ''main'' (Some 7) 1)\<rparr>"
  let ?r1 = "RunHandlerCheckerTask service_env demo_in (demo_handler_task, ?w)"
  let ?r2 = "RunHandlerCheckerTask service_env demo_in ?r1"
  let ?r3 = "RunHandlerCheckerTask service_env demo_in ?r2"
  have p: "plain service_env 0 demo_handler_task"
    by (simp add: plain_def service_env_def demo_handler_task_def FOUNDATION_UID_def WatchdogTask_default_def)
  have "told ?w = []" by (simp add: told_def WatchdogInner_init_def)
  moreover have "told (snd ?r1) = told ?w @ [''POST''] \<and> told (snd ?r2) = told (snd ?r1) @ [''SERVICE_WARNING''] \<and>
      told (snd ?r3) = told (snd ?r2) @ [''SERVICE_BLOCK'', ''EXIT'']"
    by (rule blocked_thread_escalates [OF p, of ?w 7 demo_in "fst ?r1" "snd ?r1" demo_in "fst ?r2" "snd ?r2" demo_in "fst ?r3"])
      (simp_all add: HandlerChecker_prio_def)
  ultimately show ?thesis by (intro exI [of _ ?w] exI [of _ "fst ?r1"] exI [of _ "snd ?r1"]) simp
qed

text \<open>
  C8. A count timer reports exactly when some window of the required number of consecutive triggers
  is shorter than the limit, and then starts afresh; otherwise it reports nothing, keeps at most twice
  that number of triggers, and what it forgets can never be missed: every later window is still
  found.
\<close>

theorem count_timer_exact:
  assumes "0 < countLimit t" and "HISYSEVENT_ENABLE e" and "TimerCountTask e (t, w) = (t', w')"
  defines "c \<equiv> nat (countLimit t)"
  shows "(has_window (timeLimit t) c (triggerTimes t) \<longrightarrow> told w' = told w @ [task_name t] \<and> triggerTimes t' = []) \<and>
    (\<not> has_window (timeLimit t) c (triggerTimes t) \<longrightarrow> w' = w \<and>
      length (triggerTimes t') \<le> max (2 * c) c \<and>
      (\<forall>new. has_window (timeLimit t) c (triggerTimes t' @ new) \<longleftrightarrow>
             has_window (timeLimit t) c (triggerTimes t @ new)))"
proof -
  let ?ts = "triggerTimes t"
  have c: "0 < c" using assms(1) by (simp add: c_def)
  have scan: "timer_scan ?ts (timeLimit t) c (length ?ts) \<noteq> None \<longleftrightarrow> has_window (timeLimit t) c ?ts"
    using timer_scan_window [OF c] by (simp add: has_window_def)
  have short: "\<not> has_window (timeLimit t) c ?ts" if "int (length ?ts) < countLimit t"
    using that by (auto simp: has_window_def c_def)
  show ?thesis
  proof (cases "has_window (timeLimit t) c ?ts")
    case True
    then obtain x where x: "timer_scan ?ts (timeLimit t) c (length ?ts) = Some x" using scan by auto
    have "\<not> int (length ?ts) < countLimit t" using True short by blast
    with x True assms(2,3) show ?thesis
      by (auto simp: TimerCountTask_def Let_def c_def [symmetric])
  next
    case False
    then have none: "timer_scan ?ts (timeLimit t) c (length ?ts) = None" using scan by auto
    show ?thesis
    proof (cases "int (length ?ts) < countLimit t \<or> \<not> length ?ts > c * 2")
      case True
      with none False assms(1,3) show ?thesis
        by (auto simp: TimerCountTask_def Let_def c_def [symmetric] split: if_splits) (simp_all add: c_def)
    next
      case long: False
      then have "t' = t\<lparr>triggerTimes := drop (length ?ts - c) ?ts\<rparr> \<and> w' = w"
        using none assms(3) by (auto simp: TimerCountTask_def Let_def c_def [symmetric])
      moreover have "c \<le> length ?ts" using long by simp
      ultimately show ?thesis using False trim_keeps_windows [OF c _ False] by simp
    qed
  qed
qed

theorem count_timer_exact_witness:
  "told (snd (TimerCountTask service_env
     (WatchdogTask_default\<lparr>task_name := ''C'', countLimit := 2, timeLimit := 1000, triggerTimes := [5, 9000, 9400]\<rparr>,
      WatchdogInner_init))) = [''C'']"
proof -
  let ?t = "WatchdogTask_default\<lparr>task_name := ''C'', countLimit := 2, timeLimit := 1000, triggerTimes := [5, 9000, 9400]\<rparr>"
  let ?r = "TimerCountTask service_env (?t, WatchdogInner_init)"
  have "has_window 1000 2 [5, 9000, 9400]"
    unfolding has_window_def by (rule exI [of _ 1]) simp
  moreover have "told WatchdogInner_init = []" by (simp add: told_def WatchdogInner_init_def)
  ultimately show ?thesis
    using count_timer_exact [of ?t service_env WatchdogInner_init "fst ?r" "snd ?r"] by (simp add: service_env_def)
qed

text \<open>
  The thread id parsed from a dump is accepted exactly for one to nine digits; it then is the
  number they write, below a thousand million, so the 32-bit arithmetic does not overflow; the id
  between the two marks of a message is found, and the marks never overlap.
\<close>

theorem ParseTid_exact:
  assumes "str_find m tidFrontStr 0 = Some f" and "str_find m tidRearStr f = Some r"
  shows "(ParseTid s = Some v \<longleftrightarrow> 0 < length s \<and> length s < 10 \<and> list_all isdigit s \<and> v = int (num_of_digits 0 s)) \<and>
    (ParseTid s = Some v \<longrightarrow> 0 \<le> v \<and> v < 10 ^ 9) \<and>
    f + length tidFrontStr \<le> r \<and> r \<le> length m \<and>
    watchdogTid (ParseTidFromMsg m t) =
      (case ParseTid (take (r - (f + length tidFrontStr)) (drop (f + length tidFrontStr) m)) of
         Some tid \<Rightarrow> tid | None \<Rightarrow> watchdogTid t)"
proof -
  have "0 \<le> v \<and> v < 10 ^ 9" if "ParseTid s = Some v"
    using that num_of_digits_small [of s] by (auto simp: ParseTid_spec split: if_splits)
  moreover have "r \<le> length m" using str_find_bounds [OF assms(2)] by simp
  ultimately show ?thesis
    using rear_after_front [OF assms] assms
    by (auto simp: ParseTid_spec ParseTidFromMsg_def str_substr_def Let_def split: option.split)
qed

theorem ParseTid_exact_witness:
  "watchdogTid (ParseTidFromMsg ''(Thread ID = 42) is running'' WatchdogTask_default) = 42"
proof -
  have "str_find ''(Thread ID = 42) is running'' tidFrontStr 0 = Some 1" by (simp add: str_find_def)
  moreover have "str_find ''(Thread ID = 42) is running'' tidRearStr 1 = Some 15" by (simp add: str_find_def)
  ultimately have "watchdogTid (ParseTidFromMsg ''(Thread ID = 42) is running'' WatchdogTask_default) =
      (case ParseTid (take 2 (drop 13 ''(Thread ID = 42) is running'')) of Some tid \<Rightarrow> tid | None \<Rightarrow> watchdogTid WatchdogTask_default)"
    using ParseTid_exact [of "''(Thread ID = 42) is running''" 1 15] by simp
  then show ?thesis by (simp add: ParseTid_spec isdigit_def digit_val_def)
qed

lemma DoCallback_out:
  assumes "task_func t = Some f"
  shows "\<exists>rest. out (DoCallback e ri t w) = out w @ ECallback f (task_arg t) # rest \<and> (\<forall>g x. ECallback g x \<notin> set rest)"
proof -
  have "out (snd (IsCallbackLimit fl s v)) = out v" for fl s v by (simp add: IsCallbackLimit_def)
  then show ?thesis
    using assms by (auto simp: DoCallback_def Let_def split_beta SendXCollieEvent_def LeftTimeExitProcess_def call_func_def)
qed

text \<open>
  C35. When the time of a timer is up: the callback of the client, if it gave one, runs first and exactly once. The
  watchdog makes the process exit exactly when the timer asked for recovery, the process is not an application, it is not
  being debugged and the callback is not limited. The alarm that would end it eleven seconds later is armed
  under the same conditions but one: also for a process that is being debugged. No other alarm is armed.
\<close>

theorem timer_exit_conditions:
  assumes "out w = []"
  shows "((\<exists>d. EExitProcess d \<in> set (out (DoCallback e ri t w))) \<longleftrightarrow>
      flag_recovery (task_flag t) \<and> getuid e \<le> UID_TYPE_THRESHOLD \<and> \<not> isProcessDebug e \<and>
      \<not> fst (IsCallbackLimit (task_flag t) (ri_time ri) w)) \<and>
    (\<forall>s. EAlarm s \<in> set (out (DoCallback e ri t w)) \<longleftrightarrow>
      s = 11 \<and> flag_recovery (task_flag t) \<and> getuid e \<le> UID_TYPE_THRESHOLD \<and>
      \<not> fst (IsCallbackLimit (task_flag t) (ri_time ri) w)) \<and>
    (\<forall>f. task_func t = Some f \<longrightarrow> (\<exists>rest. out (DoCallback e ri t w) = ECallback f (task_arg t) # rest \<and>
      (\<forall>g x. ECallback g x \<notin> set rest)))"
proof (intro conjI)
  have lim: "fst (IsCallbackLimit fl s (emit x w)) = fst (IsCallbackLimit fl s w)" for fl s x
    by (simp add: IsCallbackLimit_def)
  have out_lim: "out (snd (IsCallbackLimit fl s v)) = out v" for fl s v by (simp add: IsCallbackLimit_def)
  show "(\<exists>d. EExitProcess d \<in> set (out (DoCallback e ri t w))) \<longleftrightarrow>
      flag_recovery (task_flag t) \<and> getuid e \<le> UID_TYPE_THRESHOLD \<and> \<not> isProcessDebug e \<and>
      \<not> fst (IsCallbackLimit (task_flag t) (ri_time ri) w)"
    using assms
    by (auto simp: DoCallback_def Let_def split_beta lim out_lim SendXCollieEvent_def LeftTimeExitProcess_def
        call_func_def split: option.splits if_splits)
  show "\<forall>s. EAlarm s \<in> set (out (DoCallback e ri t w)) \<longleftrightarrow>
      s = 11 \<and> flag_recovery (task_flag t) \<and> getuid e \<le> UID_TYPE_THRESHOLD \<and>
      \<not> fst (IsCallbackLimit (task_flag t) (ri_time ri) w)"
    using assms
    by (auto simp: DoCallback_def Let_def split_beta lim out_lim SendXCollieEvent_def LeftTimeExitProcess_def
        call_func_def split: option.splits if_splits)
  show "\<forall>f. task_func t = Some f \<longrightarrow> (\<exists>rest. out (DoCallback e ri t w) = ECallback f (task_arg t) # rest \<and>
      (\<forall>g x. ECallback g x \<notin> set rest))"
    using DoCallback_out [of t _ e ri w] assms by auto
qed

theorem timer_exit_conditions_witness:
  "(\<exists>d. EExitProcess d \<in> set (out (DoCallback service_env demo_in
     (WatchdogTask_default\<lparr>task_flag := 2\<rparr>) WatchdogInner_init))) \<and>
   EAlarm 11 \<in> set (out (DoCallback (service_env\<lparr>isProcessDebug := True\<rparr>) demo_in
     (WatchdogTask_default\<lparr>task_flag := 2\<rparr>) WatchdogInner_init))"
proof -
  have "flag_recovery 2" "\<not> flag_log 2" by (simp_all add: flag_recovery_def flag_log_def)
  then show ?thesis
    using timer_exit_conditions [of WatchdogInner_init service_env demo_in "WatchdogTask_default\<lparr>task_flag := 2\<rparr>"]
      timer_exit_conditions [of WatchdogInner_init "service_env\<lparr>isProcessDebug := True\<rparr>" demo_in "WatchdogTask_default\<lparr>task_flag := 2\<rparr>"]
    by (simp add: WatchdogInner_init_def service_env_def UID_TYPE_THRESHOLD_def IsCallbackLimit_def)
qed

text \<open>
  A watchdog thread that comes late does not blame the watched thread: when the lateness of a
  repeating task exceeds its threshold, the run reports nothing, touches nothing and only moves the
  task's tick to the present.
\<close>

theorem late_watchdog_reports_nothing:
  assumes "countLimit t \<le> 0" and "checkInterval t \<noteq> 0" and "now - nextTickTime t > blocked_threshold e t"
  shows "snd (Run e ri now t w) = w \<and> nextTickTime (fst (Run e ri now t w)) = now \<and>
    ident (fst (Run e ri now t w)) = ident t"
proof -
  have "checkInterval (note_low_memory e ri now t) = checkInterval t"
    "nextTickTime (note_low_memory e ri now t) = nextTickTime t"
    "blocked_threshold e (note_low_memory e ri now t) = blocked_threshold e t"
    by (simp_all add: note_low_memory_def blocked_threshold_def)
  then show ?thesis using assms Run_ident [of e ri now t w] by (simp add: Run_def Let_def)
qed

theorem late_watchdog_reports_nothing_witness:
  "snd (Run service_env demo_in 100000 demo_handler_task WatchdogInner_init) = WatchdogInner_init"
  using late_watchdog_reports_nothing [where t = demo_handler_task and now = 100000 and e = service_env
    and ri = demo_in and w = WatchdogInner_init]
  by (simp add: demo_handler_task_def WatchdogTask_default_def blocked_threshold_def service_env_def)

text \<open>
  Low memory delays the exit of a blocked process by at most sixty seconds: the first blocked
  run in the low-memory state notes the time and skips the exit, a later one skips it only within
  sixty seconds of the noted time, and the first one after that does not skip and forgets it.
\<close>

theorem low_memory_skip_bounded:
  assumes "lastLowMemoryFreezeTime t \<noteq> 0"
  shows "(fst (ShouldSkipExitForLowMemory now now' t) \<longleftrightarrow>
      IsLowMemoryStatus now t \<and> now' - lastLowMemoryFreezeTime t \<le> 60000) \<and>
    (fst (ShouldSkipExitForLowMemory now now' t) \<longrightarrow>
      lastLowMemoryFreezeTime (snd (ShouldSkipExitForLowMemory now now' t)) = lastLowMemoryFreezeTime t) \<and>
    (IsLowMemoryStatus now t \<and> \<not> fst (ShouldSkipExitForLowMemory now now' t) \<longrightarrow>
      lastLowMemoryFreezeTime (snd (ShouldSkipExitForLowMemory now now' t)) = 0)"
  using assms by (auto simp: ShouldSkipExitForLowMemory_def MAX_LOW_MEMORY_FREEZE_TIME_def)

theorem low_memory_skip_bounded_witness:
  "\<not> fst (ShouldSkipExitForLowMemory 70000 70002
     (WatchdogTask_default\<lparr>lowMemoryCheck := True, lastLowMemoryTime := 69000, lastLowMemoryFreezeTime := 10001\<rparr>))"
  using low_memory_skip_bounded [of
      "WatchdogTask_default\<lparr>lowMemoryCheck := True, lastLowMemoryTime := 69000, lastLowMemoryFreezeTime := 10001\<rparr>" 70000 70002]
  by (simp add: WatchdogTask_default_def)

end
