(* ===== verification/Watchdog_Loop.thy ===== *)
theory Watchdog_Loop
  imports Watchdog_Task
begin

text \<open>
  The watchdog thread (\<^verbatim>\<open>WatchdogInner::Start\<close>): fetching the next task, skipping a run after the
  system has slept, running the task and inserting it again, and waiting. The thread and the threads
  of the clients interleave: a state of the step relation is the place of the watchdog thread in its
  loop together with the shared state, and a step is one critical section of either side. A run of a
  task is one step; it changes the queue at most by one operation under the lock.
\<close>

section \<open>The times of the clocks\<close>

text \<open>
  \<^verbatim>\<open>CalculateTimes\<close> reads the boot clock and the monotonic clock in turn, six times in all
  (\<open>timesArr\<close>), and takes a reading whose two neighbours, of the other clock, lie closest together.
\<close>

definition GetNumsDiffAbs :: "u64 \<Rightarrow> u64 \<Rightarrow> u64" where
  "GetNumsDiffAbs numOne numTwo = (if numOne > numTwo then numOne - numTwo else numTwo - numOne)"

definition TIMES_ARR_SIZE :: nat where "TIMES_ARR_SIZE = 6"
definition TIMES_AVE_PARAM :: u64 where "TIMES_AVE_PARAM = 2"

definition CalculateTimes_body :: "u64 list \<Rightarrow> nat \<Rightarrow> u64 \<times> nat \<Rightarrow> u64 \<times> nat" where
  "CalculateTimes_body timesArr i st =
     (if i \<le> 1 then st
      else let tmpDiff = GetNumsDiffAbs (timesArr ! i) (timesArr ! (i - 2))
           in if tmpDiff < fst st then (tmpDiff, i - 1) else st)"

definition CalculateTimes :: "u64 list \<Rightarrow> u64 \<times> u64" where
  "CalculateTimes timesArr =
     (let index = snd (fold (CalculateTimes_body timesArr) [0..<TIMES_ARR_SIZE] (- 1, 1));
          mean = (timesArr ! (index - 1) + timesArr ! (index + 1)) div TIMES_AVE_PARAM;
          at = timesArr ! index
      in if odd index then (mean, at) else (at, mean))"

definition DEFAULT_SLEEP_TIME :: u64 where "DEFAULT_SLEEP_TIME = 2 * 1000"

text \<open>\<open>ts\<close> is the result of \<^verbatim>\<open>CalculateTimes\<close> at the call.\<close>

definition IsInSleep :: "env \<Rightarrow> u64 \<times> u64 \<Rightarrow> WatchdogTask \<Rightarrow> bool" where
  "IsInSleep e ts t \<longleftrightarrow>
     \<not> (IsInAppspwan e \<or> bootTimeStart t \<le> 0 \<or> monoTimeStart t \<le> 0 \<or> task_name t = KICK_WATCHDOG_TASK) \<and>
     GetNumsDiffAbs (GetNumsDiffAbs (fst ts) (bootTimeStart t)) (GetNumsDiffAbs (snd ts) (monoTimeStart t))
       \<ge> DEFAULT_SLEEP_TIME"

section \<open>Fetching and inserting again\<close>

definition DEFAULT_TIMEOUT :: u64 where "DEFAULT_TIMEOUT = 60 * 1000"

definition scene_of :: "WatchdogTask \<Rightarrow> string" where
  "scene_of t = ''thread DfxWatchdog: Current scenario is task name: '' @ task_name t @ [CHR 0x0A]"

text \<open>
  \<^verbatim>\<open>FetchNextTask\<close> returns the time left and, through its reference parameter, the task; the
  parameter keeps its default value when no task is due, which is \<^term>\<open>None\<close> here.
\<close>

definition fetch_top :: "u64 \<Rightarrow> WatchdogInner \<Rightarrow> u64 \<times> WatchdogTask option \<times> WatchdogInner" where
  "fetch_top now w =
     (let t = pq_top (checkerQueue w) in
      if nextTickTime t > now then
        let leftTimeMill = nextTickTime t - now in
        if task_name t = KICK_WATCHDOG_TASK \<and> leftTimeMill > KICK_WATCHDOG_INTERVAL \<and> g_kickWatchdog w
        then (KICK_WATCHDOG_INTERVAL, None, w)
        else (leftTimeMill, None, w)
      else (0, Some t, w\<lparr>currentScene := scene_of t, checkerQueue := pq_pop (checkerQueue w)\<rparr>))"

definition FetchNextTask :: "probe \<Rightarrow> u64 \<Rightarrow> WatchdogInner \<Rightarrow> u64 \<times> WatchdogTask option \<times> WatchdogInner" where
  "FetchNextTask pr now w =
     (if isNeedStop w then (DEFAULT_TIMEOUT, None, w\<lparr>checkerQueue := []\<rparr>)
      else if checkerQueue w = [] then (DEFAULT_TIMEOUT, None, w)
      else case CheckCurrentTaskLocked pr (pq_top (checkerQueue w)) w of (finished, w1) \<Rightarrow>
        if finished \<and> checkerQueue w1 = [] then (DEFAULT_TIMEOUT, None, w1) else fetch_top now w1)"

definition ReInsertTaskIfNeed :: "env \<Rightarrow> u64 \<times> u64 \<Rightarrow> WatchdogTask \<Rightarrow> WatchdogInner \<Rightarrow> WatchdogInner" where
  "ReInsertTaskIfNeed e ts t w =
     (if checkInterval t = 0 then w
      else if task_name t \<notin> taskNameSet w then w
      else w\<lparr>checkerQueue := pq_push (set_times e ts (t\<lparr>nextTickTime := nextTickTime t + checkInterval t\<rparr>))
               (checkerQueue w)\<rparr>)"

section \<open>The clients\<close>

text \<open>
  What the other threads do: the public operations, the hooks of the main looper, the start and the
  end of a freeze sampling, the request to stop.
\<close>

datatype client =
    Api stamp api
  | LoopStart int
  | LoopEnd stamp probe int int int
  | SampleStart stamp string int int
  | SampleStop probe int
  | StopRequest

fun client_exec :: "env \<Rightarrow> client \<Rightarrow> WatchdogInner \<Rightarrow> WatchdogInner" where
  "client_exec e (Api st a) w = api_exec e st a w"
| "client_exec e (LoopStart ns) w = DistributeStart ns w"
| "client_exec e (LoopEnd st pr ns startT endT) w = DistributeEnd e st pr ns startT endT w"
| "client_exec e (SampleStart st date duration interval) w = snd (StartSample e st date duration interval w)"
| "client_exec e (SampleStop pr n) w = snd (StopSample pr n w)"
| "client_exec e StopRequest w = Stop_request w"

lemma core_upd [frame]: "core (upd_sampling f w) = core w" "core (w\<lparr>sampling := s\<rparr>) = core w"
  by (simp_all add: core_def)

lemma core_upd_stack [frame]: "core (upd_stack f w) = core w" "core (upd_trace g w) = core w"
  by (simp_all add: upd_stack_def upd_trace_def frame)

lemma queue_change_insert_task: "queue_change w (snd (insert_task e st nm tsk i w))"
  by (auto simp: insert_task_def Let_def split_beta task_constructors intro!: queue_change_insert)

lemma queue_change_insert_from: "core w = core w0 \<Longrightarrow> queue_change w (snd (insert_task e st nm tsk i w0))"
  by (rule queue_change_core [OF queue_change_insert_task]) simp_all

lemma queue_change_AppStart: "queue_change w (snd (AppStartSample e st scroll w))"
proof -
  let ?w1 = "upd_sampling (upd_content scroll (\<lambda>c. c\<lparr>as_collectCount := 0, as_isStartSampleEnabled := False\<rparr>)) w"
  have "queue_change ?w1 (snd (AppStartSample e st scroll w))"
    by (auto simp: AppStartSample_def Let_def split_beta task_constructors intro!: queue_change_insert)
  then show ?thesis by (rule queue_change_core) (simp_all add: frame)
qed

lemma queue_change_upd: "queue_change w v \<Longrightarrow> queue_change w (upd_sampling f v)"
  by (erule queue_change_core) (simp_all add: frame)

lemma queue_change_EnableAppStart: "queue_change w (snd (EnableAppStartSample e st pr scroll d w))"
  by (simp add: EnableAppStartSample_def Let_def queue_change_AppStart queue_change_upd queue_change_refl)

lemma queue_change_Scroll: "queue_change w (snd (StartScrollProfile e st pr endT i w))"
  by (auto simp: StartScrollProfile_def Let_def frame split: prod.split bool.split
      intro: queue_change_same queue_change_insert_from)

lemma queue_change_ProfileMain: "queue_change w (StartProfileMainThread e st pr endT i w)"
  by (auto simp: StartProfileMainThread_def Let_def frame split: prod.split bool.split
      intro: queue_change_same queue_change_insert_from)

lemma queue_change_Trace: "queue_change w (CollectTraceDetect e st pr endT w)"
  by (auto simp: CollectTraceDetect_def StartTraceProfile_def Let_def frame split_beta
      intro: queue_change_same queue_change_insert_from)

lemma queue_change_StartSample: "queue_change w (snd (StartSample e st date d i w))"
  by (auto simp: StartSample_def Let_def frame split_beta queue_change_refl
      split: sum.split intro!: queue_change_upd queue_change_insert_from)

lemma core_StopSample [frame]: "core (snd (StopSample pr n w)) = core w"
  by (simp add: StopSample_def Let_def frame split: prod.split)

lemma wd_inv_Stop_request: "wd_inv fl (Stop_request w) = wd_inv fl w"
  by (simp add: Stop_request_def Let_def wd_inv_def)

lemma CheckSample_inv:
  assumes "wd_inv fl w"
  shows "wd_inv fl (snd (CheckSample e st pr endT d w))"
proof -
  have c: "wd_inv fl v'" if "queue_change v v'" "wd_inv fl v" for v v' by (rule wd_inv_change [OF that])
  let ?r = "EnableAppStartSample e st pr True d w"
  have "wd_inv fl (snd ?r)" by (rule c [OF queue_change_EnableAppStart assms])
  then show ?thesis
    using c [OF queue_change_EnableAppStart assms, of e st pr False d] c [OF queue_change_Scroll, of "snd ?r"]
    by (cases ?r) (auto simp: CheckSample_def split: bool.split)
qed

lemma DistributeEnd_inv:
  assumes "wd_inv fl w"
  shows "wd_inv fl (DistributeEnd e st pr ns startT endT w)"
proof -
  let ?w1 = "upd_sampling (\<lambda>s. s\<lparr>timeContent := (timeContent s)\<lparr>curEnd := ns\<rparr>\<rparr>) w"
  let ?r = "CheckSample e st pr endT (to_ms (endT - startT)) ?w1"
  have "wd_inv fl ?w1" by (rule wd_inv_change [OF queue_change_same assms]) (simp add: frame)
  then have "wd_inv fl (snd ?r)" by (rule CheckSample_inv)
  then show ?thesis
    using wd_inv_change [OF queue_change_ProfileMain, of fl "snd ?r"] wd_inv_change [OF queue_change_Trace, of fl "snd ?r"] assms
    by (cases ?r) (auto simp: DistributeEnd_def Let_def split: bool.split)
qed

lemma client_inv:
  assumes "wd_inv fl w"
  shows "wd_inv fl (client_exec e c w)"
proof (cases c)
  case (LoopEnd st pr ns startT endT)
  then show ?thesis by (simp add: DistributeEnd_inv [OF assms])
next
  case StopRequest
  then show ?thesis by (simp add: wd_inv_Stop_request assms)
qed (auto intro!: wd_inv_change [OF _ assms] queue_change_api queue_change_StartSample
    queue_change_same simp: frame DistributeStart_def)

section \<open>The thread\<close>

text \<open>
  Where the watchdog thread is: before the test of the loop, before the fetch, holding a task that
  was due at \<open>now\<close>, after its run, before the wait with the time left, in the wait, or ended.
\<close>

datatype place =
    Test
  | Fetch
  | Holding u64 WatchdogTask
  | Finished WatchdogTask
  | Deciding u64
  | Waiting u64
  | Ended

definition run_task ::
  "env \<Rightarrow> run_in \<Rightarrow> u64 \<times> u64 \<Rightarrow> u64 \<Rightarrow> WatchdogTask \<Rightarrow> WatchdogInner \<Rightarrow> WatchdogTask \<times> WatchdogInner" where
  "run_task e ri ts now t w =
     (if SUSPEND_CHECK_ENABLE e \<and> IsInSleep e ts t then (t, w)
      else case Run e ri now t w of (t', w') \<Rightarrow> (t', w'\<lparr>currentScene := idle_scene\<rparr>))"

definition after_fetch :: "u64 \<Rightarrow> u64 \<times> WatchdogTask option \<times> WatchdogInner \<Rightarrow> place \<times> WatchdogInner" where
  "after_fetch now r =
     (case r of (left, topt, w) \<Rightarrow>
      let w1 = w\<lparr>nextWeakUpTime := now + left\<rparr>
      in (case topt of Some t \<Rightarrow> Holding now t | None \<Rightarrow> Deciding left, w1))"

text \<open>
  Steps. A notification wakes the thread only while it waits: \<open>notified\<close> tells whether a call has
  emitted one.
\<close>

definition notified :: "WatchdogInner \<Rightarrow> WatchdogInner \<Rightarrow> bool" where
  "notified w w' \<longleftrightarrow> ENotifyAll \<in> set (drop (length (out w)) (out w'))"

inductive loop_step :: "env \<Rightarrow> place \<times> WatchdogInner \<Rightarrow> place \<times> WatchdogInner \<Rightarrow> bool" for e where
  client: "w' = client_exec e c w \<Longrightarrow>
    loop_step e (p, w) (case p of Waiting left \<Rightarrow> if notified w w' then Test else p | _ \<Rightarrow> p, w')"
| test: "loop_step e (Test, w) (if isNeedStop w then Ended else Fetch, w)"
| fetch: "loop_step e (Fetch, w) (after_fetch now (FetchNextTask pr now w))"
| run: "run_task e ri ts now t w = (t', w') \<Longrightarrow> loop_step e (Holding now t, w) (Finished t', w')"
| reinsert: "loop_step e (Finished t, w) (Test, ReInsertTaskIfNeed e ts t w)"
| decide: "loop_step e (Deciding left, w) (if isNeedStop w then Ended else Waiting left, w)"
| timeout: "loop_step e (Waiting left, w) (Test, w)"

inductive_cases Deciding_stepE: "loop_step e (Deciding left, w) s'"
inductive_cases Holding_stepE: "loop_step e (Holding now t, w) s'"
inductive_cases Finished_stepE: "loop_step e (Finished t, w) s'"

definition in_flight :: "place \<Rightarrow> WatchdogTask list" where
  "in_flight p = (case p of Holding _ t \<Rightarrow> [t] | Finished t \<Rightarrow> [t] | _ \<Rightarrow> [])"

text \<open>The thread starts with the default tasks; \<open>w\<close> is any state the clients made before.\<close>

definition Start :: "env \<Rightarrow> stamp \<Rightarrow> stamp \<Rightarrow> nat \<Rightarrow> WatchdogInner \<Rightarrow> place \<times> WatchdogInner" where
  "Start e st st' fresh w = (Test, InitDefaultTask e st st' fresh (w\<lparr>watchdogStartTime := st_now st\<rparr>))"

inductive reachable :: "env \<Rightarrow> place \<times> WatchdogInner \<Rightarrow> bool" for e where
  start: "reachable e (Start e st st' fresh (fold (client_exec e) cs WatchdogInner_init))"
| step: "reachable e s \<Longrightarrow> loop_step e s s' \<Longrightarrow> reachable e s'"

section \<open>The invariant of the loop\<close>

lemma wd_inv_scene [simp]:
  "wd_inv fl (w\<lparr>currentScene := s\<rparr>) = wd_inv fl w" "wd_inv fl (w\<lparr>nextWeakUpTime := n\<rparr>) = wd_inv fl w"
  "wd_inv fl (w\<lparr>watchdogStartTime := n\<rparr>) = wd_inv fl w"
  by (simp_all add: wd_inv_def)

lemma wd_inv_pop: "wd_inv [] w \<Longrightarrow> wd_inv [] (pop_queue w)"
  by (cases "checkerQueue w") (auto simp: wd_inv_def pop_queue_def pq_pop_def)

lemma wd_inv_take:
  assumes "wd_inv [] w" and "checkerQueue w \<noteq> []"
  shows "wd_inv [pq_top (checkerQueue w)] (w\<lparr>currentScene := s, checkerQueue := pq_pop (checkerQueue w)\<rparr>)"
  using assms by (cases "checkerQueue w") (auto simp: wd_inv_def pq_pop_def pq_top_def)

lemma Check_queue:
  "queue_state (snd (CheckCurrentTaskLocked pr t w)) =
     queue_state (if fst (CheckCurrentTaskLocked pr t w) then pop_queue w else w)"
  by (simp add: CheckCurrentTaskLocked_def Let_def queue_state_def deinit_if_def pop_queue_def erase_name_def split_beta
      split: bool.split)

lemma Check_inv:
  assumes "wd_inv [] w"
  shows "wd_inv [] (snd (CheckCurrentTaskLocked pr t w))"
  using wd_inv_queue_state [OF Check_queue] assms wd_inv_pop by (simp split: if_splits)

lemma fetch_top_inv:
  assumes "wd_inv [] w" and "checkerQueue w \<noteq> []" and "fetch_top now w = (left, topt, w')"
  shows "wd_inv (case topt of Some t \<Rightarrow> [t] | None \<Rightarrow> []) w'"
  using assms wd_inv_take [OF assms(1,2)] by (auto simp: fetch_top_def Let_def split: if_splits)

lemma FetchNextTask_inv:
  assumes "wd_inv [] w" and "FetchNextTask pr now w = (left, topt, w')"
  shows "wd_inv (case topt of Some t \<Rightarrow> [t] | None \<Rightarrow> []) w'"
proof (cases "isNeedStop w \<or> checkerQueue w = []")
  case True
  then show ?thesis using assms by (auto simp: FetchNextTask_def wd_inv_def split: if_splits)
next
  case False
  obtain fin w1 where c: "CheckCurrentTaskLocked pr (pq_top (checkerQueue w)) w = (fin, w1)" by fastforce
  have i: "wd_inv [] w1" using Check_inv [OF assms(1), of pr "pq_top (checkerQueue w)"] c by simp
  have q: "checkerQueue w1 = (if fin then pq_pop (checkerQueue w) else checkerQueue w)"
    using Check_queue [of pr "pq_top (checkerQueue w)" w] c by (auto simp: queue_state_def pop_queue_def split: if_splits)
  show ?thesis
  proof (cases "checkerQueue w1 = []")
    case True
    then have "topt = None \<and> w' = w1" using assms(2) False c q by (auto simp: FetchNextTask_def split: if_splits)
    then show ?thesis using i by simp
  next
    case ne: False
    then have "fetch_top now w1 = (left, topt, w')" using assms(2) False c by (simp add: FetchNextTask_def)
    from fetch_top_inv [OF i ne this] show ?thesis .
  qed
qed

lemma after_fetch_inv:
  assumes "wd_inv [] w" and "after_fetch now (FetchNextTask pr now w) = (p, w')"
  shows "wd_inv (in_flight p) w'"
proof -
  obtain left topt v where f: "FetchNextTask pr now w = (left, topt, v)" by (cases "FetchNextTask pr now w")
  show ?thesis using FetchNextTask_inv [OF assms(1) f] assms(2)
    by (auto simp: f after_fetch_def Let_def in_flight_def split: option.splits)
qed

lemma wd_inv_same_id: "wd_inv [t] w \<Longrightarrow> task_id t' = task_id t \<Longrightarrow> wd_inv [t'] w"
  by (simp add: wd_inv_def)

lemma run_task_keeps:
  assumes "run_task e ri ts now t w = (t', w')"
  shows "ident t' = ident t" and "wd_inv [t] w \<Longrightarrow> wd_inv [t'] w'"
proof -
  show id: "ident t' = ident t"
    using assms Run_ident [of e ri now t w] by (auto simp: run_task_def split: if_splits prod.splits)
  assume i: "wd_inv [t] w"
  have "wd_inv [t] w'"
    using assms i Run_wd_inv [OF i, of e ri now t] by (auto simp: run_task_def split: if_splits prod.splits)
  then show "wd_inv [t'] w'" by (rule wd_inv_same_id) (use id in \<open>simp add: ident_def\<close>)
qed

lemma ReInsert_inv:
  assumes "wd_inv [t] w"
  shows "wd_inv [] (ReInsertTaskIfNeed e ts t w)"
proof -
  let ?t = "set_times e ts (t\<lparr>nextTickTime := nextTickTime t + checkInterval t\<rparr>)"
  have "distinct (map task_id (checkerQueue w))" "task_id t \<notin> task_id ` set (checkerQueue w)"
    using assms by (auto simp: wd_inv_def)
  then have "distinct (map task_id ([] @ ?t # checkerQueue w))" by simp
  then have "distinct (map task_id ([] @ pq_push ?t (checkerQueue w)))"
    by (rule distinct_same_mset [rotated]) simp
  then show ?thesis using assms by (auto simp: ReInsertTaskIfNeed_def wd_inv_def)
qed

lemma AddKick_inv:
  assumes "wd_inv [] w"
  shows "wd_inv [] (AddKickWatchdog e st w)"
proof -
  have k: "wd_inv [] (w\<lparr>g_kickWatchdog := k\<rparr>)" for k using assms by (simp add: wd_inv_def)
  show ?thesis
    unfolding AddKickWatchdog_def Let_def
    by (cases "getuid e = FOUNDATION_UID \<or> KICK_WATCHDOG_ENABLE e \<and> getuid e = MEDIA_SERVICE_UID \<and> selfProcName e = ''media_service''")
      (simp_all only: if_True if_False not_True_eq_False not_False_eq_True k wd_inv_change [OF queue_change_Periodical k])
qed

lemma InitDefaultTask_inv: "wd_inv [] w \<Longrightarrow> wd_inv [] (InitDefaultTask e st st' fresh w)"
  unfolding InitDefaultTask_def by (intro AddKick_inv wd_inv_change [OF queue_change_Ipc])

lemma clients_inv: "wd_inv fl w \<Longrightarrow> wd_inv fl (fold (client_exec e) cs w)"
  by (induction cs arbitrary: w) (auto intro: client_inv)

lemma loop_step_inv:
  assumes "loop_step e s s'" and "wd_inv (in_flight (fst s)) (snd s)"
  shows "wd_inv (in_flight (fst s')) (snd s')"
  using assms
proof cases
  case (client w' c w p)
  have "wd_inv (in_flight p) w'" using client_inv [of "in_flight p" w e c] client assms(2) by simp
  then show ?thesis using client by (auto simp: in_flight_def split: place.split)
next
  case (fetch w now pr)
  then show ?thesis
    using after_fetch_inv [of w now pr "fst s'" "snd s'"] assms(2) by (simp add: in_flight_def)
next
  case (run ri ts now t w t' w')
  then show ?thesis using run_task_keeps(2) [OF run(3)] assms(2) by (simp add: in_flight_def)
next
  case (reinsert t w ts)
  then show ?thesis using ReInsert_inv [of t w e ts] assms(2) by (simp add: in_flight_def)
qed (simp_all add: in_flight_def)

lemma reachable_inv: "reachable e s \<Longrightarrow> wd_inv (in_flight (fst s)) (snd s)"
proof (induction rule: reachable.induct)
  case (start st st' fresh cs)
  have "wd_inv [] (fold (client_exec e) cs WatchdogInner_init)" by (rule clients_inv [OF wd_inv_init])
  then show ?case by (simp add: Start_def in_flight_def InitDefaultTask_inv)
qed (rule loop_step_inv)

section \<open>What a fetch does\<close>

lemma word_diff_le: "(c::u64) < a \<Longrightarrow> a \<le> b \<Longrightarrow> a - c \<le> b - c"
  by (simp add: word_le_nat_alt word_less_nat_alt unat_sub)

lemma fetch_top_spec:
  assumes "pq_inv (checkerQueue w)" and "checkerQueue w \<noteq> []" and "fetch_top now w = (left, topt, w')"
  shows "case topt of
      Some t \<Rightarrow> left = 0 \<and> nextTickTime t \<le> now \<and> mset (checkerQueue w) = add_mset t (mset (checkerQueue w')) \<and>
        (\<forall>x \<in> set (checkerQueue w'). nextTickTime t \<le> nextTickTime x)
    | None \<Rightarrow> 0 < left \<and> mset (checkerQueue w) = mset (checkerQueue w') \<and>
        (\<forall>x \<in> set (checkerQueue w'). now < nextTickTime x \<and> left \<le> nextTickTime x - now)"
proof (cases "nextTickTime (pq_top (checkerQueue w)) > now")
  case True
  let ?t = "pq_top (checkerQueue w)"
  have pos: "0 < nextTickTime ?t - now" using True by (simp add: word_greater_zero_iff)
  have le: "nextTickTime ?t - now \<le> nextTickTime x - now \<and> now < nextTickTime x" if "x \<in> set (checkerQueue w)" for x
  proof -
    have "nextTickTime ?t \<le> nextTickTime x" using pq.top_min [OF assms(1), of x] that by simp
    with True show ?thesis by (auto intro: word_diff_le)
  qed
  have "left \<le> nextTickTime ?t - now \<and> 0 < left \<and> topt = None \<and> w' = w"
    using True assms(3) pos by (auto simp: fetch_top_def Let_def KICK_WATCHDOG_INTERVAL_def split: if_splits)
  then show ?thesis using le by (auto intro: order_trans)
next
  case False
  let ?t = "pq_top (checkerQueue w)"
  have split: "mset (checkerQueue w) = add_mset ?t (mset (pq_pop (checkerQueue w)))"
    using pq.split_top [OF assms(1)] assms(2) by simp
  have "nextTickTime ?t \<le> nextTickTime x" if "x \<in> set (pq_pop (checkerQueue w))" for x
    using pq.top_min [OF assms(1), of x] that by (simp add: split)
  with False split show ?thesis using assms(3) by (auto simp: fetch_top_def Let_def)
qed

text \<open>What is left of the queue after the clean-up of a finished sampling task on top.\<close>

lemma Check_drops:
  assumes "checkerQueue w \<noteq> []" and "pq_inv (checkerQueue w)"
    and "CheckCurrentTaskLocked pr (pq_top (checkerQueue w)) w = (fin, w1)"
  shows "mset (checkerQueue w) = mset (checkerQueue w1) + (if fin then {#pq_top (checkerQueue w)#} else {#}) \<and>
    pq_inv (checkerQueue w1) \<and> checkerQueue w1 = (if fin then pq_pop (checkerQueue w) else checkerQueue w)"
proof -
  have "checkerQueue w1 = (if fin then pq_pop (checkerQueue w) else checkerQueue w)"
    using Check_queue [of pr "pq_top (checkerQueue w)" w] assms(3)
    by (auto simp: queue_state_def pop_queue_def split: if_splits)
  then show ?thesis using pq.split_top [OF assms(2)] assms(1,2) pq_inv_pop by simp
qed

section \<open>The estimate of the clocks\<close>

lemma unat_GetNumsDiffAbs:
  "unat (GetNumsDiffAbs a b) = (if unat b < unat a then unat a - unat b else unat b - unat a)"
  by (auto simp: GetNumsDiffAbs_def word_less_nat_alt unat_sub word_le_nat_alt)

lemma nat_diff_diff:
  assumes "B \<le> A" and "D \<le> C"
  shows "(if C - D < A - B then A - B - (C - D) else C - D - (A - B)) = nat \<bar>(int A - int B) - (int C - int D)\<bar>"
  using assms by auto

lemma unat_diff_diff:
  assumes "unat b \<le> unat a" and "unat d \<le> unat c"
  shows "unat (GetNumsDiffAbs (GetNumsDiffAbs a b) (GetNumsDiffAbs c d)) =
    nat \<bar>(int (unat a) - int (unat b)) - (int (unat c) - int (unat d))\<bar>"
proof -
  have "unat (GetNumsDiffAbs a b) = unat a - unat b" "unat (GetNumsDiffAbs c d) = unat c - unat d"
    using assms by (simp_all add: unat_GetNumsDiffAbs)
  then show ?thesis unfolding nat_diff_diff [OF assms, symmetric] by (simp only: unat_GetNumsDiffAbs)
qed

text \<open>The loop keeps the index of the smallest difference seen so far.\<close>

definition gap :: "u64 list \<Rightarrow> nat \<Rightarrow> u64" where
  "gap ts i = GetNumsDiffAbs (ts ! (i + 1)) (ts ! (i - 1))"

lemma CalculateTimes_min:
  assumes "\<And>i. 1 \<le> i \<Longrightarrow> i \<le> Suc n \<Longrightarrow> gap ts i < - 1"
  shows "\<exists>index. fold (CalculateTimes_body ts) [0..<n + 3] (- 1, 1) = (gap ts index, index) \<and>
    1 \<le> index \<and> index \<le> Suc n \<and> (\<forall>i. 1 \<le> i \<and> i \<le> Suc n \<longrightarrow> gap ts index \<le> gap ts i)"
  using assms
proof (induction n)
  case 0
  have "fold (CalculateTimes_body ts) [0..<3] (- 1, 1) = (gap ts 1, 1)"
    using 0 [of 1] by (simp add: upt_rec CalculateTimes_body_def gap_def numeral_eq_Suc)
  then show ?case by (auto simp: le_Suc_eq)
next
  case (Suc n)
  then obtain index where f: "fold (CalculateTimes_body ts) [0..<n + 3] (- 1, 1) = (gap ts index, index)"
    and r: "1 \<le> index" "index \<le> Suc n" and least: "\<forall>i. 1 \<le> i \<and> i \<le> Suc n \<longrightarrow> gap ts index \<le> gap ts i" by force
  have g: "GetNumsDiffAbs (ts ! (n + 3)) (ts ! (n + 1)) = gap ts (n + 2)" by (simp add: gap_def numeral_eq_Suc)
  have step: "fold (CalculateTimes_body ts) [0..<Suc n + 3] (- 1, 1) =
      (if gap ts (n + 2) < gap ts index then (gap ts (n + 2), n + 2) else (gap ts index, index))"
    using f g by (simp add: CalculateTimes_body_def numeral_eq_Suc)
  show ?case
  proof (cases "gap ts (n + 2) < gap ts index")
    case True
    then have "gap ts (n + 2) \<le> gap ts i" if "1 \<le> i" "i \<le> Suc (Suc n)" for i
      using that least by (cases "i = n + 2") (auto dest: order.strict_trans2 intro: less_imp_le)
    with True step show ?thesis by (intro exI [of _ "n + 2"]) auto
  next
    case False
    then have "gap ts index \<le> gap ts i" if "1 \<le> i" "i \<le> Suc (Suc n)" for i
      using that least by (cases "i = n + 2") auto
    with False step r show ?thesis by (intro exI [of _ index]) auto
  qed
qed

text \<open>
  Six readings taken at the instants \<open>s 0, \<dots>, s 5\<close> of the monotonic clock, when the boot clock is
  \<open>off\<close> ahead of it.
\<close>

definition readings :: "(nat \<Rightarrow> nat) \<Rightarrow> nat \<Rightarrow> u64 list" where
  "readings s off = map (\<lambda>i. of_nat (s i + (if even i then off else 0))) [0..<TIMES_ARR_SIZE]"

definition clock_run :: "(nat \<Rightarrow> nat) \<Rightarrow> nat \<Rightarrow> bool" where
  "clock_run s off \<longleftrightarrow> (\<forall>i < 5. s i \<le> s (i + 1)) \<and> s 5 + off < 2 ^ 62"

lemma clock_run_le: "clock_run s off \<Longrightarrow> i \<le> j \<Longrightarrow> j \<le> 5 \<Longrightarrow> s i \<le> s j"
proof (induction j)
  case (Suc j)
  then show ?case by (cases "i = Suc j") (auto simp: clock_run_def intro: order_trans)
qed simp

lemma unat_readings:
  assumes "clock_run s off" and "i \<le> 5"
  shows "unat (readings s off ! i) = s i + (if even i then off else 0)"
proof -
  have "s i \<le> s 5" by (rule clock_run_le [OF assms(1,2)]) simp
  then have "s i + (if even i then off else 0) < 2 ^ 64" using assms(1) by (auto simp: clock_run_def)
  then show ?thesis using assms(2)
    by (simp add: readings_def TIMES_ARR_SIZE_def unat_of_nat del: of_nat_add)
qed

lemma unat_gap:
  assumes "clock_run s off" and "1 \<le> i" and "i \<le> 4"
  shows "unat (gap (readings s off) i) = s (i + 1) - s (i - 1)"
proof -
  have "s (i - 1) \<le> s (i + 1)" by (rule clock_run_le [OF assms(1)]) (use assms in auto)
  moreover have "even (i + 1) = even (i - 1)" using assms(2) by (cases i) auto
  ultimately show ?thesis
    using assms by (simp add: gap_def unat_GetNumsDiffAbs unat_readings split: if_splits)
qed

lemma unat_mean:
  fixes a b :: u64
  assumes "unat a < 2 ^ 63" and "unat b < 2 ^ 63"
  shows "unat ((a + b) div TIMES_AVE_PARAM) = (unat a + unat b) div 2"
proof -
  have "unat (a + b) = unat a + unat b" using assms by (intro unat_add_lem [THEN iffD1]) simp
  then show ?thesis by (simp add: TIMES_AVE_PARAM_def unat_div)
qed

lemma abs_close: "2 * \<bar>x\<bar> \<le> k \<Longrightarrow> 2 * \<bar>y\<bar> \<le> k \<Longrightarrow> \<bar>y - x\<bar> \<le> (k::int)"
  by linarith

lemma mean_close:
  fixes a b c k :: int
  assumes "a \<le> c" and "c \<le> b" and "b - a \<le> k"
  shows "2 * \<bar>(a + b) div 2 - c\<bar> \<le> k + 1" and "2 * \<bar>c - (a + b) div 2\<bar> \<le> k + 1"
proof -
  have "2 * ((a + b) div 2) \<le> a + b" "a + b \<le> 2 * ((a + b) div 2) + 1" by simp_all
  then show "2 * \<bar>(a + b) div 2 - c\<bar> \<le> k + 1" and "2 * \<bar>c - (a + b) div 2\<bar> \<le> k + 1"
    using assms unfolding abs_if by (simp_all split: if_splits)
qed

text \<open>The estimates of the two clocks differ from their true offset by half of the smallest gap.\<close>

lemma CalculateTimes_estimate:
  assumes run: "clock_run s off" and c: "CalculateTimes (readings s off) = (b, m)" and i: "1 \<le> i" "i \<le> 4"
  shows "2 * \<bar>int (unat b) - int (unat m) - int off\<bar> \<le> int (s (i + 1)) - int (s (i - 1)) + 1"
    and "s 0 \<le> unat m" and "unat m \<le> s 5" and "s 0 + off \<le> unat b" and "unat b \<le> s 5 + off"
proof -
  let ?r = "readings s off"
  have small: "gap ?r i < - 1" if "1 \<le> i" "i \<le> 4" for i
  proof -
    have "s (i + 1) \<le> s 5" by (rule clock_run_le [OF run]) (use that in auto)
    then have "unat (gap ?r i) < 2 ^ 62" using unat_gap [OF run that] run unfolding clock_run_def by linarith
    then show ?thesis by (simp add: word_less_nat_alt unsigned_minus_1_eq_mask mask_eq_exp_minus_1)
  qed
  obtain x where f: "fold (CalculateTimes_body ?r) [0..<3 + 3] (- 1, 1) = (gap ?r x, x)"
    and x: "1 \<le> x" "x \<le> 4" and least: "\<forall>i. 1 \<le> i \<and> i \<le> 4 \<longrightarrow> gap ?r x \<le> gap ?r i"
    using CalculateTimes_min [of 3 ?r] small by (auto simp: numeral_eq_Suc)
  have idx: "snd (fold (CalculateTimes_body ?r) [0..<TIMES_ARR_SIZE] (- 1, 1)) = x"
    using f by (simp add: TIMES_ARR_SIZE_def)
  have ord: "s 0 \<le> s (x - 1)" "s (x - 1) \<le> s x" "s x \<le> s (x + 1)" "s (x + 1) \<le> s 5"
    using x by (auto intro!: clock_run_le [OF run])
  have le: "s (x + 1) - s (x - 1) \<le> s (i + 1) - s (i - 1)" "s (i - 1) \<le> s (i + 1)"
    using least i unat_gap [OF run x] unat_gap [OF run i] by (auto simp: word_le_nat_alt intro!: clock_run_le [OF run])
  have top: "s 5 + off < 2 ^ 62" using run by (simp add: clock_run_def)
  have lt: "unat (?r ! j) < 2 ^ 63" if "j \<le> 5" for j
    using unat_readings [OF run that] clock_run_le [OF run that] top by auto
  have par: "even (x + 1) \<longleftrightarrow> odd x" "even (x - 1) \<longleftrightarrow> odd x" using x by (auto elim: oddE simp: even_Suc)
  have bm: "(b, m) = (if odd x then ((?r ! (x - 1) + ?r ! (x + 1)) div TIMES_AVE_PARAM, ?r ! x)
      else (?r ! x, (?r ! (x - 1) + ?r ! (x + 1)) div TIMES_AVE_PARAM))"
    using c unfolding CalculateTimes_def idx Let_def by simp
  have in5: "x - 1 \<le> 5" "x + 1 \<le> 5" "x \<le> 5" using x by auto
  have "unat b = (if odd x then (s (x - 1) + off + (s (x + 1) + off)) div 2 else s x + off) \<and>
      unat m = (if odd x then s x else (s (x - 1) + s (x + 1)) div 2)"
    using bm unat_mean [OF lt [OF in5(1)] lt [OF in5(2)]] unat_readings [OF run in5(1)] unat_readings [OF run in5(2)]
      unat_readings [OF run in5(3)] par by (auto split: if_splits)
  with ord le show "2 * \<bar>int (unat b) - int (unat m) - int off\<bar> \<le> int (s (i + 1)) - int (s (i - 1)) + 1"
    and "s 0 \<le> unat m" and "unat m \<le> s 5" and "s 0 + off \<le> unat b" and "unat b \<le> s 5 + off"
    using mean_close [of "int (s (x - 1))" "int (s x)" "int (s (x + 1))" "int (s (i + 1)) - int (s (i - 1))"]
    by (auto simp: zdiv_int split: if_splits)
qed

section \<open>Properties\<close>

text \<open>What a fetch does with the queue that is left when a finished sampling task has been taken from its top.\<close>

lemma fetch_top_exact:
  assumes "pq_inv (checkerQueue w)" and "checkerQueue w \<noteq> []" and "fetch_top now w = (left, topt, w')"
  shows "\<exists>x \<in> set (checkerQueue w). (\<forall>y \<in> set (checkerQueue w). nextTickTime x \<le> nextTickTime y) \<and>
    (if nextTickTime x \<le> now
     then left = 0 \<and> topt = Some x \<and> mset (checkerQueue w) = add_mset x (mset (checkerQueue w'))
     else topt = None \<and> w' = w \<and>
       left = (if task_name x = KICK_WATCHDOG_TASK \<and> 30000 < nextTickTime x - now \<and> g_kickWatchdog w then 30000
               else nextTickTime x - now))"
proof -
  let ?x = "pq_top (checkerQueue w)"
  have "?x \<in> set (checkerQueue w)" using pq.top_in [OF assms(1)] assms(2) by simp
  moreover have "\<forall>y \<in> set (checkerQueue w). nextTickTime ?x \<le> nextTickTime y" using pq.top_min [OF assms(1)] by simp
  moreover have "mset (checkerQueue w) = add_mset ?x (mset (pq_pop (checkerQueue w)))"
    using pq.split_top [OF assms(1)] assms(2) by simp
  moreover have "if nextTickTime ?x \<le> now
     then left = 0 \<and> topt = Some ?x \<and> checkerQueue w' = pq_pop (checkerQueue w)
     else topt = None \<and> w' = w \<and>
       left = (if task_name ?x = KICK_WATCHDOG_TASK \<and> 30000 < nextTickTime ?x - now \<and> g_kickWatchdog w then 30000
               else nextTickTime ?x - now)"
  proof (cases "nextTickTime ?x \<le> now")
    case True
    then show ?thesis using assms(3) by (auto simp: fetch_top_def Let_def leD)
  next
    case False
    then show ?thesis using assms(3) by (auto simp: fetch_top_def Let_def KICK_WATCHDOG_INTERVAL_def not_le split: if_splits)
  qed
  ultimately show ?thesis by (intro bexI [of _ ?x]) (simp_all split: if_splits)
qed

lemma fetch_exact:
  assumes "pq_inv (checkerQueue w)" and "\<not> isNeedStop w" and "FetchNextTask pr now w = (left, topt, w')"
  obtains lost where "lost = {#} \<or> lost = {#pq_top (checkerQueue w)#} \<and> fst (CheckCurrentTaskLocked pr (pq_top (checkerQueue w)) w)"
    and "mset (checkerQueue w) = mset (checkerQueue w') + mset (case topt of Some t \<Rightarrow> [t] | None \<Rightarrow> []) + lost"
    and "case topt of
        Some t \<Rightarrow> left = 0 \<and> nextTickTime t \<le> now \<and> (\<forall>x \<in> set (checkerQueue w'). nextTickTime t \<le> nextTickTime x)
      | None \<Rightarrow> if checkerQueue w' = [] then left = 60000
          else \<exists>x \<in> set (checkerQueue w'). now < nextTickTime x \<and> (\<forall>y \<in> set (checkerQueue w'). nextTickTime x \<le> nextTickTime y) \<and>
            left = (if task_name x = KICK_WATCHDOG_TASK \<and> 30000 < nextTickTime x - now \<and> g_kickWatchdog w' then 30000
                    else nextTickTime x - now)"
proof (cases "checkerQueue w = []")
  case True
  show thesis by (rule that [of "{#}"]) (use True assms in \<open>auto simp: FetchNextTask_def DEFAULT_TIMEOUT_def\<close>)
next
  case False
  obtain fin w1 where c: "CheckCurrentTaskLocked pr (pq_top (checkerQueue w)) w = (fin, w1)" by fastforce
  note d = Check_drops [OF False assms(1) c]
  let ?lost = "if fin then {#pq_top (checkerQueue w)#} else {#}"
  have l: "?lost = {#} \<or> ?lost = {#pq_top (checkerQueue w)#} \<and> fst (CheckCurrentTaskLocked pr (pq_top (checkerQueue w)) w)"
    using c by simp
  show thesis
  proof (cases "checkerQueue w1 = []")
    case True
    then have "topt = None \<and> w' = w1 \<and> left = DEFAULT_TIMEOUT"
      using assms(2,3) False c d by (auto simp: FetchNextTask_def split: if_splits)
    then show thesis using that [OF l] d True by (simp add: DEFAULT_TIMEOUT_def)
  next
    case ne: False
    then have "fetch_top now w1 = (left, topt, w')" using assms(2,3) False c by (simp add: FetchNextTask_def)
    from fetch_top_exact [OF _ ne this] d obtain x where x: "x \<in> set (checkerQueue w1)"
      "\<forall>y \<in> set (checkerQueue w1). nextTickTime x \<le> nextTickTime y"
      "if nextTickTime x \<le> now
       then left = 0 \<and> topt = Some x \<and> mset (checkerQueue w1) = add_mset x (mset (checkerQueue w'))
       else topt = None \<and> w' = w1 \<and>
         left = (if task_name x = KICK_WATCHDOG_TASK \<and> 30000 < nextTickTime x - now \<and> g_kickWatchdog w1 then 30000
                 else nextTickTime x - now)" by blast
    have m: "mset (checkerQueue w) = mset (checkerQueue w1) + ?lost" using d by blast
    show thesis
    proof (cases "nextTickTime x \<le> now")
      case True
      then have t: "left = 0" "topt = Some x" "mset (checkerQueue w1) = add_mset x (mset (checkerQueue w'))" using x(3) by simp_all
      have "y \<in> set (checkerQueue w1)" if "y \<in> set (checkerQueue w')" for y
        using that t(3) by (metis set_mset_mset insertCI set_mset_add_mset_insert)
      then show thesis using that [OF l] m t x(2) True by simp
    next
      case later: False
      then show thesis using that [OF l] m x ne by (auto simp: not_le)
    qed
  qed
qed

text \<open>
  C3. A fetch hands out a task exactly when one is due: it is queued, due, none left in the queue is earlier, and it leaves the
  queue. Otherwise the thread waits until the earliest tick, or thirty seconds when that is a later tick of
  the kick of the hardware watchdog, and sixty when nothing is queued. At most a finished sampling task on top is lost besides.
\<close>

theorem fetch_serves_earliest_due:
  assumes "pq_inv (checkerQueue w)" and "\<not> isNeedStop w" and "FetchNextTask pr now w = (left, topt, w')"
  shows "(\<exists>lost. (lost = {#} \<or> lost = {#pq_top (checkerQueue w)#} \<and> fst (CheckCurrentTaskLocked pr (pq_top (checkerQueue w)) w)) \<and>
      mset (checkerQueue w) = mset (checkerQueue w') + mset (case topt of Some t \<Rightarrow> [t] | None \<Rightarrow> []) + lost) \<and>
    (case topt of
        Some t \<Rightarrow> left = 0 \<and> nextTickTime t \<le> now \<and> (\<forall>x \<in> set (checkerQueue w'). nextTickTime t \<le> nextTickTime x)
      | None \<Rightarrow> if checkerQueue w' = [] then left = 60000
          else \<exists>x \<in> set (checkerQueue w'). now < nextTickTime x \<and> (\<forall>y \<in> set (checkerQueue w'). nextTickTime x \<le> nextTickTime y) \<and>
            left = (if task_name x = KICK_WATCHDOG_TASK \<and> 30000 < nextTickTime x - now \<and> g_kickWatchdog w' then 30000
                    else nextTickTime x - now))"
  by (rule fetch_exact [OF assms]) (intro conjI exI, assumption+)

definition demo_timers :: WatchdogInner where
  "demo_timers = WatchdogInner_init\<lparr>checkerQueue :=
     [WatchdogTask_default\<lparr>task_id := 1, task_name := ''a'', nextTickTime := 40\<rparr>,
      WatchdogTask_default\<lparr>task_id := 2, task_name := ''b'', nextTickTime := 70\<rparr>]\<rparr>"

theorem fetch_serves_earliest_due_witness:
  "fst (FetchNextTask demo_probe 10 demo_timers) = 30 \<and>
   map_option task_id (fst (snd (FetchNextTask demo_probe 50 demo_timers))) = Some 1"
proof -
  have q: "pq_inv (checkerQueue demo_timers)" "\<not> isNeedStop demo_timers"
    by (simp_all add: demo_timers_def WatchdogInner_init_def WatchdogTask_default_def)
  have f: "FetchNextTask demo_probe now demo_timers = (if now < 40 then (40 - now, None, demo_timers)
      else (0, Some (hd (checkerQueue demo_timers)), snd (snd (FetchNextTask demo_probe now demo_timers))))" for now
    by (simp add: FetchNextTask_def fetch_top_def CheckCurrentTaskLocked_def demo_timers_def WatchdogInner_init_def WatchdogTask_default_def
        pq_top_def pq_pop_def Let_def not_less not_le)
  obtain left topt w' where r: "FetchNextTask demo_probe 10 demo_timers = (left, topt, w')" by (metis surj_pair)
  have "topt = None" "w' = demo_timers" using r f [of 10] by simp_all
  then have "left = 30"
    using fetch_serves_earliest_due [OF q r] by (auto simp: demo_timers_def WatchdogTask_default_def WatchdogInner_init_def)
  moreover have "task_id (hd (checkerQueue demo_timers)) = 1" by (simp add: demo_timers_def)
  moreover have "fst (snd (FetchNextTask demo_probe 50 demo_timers)) = Some (hd (checkerQueue demo_timers))"
    by (subst f) simp
  ultimately show ?thesis using r by simp
qed

text \<open>
  C2. In every reachable state of the watchdog thread and its clients the queue is ordered, the ids
  of the queued tasks and the running one are distinct and were handed out, and at most one task
  more than \<^verbatim>\<open>MAX_WATCH_NUM\<close> exists. The one more is real: the running task does not count, so a client
  may fill the queue meanwhile, and a repeating task is inserted again without a check.
\<close>

theorem loop_queue_invariant:
  assumes "reachable e (p, w)"
  shows "pq_inv (checkerQueue w) \<and> distinct (map task_id (in_flight p @ checkerQueue w)) \<and>
    (\<forall>t \<in> set (in_flight p @ checkerQueue w). 0 < task_id t \<and> task_id t \<le> curId w) \<and>
    length (in_flight p) + length (checkerQueue w) \<le> MAX_WATCH_NUM + 1 \<and>
    (\<forall>t. p = Finished t \<and> checkInterval t \<noteq> 0 \<and> task_name t \<in> taskNameSet w \<and> length (checkerQueue w) = MAX_WATCH_NUM \<longrightarrow>
      reachable e (Test, ReInsertTaskIfNeed e ts t w) \<and>
      length (checkerQueue (ReInsertTaskIfNeed e ts t w)) = MAX_WATCH_NUM + 1)"
proof -
  have "wd_inv (in_flight p) w" using reachable_inv [OF assms] by simp
  moreover have "reachable e (Test, ReInsertTaskIfNeed e ts t w)" if "p = Finished t" for t
    using assms that by (auto intro: reachable.step loop_step.reinsert)
  ultimately show ?thesis by (auto simp: wd_inv_def ReInsertTaskIfNeed_def)
qed

theorem loop_queue_invariant_witness:
  "pq_inv (checkerQueue (snd (Start service_env demo_stamp demo_stamp 0 WatchdogInner_init)))"
proof -
  have "reachable service_env (Start service_env demo_stamp demo_stamp 0 (fold (client_exec service_env) [] WatchdogInner_init))"
    by (rule reachable.start)
  then show ?thesis
    using loop_queue_invariant [of service_env "fst (Start service_env demo_stamp demo_stamp 0 WatchdogInner_init)"
        "snd (Start service_env demo_stamp demo_stamp 0 WatchdogInner_init)"] by simp
qed

text \<open>
  C26. The task being run is out of reach of its clients: while it runs, its removal by name removes only one-shot tasks of the same name, its
  cancellation by its id removes nothing, its name stays taken, and after either it is in the queue again, one interval after the
  tick it has at the end of its run.
\<close>

theorem running_task_out_of_reach:
  assumes "reachable e (Holding now t, w)" and "run_task e ri ts now t w = (t', w')"
    and "checkInterval t \<noteq> 0" and "task_name t \<in> taskNameSet w'"
    and "\<forall>x \<in> set (checkerQueue w'). task_name x = task_name t \<longrightarrow> isOneshotTask x"
  defines "r \<equiv> RemoveInnerTask (task_name t) w'" and "v \<equiv> RemoveXCollieTask (task_id t) w'"
  shows "(fst r \<longrightarrow> (\<exists>x \<in> set (checkerQueue w'). task_name x = task_name t)) \<and>
    mset (checkerQueue v) = mset (checkerQueue w') \<and>
    (\<forall>u \<in> {snd r, v}. reachable e (Test, ReInsertTaskIfNeed e ts' t' u) \<and>
      (\<exists>x \<in> set (checkerQueue (ReInsertTaskIfNeed e ts' t' u)).
        task_id x = task_id t \<and> task_name x = task_name t \<and> nextTickTime x = nextTickTime t' + checkInterval t))"
proof -
  have id: "task_id t' = task_id t" "task_name t' = task_name t" "checkInterval t' = checkInterval t"
    using run_task_keeps(1) [OF assms(2)] by (simp_all add: ident_def)
  have r: "(fst r \<longrightarrow> (\<exists>x \<in> set (checkerQueue w'). task_name x = task_name t)) \<and> taskNameSet (snd r) = taskNameSet w'"
  proof (cases "task_name t = [] \<or> checkerQueue w' = []")
    case True
    then show ?thesis by (simp add: r_def RemoveInner_nop)
  next
    case False
    then show ?thesis using RemoveInner_spec [of "task_name t" w'] assms(5) by (auto simp: r_def)
  qed
  have f: "reachable e (Finished t', w')" using assms(1,2) by (auto intro: reachable.step loop_step.run)
  from reachable_inv [OF this] have "distinct (map task_id (t' # checkerQueue w'))" by (simp add: in_flight_def wd_inv_def)
  then have "task_id t \<notin> task_id ` set (checkerQueue w')" by (simp add: id)
  then have "task_id x \<noteq> task_id t" if "x \<in> set (checkerQueue w')" for x :: WatchdogTask
    by (rule contrapos_nn) (use imageI [OF that, of task_id] in simp)
  then have v: "mset (checkerQueue v) = mset (checkerQueue w')"
    by (simp add: v_def RemoveXCollie_mset filter_mset_eq_conv)
  have c: "reachable e (Finished t', client_exec e (Api st c) w')" for st c
    using f loop_step.client [of _ e "Api st c" w' "Finished t'"] by (auto intro: reachable.step)
  have "client_exec e (Api (ri_stamp ri) (CRemoveInner (task_name t))) w' = snd r"
    "client_exec e (Api (ri_stamp ri) (CRemoveXCollie (task_id t))) w' = v" by (simp_all add: r_def v_def)
  then have u: "reachable e (Finished t', snd r)" "reachable e (Finished t', v)" by (metis c)+
  have n: "taskNameSet (snd r) = taskNameSet w'" "taskNameSet v = taskNameSet w'" using r by (simp_all add: v_def)
  have again: "reachable e (Test, ReInsertTaskIfNeed e ts' t' u) \<and>
      (\<exists>x \<in> set (checkerQueue (ReInsertTaskIfNeed e ts' t' u)).
        task_id x = task_id t \<and> task_name x = task_name t \<and> nextTickTime x = nextTickTime t' + checkInterval t)"
    if "reachable e (Finished t', u)" "taskNameSet u = taskNameSet w'" for u
    using that(2) id assms(3,4) reachable.step [OF that(1) loop_step.reinsert, of ts']
    by (simp add: ReInsertTaskIfNeed_def)
  show ?thesis using r v again [OF u(1) n(1)] again [OF u(2) n(2)] by simp
qed

lemma demo_started:
  defines "w \<equiv> snd (Start service_env demo_stamp demo_stamp 0 (fold (client_exec service_env) [] WatchdogInner_init))"
    and "v \<equiv> snd (Start service_env demo_stamp demo_stamp 0 (fold (client_exec service_env)
      [Api demo_stamp (CPeriodical ''p'' (Some (UserTask 1)) 1000 0)] WatchdogInner_init))"
  shows "checkerQueue w = []" and "\<not> isNeedStop w"
    and "checkerQueue v = [WatchdogTask_task service_env 1 1000 (1, 1) ''p'' (Some (UserTask 1)) 0 1000 False]"
    and "taskNameSet v = {''p''}" and "\<not> isNeedStop v"
  by (simp_all add: w_def v_def Start_def InitDefaultTask_def IpcCheck_def AddKickWatchdog_def demo_defs
      JOIN_IPC_FULL_UIDS_def RENDER_SERVICE_UID_def AUDIO_SERVER_UID_def DATA_MANAGE_SERVICE_UID_def
      FOUNDATION_UID_def MEDIA_SERVICE_UID_def RunPeriodicalTask_def new_id_def InsertWatchdogTaskLocked_def
      IsExceedMaxTaskLocked_def IsTaskExistLocked_def MAX_WATCH_NUM_def Let_def task_constructors
      GetLimitedSizeName_def MAX_NAME_SIZE_def)

theorem running_task_out_of_reach_witness:
  "\<exists>w'. \<not> fst (RemoveInnerTask ''p'' w') \<and> (\<exists>t'. reachable service_env (Finished t', w'))"
proof -
  let ?s = "Start service_env demo_stamp demo_stamp 0 (fold (client_exec service_env)
      [Api demo_stamp (CPeriodical ''p'' (Some (UserTask 1)) 1000 0)] WatchdogInner_init)"
  let ?t = "WatchdogTask_task service_env 1 1000 (1, 1) ''p'' (Some (UserTask 1)) 0 1000 False"
  define v where "v = snd ?s"
  note d = demo_started(3-5) [folded v_def]
  have f: "FetchNextTask demo_probe 1000 v = (0, Some ?t, v\<lparr>currentScene := scene_of ?t, checkerQueue := []\<rparr>)"
    using d by (simp add: FetchNextTask_def fetch_top_def CheckCurrentTaskLocked_def pq_top_def pq_pop_def
        task_constructors Let_def)
  have "reachable service_env (Test, v)" using reachable.start [of service_env demo_stamp demo_stamp 0
      "[Api demo_stamp (CPeriodical ''p'' (Some (UserTask 1)) 1000 0)]"] by (simp add: v_def Start_def)
  then have "reachable service_env (Fetch, v)" using loop_step.test [of service_env v] d by (auto intro: reachable.step)
  then have "reachable service_env (after_fetch 1000 (FetchNextTask demo_probe 1000 v))"
    by (auto intro: reachable.step loop_step.fetch)
  then obtain w where h: "reachable service_env (Holding 1000 ?t, w)" and w: "checkerQueue w = []" "taskNameSet w = {''p''}"
    using d f by (auto simp: after_fetch_def Let_def)
  define t where "t = ?t"
  have sel: "countLimit t = 0" "checkInterval t = 1000" "nextTickTime t = 1000" "binderSpaceFullCount t = 0"
    "task_timeout t = 0" "task_task t = Some (UserTask 1)" "bootTimeStart t = 1" "monoTimeStart t = 1" "\<not> lowMemoryCheck t"
    by (simp_all add: t_def WatchdogTask_task_def WatchdogTask_default_def set_times_def service_env_def)
  have "note_low_memory service_env demo_in 1000 t = t" by (simp add: note_low_memory_def sel)
  moreover have "\<not> IsInSleep service_env (1, 1) t" by (simp add: IsInSleep_def sel GetNumsDiffAbs_def DEFAULT_SLEEP_TIME_def)
  ultimately have r: "run_task service_env demo_in (1, 1) 1000 t w = (t, (emit (EUserTask 1) w)\<lparr>currentScene := idle_scene\<rparr>)"
    by (simp add: run_task_def Run_def Let_def sel)
  let ?w = "(emit (EUserTask 1) w)\<lparr>currentScene := idle_scene\<rparr>"
  have t: "task_name t = ''p''" by (simp add: t_def task_constructors)
  have "\<not> fst (RemoveInnerTask ''p'' ?w)"
    using running_task_out_of_reach [OF h [folded t_def] r] w t sel by simp
  moreover have "reachable service_env (Finished t, ?w)"
    using h [folded t_def] r by (auto intro: reachable.step loop_step.run)
  ultimately show ?thesis by blast
qed

lemma Create_out: "\<exists>xs. out (CreateWatchdogThreadIfNeed e w) = out w @ xs"
  by (simp add: CreateWatchdogThreadIfNeed_def emit_def Let_def)

lemma Insert_notifies:
  assumes "\<not> insert_refused nm t w" and "nextTickTime t < nextWeakUpTime w"
  shows "\<exists>xs. out (snd (InsertWatchdogTaskLocked e nm t w)) = out w @ xs @ [ENotifyAll]"
proof -
  let ?v = "w\<lparr>checkerQueue := pq_push t (checkerQueue w)\<rparr>"
  let ?u = "if isOneshotTask t then ?v else ?v\<lparr>taskNameSet := insert nm (taskNameSet w)\<rparr>"
  obtain xs where "out (CreateWatchdogThreadIfNeed e ?u) = out ?u @ xs" using Create_out by blast
  then show ?thesis
    using assms by (auto simp: InsertWatchdogTaskLocked_def insert_refused_def IsTaskExistLocked_def
        IsExceedMaxTaskLocked_def Let_def)
qed

text \<open>
  C27. A timer set earlier than the next wake-up wakes a thread that is waiting, and the fetch that follows waits no longer than until the
  timer is due, or hands out a task that is due no later. When the timer is set between the fetch and the wait, its
  notification is lost and the thread waits the full time it had computed before, past the tick of the timer.
\<close>

theorem early_timer_and_wakeup:
  assumes "RunXCollieTask e st nm timeout fn arg flag w = (r, w')" and "0 < r" and "pq_inv (checkerQueue w)"
    and "due = st_now st + ucast (ucast timeout :: u32)" and "due < nextWeakUpTime w"
    and "GetLimitedSizeName nm \<notin> {STACK_CHECKER, APP_START_SAMPLE, TRACE_CHECKER, FREEZE_SAMPLE}"
  shows "loop_step e (Waiting left, w) (Test, w') \<and>
    (\<not> isNeedStop w' \<longrightarrow> (\<forall>pr now. case FetchNextTask pr now w' of
       (left', None, _) \<Rightarrow> now < due \<and> left' \<le> due - now
     | (_, Some x, _) \<Rightarrow> nextTickTime x \<le> due)) \<and>
    loop_step e (Deciding left, w) (Deciding left, w') \<and>
    (\<forall>s. loop_step e (Deciding left, w') s \<longrightarrow>
       fst s \<in> {Deciding left, if isNeedStop w' then Ended else Waiting left}) \<and>
    due < nextWeakUpTime w' \<and> (\<exists>t \<in> set (checkerQueue w'). task_id t = r \<and> nextTickTime t = due)"
proof -
  let ?t = "new_timer e st nm timeout fn arg flag w"
  note t = RunXCollie_accepted [OF assms(1,2)]
  have due: "nextTickTime ?t = due" using assms(4) by simp
  have tick: "nextTickTime ?t < nextWeakUpTime (snd (new_id w))" using assms(5) due by (simp add: new_id_def)
  have wk: "nextWeakUpTime w' = nextWeakUpTime w"
    using t(1,2) by (auto simp: InsertWatchdogTaskLocked_def insert_refused_def new_id_def IsTaskExistLocked_def
        IsExceedMaxTaskLocked_def Let_def split: if_splits)
  obtain xs where o: "out w' = out w @ xs @ [ENotifyAll]"
    using Insert_notifies [OF t(2) tick, of e] t(1) by (auto simp: new_id_def)
  have cl: "client_exec e (Api st (CXCollie nm timeout fn arg flag)) w = w'" using assms(1) by simp
  have n: "notified w w'" using o by (simp add: notified_def)
  have q: "?t \<in> set (checkerQueue w')" "pq_inv (checkerQueue w')" "task_id ?t = r" using t assms(3) by simp_all
  have nm: "task_name ?t = GetLimitedSizeName nm" "task_name ?t \<noteq> []"
    using assms(1,2) by (auto simp: new_timer_def task_constructors RunXCollieTask_def GetLimitedSizeName_def MAX_NAME_SIZE_def
        str_substr_def INVALID_ID_def split: if_splits)
  have fetch: "case FetchNextTask pr now w' of (left', None, _) \<Rightarrow> now < due \<and> left' \<le> due - now | (_, Some x, _) \<Rightarrow> nextTickTime x \<le> due"
    if ns: "\<not> isNeedStop w'" for pr now
  proof -
    obtain left' topt w2 where f: "FetchNextTask pr now w' = (left', topt, w2)" by (metis surj_pair)
    obtain lost where l: "lost = {#} \<or> lost = {#pq_top (checkerQueue w')#} \<and> fst (CheckCurrentTaskLocked pr (pq_top (checkerQueue w')) w')"
      "mset (checkerQueue w') = mset (checkerQueue w2) + mset (case topt of Some t \<Rightarrow> [t] | None \<Rightarrow> []) + lost"
      "case topt of
        Some t \<Rightarrow> left' = 0 \<and> nextTickTime t \<le> now \<and> (\<forall>x \<in> set (checkerQueue w2). nextTickTime t \<le> nextTickTime x)
      | None \<Rightarrow> if checkerQueue w2 = [] then left' = 60000
          else \<exists>x \<in> set (checkerQueue w2). now < nextTickTime x \<and> (\<forall>y \<in> set (checkerQueue w2). nextTickTime x \<le> nextTickTime y) \<and>
            left' = (if task_name x = KICK_WATCHDOG_TASK \<and> 30000 < nextTickTime x - now \<and> g_kickWatchdog w2 then 30000
                    else nextTickTime x - now)"
      by (rule fetch_exact [OF q(2) ns f])
    have "\<not> fst (CheckCurrentTaskLocked pr ?t w')" using nm assms(6) by (simp add: CheckCurrentTaskLocked_def Let_def)
    then have "?t \<notin># lost" using l(1) by auto
    moreover have "?t \<in># mset (checkerQueue w2) + mset (case topt of Some t \<Rightarrow> [t] | None \<Rightarrow> []) + lost"
      using q(1) by (simp flip: l(2))
    ultimately have k: "?t \<in> set (checkerQueue w2) \<or> topt = Some ?t" by (auto split: option.splits)
    show ?thesis
    proof (cases topt)
      case None
      then have "?t \<in> set (checkerQueue w2)" using k by simp
      then obtain x :: WatchdogTask where y: "now < nextTickTime x" "\<forall>y \<in> set (checkerQueue w2). nextTickTime x \<le> nextTickTime y"
        "left' = (if task_name x = KICK_WATCHDOG_TASK \<and> 30000 < nextTickTime x - now \<and> g_kickWatchdog w2 then 30000
                  else nextTickTime x - now)"
      proof -
        have "checkerQueue w2 \<noteq> []" using \<open>?t \<in> set (checkerQueue w2)\<close> by auto
        with l(3) None show thesis by (auto intro: that)
      qed
      have x: "nextTickTime x \<le> due" "left' \<le> nextTickTime x - now"
        using bspec [OF y(2) \<open>?t \<in> set (checkerQueue w2)\<close>] y(3) due by (auto simp: less_imp_le split: if_splits)
      note x = y(1) x
      then have "nextTickTime x - now \<le> due - now" by (auto intro: word_diff_le)
      then show ?thesis using x f None by (auto intro: order.strict_trans2 order_trans)
    next
      case (Some x)
      then show ?thesis using k l(3) f due by auto
    qed
  qed
  have woken: "loop_step e (Waiting left, w) (Test, w')" "loop_step e (Deciding left, w) (Deciding left, w')"
    using loop_step.client [OF cl [symmetric], of "Waiting left"] loop_step.client [OF cl [symmetric], of "Deciding left"] n
    by simp_all
  have lost: "fst s \<in> {Deciding left, if isNeedStop w' then Ended else Waiting left}"
    if "loop_step e (Deciding left, w') s" for s
    using that by (rule Deciding_stepE) auto
  have later: "due < nextWeakUpTime w'" "\<exists>t \<in> set (checkerQueue w'). task_id t = r \<and> nextTickTime t = due"
    using assms(5) wk q due by (simp, blast)
  show ?thesis by (intro conjI allI impI woken later) (erule fetch, erule lost)
qed

theorem early_timer_and_wakeup_witness:
  "\<exists>w. reachable service_env (Waiting 60000, w) \<and> (\<exists>t \<in> set (checkerQueue w). nextTickTime t < nextWeakUpTime w)"
proof -
  define v where "v = snd (Start service_env demo_stamp demo_stamp 0 (fold (client_exec service_env) [] WatchdogInner_init))"
  note d = demo_started(1,2) [folded v_def]
  let ?w = "v\<lparr>nextWeakUpTime := 61000\<rparr>"
  have "reachable service_env (Test, v)"
    using reachable.start [of service_env demo_stamp demo_stamp 0 "[]"] by (simp add: v_def Start_def)
  then have "reachable service_env (Fetch, v)" using loop_step.test [of service_env v] d by (auto intro: reachable.step)
  then have "reachable service_env (after_fetch 1000 (FetchNextTask demo_probe 1000 v))"
    by (auto intro: reachable.step loop_step.fetch)
  then have w: "reachable service_env (Deciding 60000, ?w)"
    using d by (simp add: after_fetch_def FetchNextTask_def DEFAULT_TIMEOUT_def)
  define w' where "w' = snd (RunXCollieTask service_env demo_stamp ''t'' 5000 None 0 0 ?w)"
  have run: "RunXCollieTask service_env demo_stamp ''t'' 5000 None 0 0 ?w = (curId ?w + 1, w')"
    using d by (simp add: w'_def RunXCollieTask_def demo_defs new_id_def InsertWatchdogTaskLocked_def
      IsExceedMaxTaskLocked_def MAX_WATCH_NUM_def Let_def task_constructors)
  have "0 < curId ?w + 1" using reachable_inv [OF w] by (simp add: wd_inv_def)
  from early_timer_and_wakeup [OF run this _ refl, of 60000] d
  have "loop_step service_env (Deciding 60000, ?w) (Deciding 60000, w')"
    and q: "\<exists>t \<in> set (checkerQueue w'). nextTickTime t < nextWeakUpTime w'"
    by (force simp: demo_stamp_def GetLimitedSizeName_def MAX_NAME_SIZE_def)+
  then have "reachable service_env (Deciding 60000, w')" using w by (auto intro: reachable.step)
  moreover have "\<not> isNeedStop w'"
    using run d by (auto simp: RunXCollieTask_def new_id_def InsertWatchdogTaskLocked_def Let_def split: if_splits)
  ultimately have "reachable service_env (Waiting 60000, w')"
    using loop_step.decide [of service_env 60000 w'] by (auto intro: reachable.step)
  with q show ?thesis by blast
qed

text \<open>
  C36. The detection of a sleep of the system: when the clocks are read at instants at most \<open>g\<close>
  apart, a repeating task is skipped after a sleep of two seconds and more than \<open>g\<close>, and is not
  skipped when the sleep was shorter than two seconds by more than \<open>g\<close>.
\<close>

theorem sleep_detection_accuracy:
  assumes run: "clock_run s0 off0" "clock_run s1 off1" and ord: "s0 5 \<le> s1 0" "off0 \<le> off1" "0 < s0 0"
    and stamp: "CalculateTimes (readings s0 off0) = (bootTimeStart t, monoTimeStart t)"
    and i: "1 \<le> i" "i \<le> 4" "s0 (i + 1) - s0 (i - 1) \<le> g"
    and j: "1 \<le> j" "j \<le> 4" "s1 (j + 1) - s1 (j - 1) \<le> g"
    and e: "\<not> IsInAppspwan e" "task_name t \<noteq> KICK_WATCHDOG_TASK"
  shows "(2000 + g + 1 \<le> off1 - off0 \<longrightarrow> IsInSleep e (CalculateTimes (readings s1 off1)) t) \<and>
    (off1 - off0 + g + 1 < 2000 \<longrightarrow> \<not> IsInSleep e (CalculateTimes (readings s1 off1)) t)"
proof -
  obtain b1 m1 where c1: "CalculateTimes (readings s1 off1) = (b1, m1)" by fastforce
  let ?b0 = "bootTimeStart t" and ?m0 = "monoTimeStart t"
  note e0 = CalculateTimes_estimate [OF run(1) stamp i(1,2)]
  note e1 = CalculateTimes_estimate [OF run(2) c1 j(1,2)]
  have le: "unat ?b0 \<le> unat b1" "unat ?m0 \<le> unat m1"
    using e0(2-5) e1(2-5) ord by linarith+
  have pos: "\<not> ?b0 \<le> 0" "\<not> ?m0 \<le> 0" using e0(2,4) ord(3) by auto
  note diff = unat_diff_diff [OF le]
  have "int (s0 (i + 1)) - int (s0 (i - 1)) \<le> int g" "int (s1 (j + 1)) - int (s1 (j - 1)) \<le> int g"
    using i(3) j(3) by linarith+
  then have "2 * \<bar>int (unat ?b0) - int (unat ?m0) - int off0\<bar> \<le> int g + 1"
    "2 * \<bar>int (unat b1) - int (unat m1) - int off1\<bar> \<le> int g + 1"
    using e0(1) e1(1) by simp_all
  from abs_close [OF this] have "\<bar>(int (unat b1) - int (unat ?b0)) - (int (unat m1) - int (unat ?m0)) - (int off1 - int off0)\<bar> \<le> int g + 1"
    by (simp add: algebra_simps)
  then show ?thesis
    using diff pos e ord(2) by (auto simp: IsInSleep_def c1 DEFAULT_SLEEP_TIME_def word_le_nat_alt)
qed

theorem sleep_detection_accuracy_witness:
  "IsInSleep service_env (CalculateTimes (readings (\<lambda>i. 10000 + i) 5005))
     (WatchdogTask_default\<lparr>bootTimeStart := fst (CalculateTimes (readings (\<lambda>i. 1000 + i) 5)),
        monoTimeStart := snd (CalculateTimes (readings (\<lambda>i. 1000 + i) 5))\<rparr>)"
proof -
  have "clock_run (\<lambda>i. 1000 + i) 5" "clock_run (\<lambda>i. 10000 + i) 5005" by (simp_all add: clock_run_def)
  from sleep_detection_accuracy [OF this, where g = 2 and i = 1 and j = 1 and e = service_env and
      t = "WatchdogTask_default\<lparr>bootTimeStart := fst (CalculateTimes (readings (\<lambda>i. 1000 + i) 5)),
        monoTimeStart := snd (CalculateTimes (readings (\<lambda>i. 1000 + i) 5))\<rparr>"]
  show ?thesis by (simp add: service_env_def IsInAppspwan_def WatchdogTask_default_def)
qed

end
