(* ===== verification/Watchdog_Stop.thy ===== *)
theory Watchdog_Stop
  imports Watchdog_Loop
begin

text \<open>
  The end of the watchdog thread (\<^verbatim>\<open>WatchdogInner::Stop\<close> against the loop of \<^verbatim>\<open>WatchdogInner::Start\<close>): from a request to stop,
  wherever the thread is and whatever the clients go on doing, it ends after a few steps of its own, so that the
  \<^verbatim>\<open>join\<close> of \<^verbatim>\<open>Stop\<close> returns.
\<close>

section \<open>The flag stays set\<close>

lemma queue_change_stop: "queue_change w w' \<Longrightarrow> isNeedStop w' = isNeedStop w"
  by (cases rule: queue_change.cases) auto

lemma core_stop: "core w' = core w \<Longrightarrow> isNeedStop w' = isNeedStop w"
  by (simp add: core_def)

lemma CheckSample_stop [simp]: "isNeedStop (snd (CheckSample e st pr endT d w)) = isNeedStop w"
proof -
  note c = queue_change_stop [OF queue_change_EnableAppStart] queue_change_stop [OF queue_change_Scroll]
  show ?thesis
    using c(1) [of e st pr True d w]
    by (cases "EnableAppStartSample e st pr True d w") (auto simp: CheckSample_def c split: bool.split)
qed

lemma client_stop: "isNeedStop w \<Longrightarrow> isNeedStop (client_exec e c w)"
proof (cases c)
  case (LoopEnd st pr ns startT endT)
  assume "isNeedStop w"
  let ?w = "upd_sampling (\<lambda>s. s\<lparr>timeContent := (timeContent s)\<lparr>curEnd := ns\<rparr>\<rparr>) w"
  have "isNeedStop ?w" using \<open>isNeedStop w\<close> by (simp add: core_stop [OF core_upd(1)])
  then show ?thesis
    using LoopEnd \<open>isNeedStop w\<close> CheckSample_stop [of e st pr endT "to_ms (endT - startT)" ?w]
    by (cases "CheckSample e st pr endT (to_ms (endT - startT)) ?w")
      (auto simp: DistributeEnd_def Let_def queue_change_stop [OF queue_change_ProfileMain]
        queue_change_stop [OF queue_change_Trace] split: bool.split)
qed (auto simp: queue_change_stop [OF queue_change_api] queue_change_stop [OF queue_change_StartSample] core_stop [OF core_StopSample]
      core_stop [OF core_upd(1)] DistributeStart_def Stop_request_def Let_def)

lemma Run_stop: "isNeedStop (snd (Run e ri now t w)) = isNeedStop w"
proof -
  have "isNeedStop (run_closure e pr f w) = isNeedStop w" for pr f
    using queue_state_run_closure [of e pr f w] by (simp add: queue_state_def)
  then show ?thesis
    by (auto simp: Run_def Let_def frame queue_change_stop [OF Handler_change] queue_change_stop [OF Binder_change]
        split: option.split intro!: core_stop)
qed

lemma run_task_stop: "run_task e ri ts now t w = (t', w') \<Longrightarrow> isNeedStop w' = isNeedStop w"
  using Run_stop [of e ri now t w] by (auto simp: run_task_def split: if_splits prod.splits)

section \<open>Steps of the thread\<close>

text \<open>
  The steps of the thread, as against those of the clients, and sequences of both with the number of the thread's own.
\<close>

inductive thread_step :: "env \<Rightarrow> place \<times> WatchdogInner \<Rightarrow> place \<times> WatchdogInner \<Rightarrow> bool" for e where
  test: "thread_step e (Test, w) (if isNeedStop w then Ended else Fetch, w)"
| fetch: "thread_step e (Fetch, w) (after_fetch now (FetchNextTask pr now w))"
| run: "run_task e ri ts now t w = (t', w') \<Longrightarrow> thread_step e (Holding now t, w) (Finished t', w')"
| reinsert: "thread_step e (Finished t, w) (Test, ReInsertTaskIfNeed e ts t w)"
| decide: "thread_step e (Deciding left, w) (if isNeedStop w then Ended else Waiting left, w)"
| timeout: "thread_step e (Waiting left, w) (Test, w)"

definition client_step :: "env \<Rightarrow> client \<Rightarrow> place \<times> WatchdogInner \<Rightarrow> place \<times> WatchdogInner" where
  "client_step e c s = (case s of (p, w) \<Rightarrow>
     (case p of Waiting left \<Rightarrow> if notified w (client_exec e c w) then Test else p | _ \<Rightarrow> p, client_exec e c w))"

lemma loop_step_iff: "loop_step e s s' \<longleftrightarrow> thread_step e s s' \<or> (\<exists>c. s' = client_step e c s)"
proof (cases s)
  case (Pair p w)
  show ?thesis unfolding Pair
  proof
    assume "loop_step e (p, w) s'"
    then show "thread_step e (p, w) s' \<or> (\<exists>c. s' = client_step e c (p, w))"
    proof cases
      case (client w' c)
      then show ?thesis by (auto simp: client_step_def)
    qed (simp_all only: thread_step.intros simp_thms)
  next
    have "thread_step e (p, w) s' \<Longrightarrow> loop_step e (p, w) s'" by (cases rule: thread_step.cases) (auto intro: loop_step.intros)
    moreover have "loop_step e (p, w) (client_step e c (p, w))" for c
      using loop_step.client [OF refl, of e p w c] by (simp add: client_step_def)
    ultimately show "thread_step e (p, w) s' \<or> (\<exists>c. s' = client_step e c (p, w)) \<Longrightarrow> loop_step e (p, w) s'" by auto
  qed
qed

inductive steps :: "env \<Rightarrow> place \<times> WatchdogInner \<Rightarrow> nat \<Rightarrow> place \<times> WatchdogInner \<Rightarrow> bool" for e s where
  none: "steps e s 0 s"
| client: "steps e s n s' \<Longrightarrow> steps e s n (client_step e c s')"
| thread: "steps e s n s' \<Longrightarrow> thread_step e s' s'' \<Longrightarrow> steps e s (Suc n) s''"

section \<open>The thread ends\<close>

text \<open>How many steps the thread still takes once the flag is set.\<close>

fun steps_left :: "place \<Rightarrow> nat" where
  "steps_left Ended = 0"
| "steps_left Test = 1"
| "steps_left (Deciding left) = 1"
| "steps_left Fetch = 2"
| "steps_left (Waiting left) = 2"
| "steps_left (Finished t) = 2"
| "steps_left (Holding now t) = 3"

text \<open>The thread holds the task it held before, or none; \<open>i\<close> is the id of that task.\<close>

definition holds_only :: "int list \<Rightarrow> place \<Rightarrow> bool" where
  "holds_only is p \<longleftrightarrow> map task_id (in_flight p) \<in> {[], is}"

lemma thread_step_stops:
  assumes "thread_step e s s'" and "isNeedStop (snd s)"
  shows "isNeedStop (snd s') \<and> steps_left (fst s') < steps_left (fst s) \<and>
    (holds_only is (fst s) \<longrightarrow> holds_only is (fst s'))"
  using assms
proof cases
  case (run ri ts now t w t' w')
  then show ?thesis using assms(2) run_task_stop [OF run(3)] run_task_keeps(1) [OF run(3)]
    by (simp add: holds_only_def in_flight_def ident_def)
qed (auto simp: after_fetch_def FetchNextTask_def ReInsertTaskIfNeed_def holds_only_def in_flight_def Let_def)

lemma client_step_stops:
  assumes "isNeedStop (snd s)"
  shows "isNeedStop (snd (client_step e c s)) \<and> steps_left (fst (client_step e c s)) \<le> steps_left (fst s) \<and>
    (holds_only is (fst s) \<longrightarrow> holds_only is (fst (client_step e c s)))"
  using assms client_stop [of "snd s" e c]
  by (cases s) (auto simp: client_step_def holds_only_def in_flight_def split: place.splits)

lemma thread_goes_on: "p \<noteq> Ended \<Longrightarrow> \<exists>s'. thread_step e (p, w) s'"
proof (cases p)
  case (Holding now t)
  then show ?thesis by (metis thread_step.run surj_pair)
next
  case Fetch
  then show ?thesis by (metis thread_step.fetch)
qed (auto intro: thread_step.intros)

text \<open>
  C14. A request to stop ends the thread: from any state in which the flag is set, along every sequence of steps, those of
  clients in any number between, the thread takes at most three steps of its own, it can go on until it has ended,
  and it runs no task but the one it had already taken.
\<close>

theorem stop_ends_loop:
  assumes "steps e s n s'" and "isNeedStop (snd s)"
  shows "isNeedStop (snd s') \<and> n \<le> 3 \<and> n + steps_left (fst s') \<le> steps_left (fst s) \<and>
    (fst s' \<noteq> Ended \<longrightarrow> (\<exists>s''. thread_step e s' s'')) \<and>
    map task_id (in_flight (fst s')) \<in> {[], map task_id (in_flight (fst s))}"
proof -
  let ?is = "map task_id (in_flight (fst s))"
  have "isNeedStop (snd s') \<and> n + steps_left (fst s') \<le> steps_left (fst s) \<and> holds_only ?is (fst s')"
    using assms(1)
  proof (induction rule: steps.induct)
    case (client n s' c)
    then show ?case using client_step_stops [of s' e c ?is] by auto
  next
    case (thread n s' s'')
    then show ?case using thread_step_stops [OF thread(2), of ?is] by auto
  qed (use assms(2) in \<open>simp add: holds_only_def\<close>)
  moreover have "steps_left (fst s) \<le> 3" by (cases "fst s") auto
  ultimately show ?thesis
    using thread_goes_on [of "fst s'" e "snd s'"] by (auto simp: holds_only_def)
qed

theorem stop_ends_loop_witness:
  "\<exists>w. steps service_env (Waiting 60000, Stop_request WatchdogInner_init) 2 (Ended, w) \<and> isNeedStop w"
proof -
  let ?w = "Stop_request WatchdogInner_init"
  have n: "isNeedStop ?w" by (simp add: Stop_request_def Let_def)
  have "steps service_env (Waiting 60000, ?w) 1 (Test, ?w)"
    using steps.thread [OF steps.none thread_step.timeout] by simp
  then have "steps service_env (Waiting 60000, ?w) 2 (Ended, ?w)"
    using steps.thread [OF _ thread_step.test [of service_env ?w]] n by (fastforce simp: numeral_2_eq_2)
  then show ?thesis using stop_ends_loop [of service_env "(Waiting 60000, ?w)" 2 "(Ended, ?w)"] n by auto
qed

end
