(* ===== verification/Timer_Life.thy ===== *)
theory Timer_Life
  imports Watchdog_Stop "HOL-Library.Sublist"
begin

text \<open>
  A timer among everything else: the thread of the watchdog serves other tasks, which may insert and remove tasks, and other
  clients do the same. What is followed is one timer, from the queue through its run to its end, over any sequence of
  such steps in which nobody cancels it, uses its name for a removal or a trigger, or stops the thread.
\<close>

section \<open>What leaves a timer alone\<close>

definition is_timer :: "WatchdogTask \<Rightarrow> bool" where
  "is_timer t \<longleftrightarrow> countLimit t = 0 \<and> checkInterval t = 0 \<and> binderSpaceFullCount t = 0 \<and> task_timeout t \<noteq> 0 \<and>
     \<not> lowMemoryCheck t"

text \<open>Names under which the thread itself removes tasks are not for timers.\<close>

definition free_name :: "string \<Rightarrow> bool" where
  "free_name nm \<longleftrightarrow> nm \<notin> {[], STACK_CHECKER, APP_START_SAMPLE, TRACE_CHECKER, FREEZE_SAMPLE, KICK_WATCHDOG_TASK} \<and>
     \<not> sublist ''_sample_stack'' nm"

fun harmless :: "int \<Rightarrow> string \<Rightarrow> client \<Rightarrow> bool" where
  "harmless i nm (Api st (CRemoveXCollie j)) = (j \<noteq> i)"
| "harmless i nm (Api st (CRemoveInner x)) = (x \<noteq> nm)"
| "harmless i nm (Api st (CTrigger x b msg)) = (x \<noteq> nm)"
| "harmless i nm StopRequest = False"
| "harmless i nm c = True"

inductive quiet_run :: "env \<Rightarrow> WatchdogTask \<Rightarrow> place \<times> WatchdogInner \<Rightarrow> place \<times> WatchdogInner \<Rightarrow> bool" for e t s where
  here: "quiet_run e t s s"
| client: "quiet_run e t s s' \<Longrightarrow> harmless (task_id t) (task_name t) c \<Longrightarrow> quiet_run e t s (client_step e c s')"
| thread: "quiet_run e t s s' \<Longrightarrow> thread_step e s' s'' \<Longrightarrow> quiet_run e t s s''"

text \<open>Queued, taken, run, gone.\<close>

definition timer_phase :: "WatchdogTask \<Rightarrow> place \<times> WatchdogInner \<Rightarrow> nat" where
  "timer_phase t s =
     (if t \<in> set (checkerQueue (snd s)) then 0
      else case fst s of Holding now x \<Rightarrow> if x = t then 1 else 3 | Finished x \<Rightarrow> if x = t then 2 else 3 | _ \<Rightarrow> 3)"

section \<open>The queue keeps it\<close>

definition keeps :: "WatchdogTask \<Rightarrow> WatchdogInner \<Rightarrow> WatchdogInner \<Rightarrow> bool" where
  "keeps t w w' \<longleftrightarrow> (t \<in> set (checkerQueue w) \<longrightarrow> t \<in> set (checkerQueue w'))"

lemma keeps_refl [simp]: "keeps t w w"
  by (simp add: keeps_def)

lemma keeps_trans: "keeps t w w' \<Longrightarrow> keeps t w' w'' \<Longrightarrow> keeps t w w''"
  by (simp add: keeps_def)

lemma keeps_same: "checkerQueue w' = checkerQueue w \<Longrightarrow> keeps t w w'"
  by (simp add: keeps_def)

lemma keeps_core: "core w' = core w \<Longrightarrow> keeps t w w'"
  by (rule keeps_same) (simp add: core_def)

lemma keeps_insert: "checkerQueue w0 = checkerQueue w \<Longrightarrow> keeps t w (snd (InsertWatchdogTaskLocked e nm x w0))"
  by (cases "insert_refused nm x w0") (simp_all add: Insert_refused Insert_accepted(2) keeps_def)

lemma keeps_insert_task: "core w0 = core w \<Longrightarrow> keeps t w (snd (insert_task e st nm tsk i w0))"
  by (auto simp: insert_task_def core_def Let_def split_beta intro!: keeps_insert)

lemma keeps_Periodical: "keeps t w (RunPeriodicalTask e st nm tsk i d w)"
  by (auto simp: RunPeriodicalTask_def Let_def split_beta intro!: keeps_insert)

lemma keeps_RemoveInner: "task_name t \<noteq> nm \<Longrightarrow> keeps t w (snd (RemoveInnerTask nm w))"
proof (cases "nm = [] \<or> checkerQueue w = []")
  case False
  assume n: "task_name t \<noteq> nm"
  have "set_mset (mset (checkerQueue (snd (RemoveInnerTask nm w)))) = {x \<in> set (checkerQueue w). task_name x \<noteq> nm}"
    using RemoveInner_spec(1) [of nm w] False by simp
  then show ?thesis using n by (auto simp: keeps_def)
qed (simp add: RemoveInner_nop)

lemma keeps_RemoveXCollie: "task_id t \<noteq> i \<Longrightarrow> keeps t w (RemoveXCollieTask i w)"
  using arg_cong [OF RemoveXCollie_mset, of set_mset i w] by (auto simp: keeps_def)

lemma keeps_Trigger: "task_name t \<noteq> nm \<Longrightarrow> keeps t w (TriggerTimerCountTask now nm b msg w)"
  using arg_cong [OF Trigger_mset, of set_mset now nm b msg w]
  by (auto simp: keeps_def trigger_one_def intro!: rev_image_eqI)

lemma keeps_api: "harmless (task_id t) (task_name t) (Api st a) \<Longrightarrow> keeps t w (api_exec e st a w)"
  by (cases a) (auto simp: AddThread_def RunOneShotTask_def RunXCollieTask_def SetTimerCountTask_def AddIpcFull_def IpcCheck_def
      AsyncBinderSpaceFull_def Let_def split_beta keeps_Periodical keeps_RemoveInner keeps_RemoveXCollie keeps_Trigger intro!: keeps_insert)

lemma keeps_AppStart: "keeps t w (snd (AppStartSample e st scroll w))"
  by (auto simp: AppStartSample_def upd_sampling_def Let_def split_beta intro!: keeps_insert)

lemma keeps_upd: "keeps t w v \<Longrightarrow> keeps t w (upd_sampling f v)"
  by (simp add: keeps_def upd_sampling_def)

lemma keeps_EnableAppStart: "keeps t w (snd (EnableAppStartSample e st pr scroll d w))"
  by (simp add: EnableAppStartSample_def Let_def keeps_AppStart keeps_upd)

lemma keeps_Scroll: "keeps t w (snd (StartScrollProfile e st pr endT i w))"
  by (auto simp: StartScrollProfile_def Let_def frame split: prod.split bool.split intro: keeps_core keeps_insert_task)

lemma keeps_ProfileMain: "keeps t w (StartProfileMainThread e st pr endT i w)"
  by (auto simp: StartProfileMainThread_def Let_def frame split: prod.split bool.split intro: keeps_core keeps_insert_task)

lemma keeps_Trace: "keeps t w (CollectTraceDetect e st pr endT w)"
  by (auto simp: CollectTraceDetect_def StartTraceProfile_def Let_def frame split_beta intro: keeps_core keeps_insert_task)

lemma keeps_StartSample: "keeps t w (snd (StartSample e st date d i w))"
  by (auto simp: StartSample_def Let_def frame split_beta split: sum.split intro!: keeps_upd keeps_insert_task)

lemma keeps_CheckSample: "keeps t w (snd (CheckSample e st pr endT d w))"
proof -
  let ?r = "EnableAppStartSample e st pr True d w"
  show ?thesis
    using keeps_EnableAppStart [of t w e st pr True d] keeps_EnableAppStart [of t w e st pr False d]
      keeps_trans [OF keeps_EnableAppStart [of t w e st pr True d] keeps_Scroll]
    by (cases ?r) (auto simp: CheckSample_def split: bool.split)
qed

lemma keeps_DistributeEnd: "keeps t w (DistributeEnd e st pr ns startT endT w)"
proof -
  let ?w1 = "upd_sampling (\<lambda>s. s\<lparr>timeContent := (timeContent s)\<lparr>curEnd := ns\<rparr>\<rparr>) w"
  let ?r = "CheckSample e st pr endT (to_ms (endT - startT)) ?w1"
  have k: "keeps t w (snd ?r)" by (rule keeps_trans [OF keeps_upd [OF keeps_refl] keeps_CheckSample])
  show ?thesis
    using k keeps_trans [OF k keeps_ProfileMain] keeps_trans [OF k keeps_Trace]
    by (cases ?r) (auto simp: DistributeEnd_def Let_def split: bool.split)
qed

lemma keeps_client: "harmless (task_id t) (task_name t) c \<Longrightarrow> keeps t w (client_exec e c w)"
proof (cases c)
  case (Api st a)
  then show "harmless (task_id t) (task_name t) c \<Longrightarrow> ?thesis" by (simp add: keeps_api)
qed (auto simp: keeps_DistributeEnd keeps_StartSample DistributeStart_def frame intro: keeps_core)

text \<open>A run of another task.\<close>

lemma sample_stack_name_sub: "sublist ''_sample_stack'' (sample_stack_name x)"
  by (auto simp: sample_stack_name_def sublist_def)

lemma keeps_SendEvent:
  assumes "free_name (task_name t)" and "core v = core w"
  shows "keeps t w (snd (SendEvent e ri m n f (x, v)))"
proof -
  have r: "keeps t w (snd (RemoveInnerTask (sample_stack_name y) (v\<lparr>stacks := es\<rparr>)))" for y es
  proof -
    have "task_name t \<noteq> sample_stack_name y" using assms(1) sample_stack_name_sub [of y] by (auto simp: free_name_def)
    then show ?thesis by (rule keeps_trans [OF keeps_core keeps_RemoveInner, rotated]) (simp add: frame assms(2))
  qed
  have s: "keeps t w (InsertSampleStackTask e ri y v)" for y
    unfolding InsertSampleStackTask_def InsertSampleStackTaskImpl_def Let_def
    by (rule keeps_trans [OF keeps_core keeps_Periodical]) (use assms(2) in \<open>simp add: core_def\<close>)
  have h: "keeps t w (SendHisyseventEvent e ri a b c y u)" if "keeps t w u" for a b c y u
    by (rule keeps_trans [OF that keeps_core]) (simp add: frame)
  show ?thesis using assms(2)
    by (auto simp: SendEvent_def Let_def split_beta intro: r s h keeps_core)
qed

lemma keeps_after: "keeps t w v \<Longrightarrow> core v' = core v \<Longrightarrow> keeps t w v'"
  by (rule keeps_trans [OF _ keeps_core])

lemma keeps_Half: "free_name (task_name t) \<Longrightarrow> core v = core w \<Longrightarrow> keeps t w (snd (HandleWaitedHalfState e ri d (x, v)))"
  by (auto simp: HandleWaitedHalfState_def Let_def intro: keeps_SendEvent keeps_core)

lemma keeps_Full_event: "free_name (task_name t) \<Longrightarrow> core v = core w \<Longrightarrow> keeps t w (snd (full_state_event e ri d (x, v)))"
  by (auto simp: full_state_event_def intro: keeps_SendEvent keeps_core split: prod.split bool.split)

lemma keeps_Full: "free_name (task_name t) \<Longrightarrow> core v = core w \<Longrightarrow> keeps t w (snd (HandleWaitedFullState e ri d (x, v)))"
  unfolding HandleWaitedFullState_def Let_def prod.case
  by (rule keeps_after [OF keeps_Full_event]) (simp_all add: frame)

lemma keeps_Evaluate:
  assumes "free_name (task_name t)"
  shows "keeps t w (snd (EvaluateCheckerState e ri a (x, w)))"
proof -
  obtain st c where gs: "GetCheckState (checkers w a) = (st, c)" by (cases "GetCheckState (checkers w a)")
  let ?w1 = "w\<lparr>checkers := (checkers w)(a := c)\<rparr>"
  have c: "core ?w1 = core w" "\<And>x. core (call_func x ?w1) = core w"
    "\<And>x. core (emit x ?w1) = core w" "\<And>x y. core (emit x (call_func y ?w1)) = core w" by (simp_all add: frame)
  show ?thesis
    using c assms by (cases "task_func x"; cases "timeOutCallback x")
      (auto simp: EvaluateCheckerState_def gs Let_def intro: keeps_Half keeps_Full keeps_core)
qed

lemma keeps_Handler: "free_name (task_name t) \<Longrightarrow> keeps t w (snd (RunHandlerCheckerTask e ri (x, w)))"
  by (auto simp: RunHandlerCheckerTask_def Let_def split_beta frame split: option.split intro!: keeps_after [OF keeps_Evaluate])

lemma keeps_Binder:
  assumes "free_name (task_name t)"
  shows "keeps t w (snd (AsyncBinderSpace e ri (x, w)))"
proof -
  have c: "core (call_func y w) = core w" for y by (simp add: frame)
  have k: "keeps t w (KillPeerBinderProcess e ri d v)" if "keeps t w v" for d v
    by (rule keeps_after [OF that]) (simp add: frame)
  show ?thesis using c assms
    by (auto simp: AsyncBinderSpace_def Let_def split_beta frame intro!: k keeps_SendEvent intro: keeps_core)
qed

lemma keeps_Run: "free_name (task_name t) \<Longrightarrow> keeps t w (snd (Run e ri now x w))"
proof -
  have "checkerQueue (run_closure e pr f w) = checkerQueue w" for pr f
    using queue_state_run_closure [of e pr f w] by (simp add: queue_state_def)
  then show "free_name (task_name t) \<Longrightarrow> keeps t w (snd (Run e ri now x w))"
    by (auto simp: Run_def Let_def frame split: option.split intro!: keeps_Handler keeps_Binder intro: keeps_core keeps_same)
qed

lemma keeps_run_task: "free_name (task_name t) \<Longrightarrow> run_task e ri ts now x w = (x', w') \<Longrightarrow> keeps t w w'"
  using keeps_Run [of t w e ri now x] by (auto simp: run_task_def keeps_def split: if_splits prod.splits)

lemma keeps_ReInsert: "keeps t w (ReInsertTaskIfNeed e ts x w)"
  by (simp add: ReInsertTaskIfNeed_def keeps_def)

section \<open>An id that is gone does not come back\<close>

definition absent :: "int \<Rightarrow> WatchdogInner \<Rightarrow> bool" where
  "absent i w \<longleftrightarrow> i \<le> curId w \<and> i \<notin> task_id ` set (checkerQueue w)"

lemma absent_change: "queue_change w w' \<Longrightarrow> absent i w \<Longrightarrow> absent i w'"
proof (induction rule: queue_change.induct)
  case (removal w' w)
  have "set (checkerQueue w') \<subseteq> set (checkerQueue w)" using set_mset_mono [OF removal(1)] by simp
  then show ?case using removal by (auto simp: absent_def)
next
  case (edit w' f w)
  have "set (checkerQueue w') = f ` set (checkerQueue w)" using arg_cong [OF edit(1), of set_mset] by simp
  then show ?case using edit by (force simp: absent_def same_key_def)
qed (auto simp: absent_def)

lemma absent_core: "core w' = core w \<Longrightarrow> absent i w' = absent i w"
  by (simp add: absent_def core_def)

lemma absent_CheckSample:
  assumes "absent i w"
  shows "absent i (snd (CheckSample e st pr endT d w))"
proof -
  let ?r = "EnableAppStartSample e st pr True d w"
  have "absent i (snd ?r)" by (rule absent_change [OF queue_change_EnableAppStart assms])
  then show ?thesis
    using absent_change [OF queue_change_EnableAppStart assms, of e st pr False d] absent_change [OF queue_change_Scroll, of i "snd ?r"]
    by (cases ?r) (auto simp: CheckSample_def split: bool.split)
qed

lemma absent_DistributeEnd:
  assumes "absent i w"
  shows "absent i (DistributeEnd e st pr ns startT endT w)"
proof -
  let ?w1 = "upd_sampling (\<lambda>s. s\<lparr>timeContent := (timeContent s)\<lparr>curEnd := ns\<rparr>\<rparr>) w"
  let ?r = "CheckSample e st pr endT (to_ms (endT - startT)) ?w1"
  have "absent i ?w1" using assms by (simp add: absent_core [OF core_upd(1)])
  then have "absent i (snd ?r)" by (rule absent_CheckSample)
  then show ?thesis
    using absent_change [OF queue_change_ProfileMain, of i "snd ?r"] absent_change [OF queue_change_Trace, of i "snd ?r"] assms
    by (cases ?r) (auto simp: DistributeEnd_def Let_def split: bool.split)
qed

lemma absent_client:
  assumes "absent i w"
  shows "absent i (client_exec e c w)"
proof (cases c)
  case (LoopEnd st pr ns startT endT)
  then show ?thesis by (simp add: absent_DistributeEnd [OF assms])
next
  case StopRequest
  then show ?thesis using assms by (simp add: Stop_request_def absent_def Let_def)
qed (auto intro!: absent_change [OF _ assms] queue_change_api queue_change_StartSample queue_change_same
    simp: frame DistributeStart_def)

lemma absent_run_task:
  assumes "run_task e ri ts now x w = (x', w')" and "absent i w"
  shows "absent i w'"
proof -
  have c: "absent i (run_closure e pr f w)" for pr f
    using queue_state_run_closure [of e pr f w] assms(2) by (simp add: queue_state_def absent_def)
  have d: "absent i (DoCallback e ri y w)" "absent i (snd (TimerCountTask e (y, w)))" for y
    using absent_core [OF core_DoCallback, of i e ri y w] absent_core [OF Timer_core, of i e "(y, w)"] assms(2) by simp_all
  have h: "absent i (snd (RunHandlerCheckerTask e ri (y, w)))" "absent i (snd (AsyncBinderSpace e ri (y, w)))" for y
    by (rule absent_change [OF Handler_change assms(2)], rule absent_change [OF Binder_change assms(2)])
  have "absent i (snd (Run e ri now x w))"
    using assms(2) c d h by (simp add: Run_def Let_def split: option.split)
  then show ?thesis using assms by (auto simp: run_task_def absent_def split: if_splits prod.splits)
qed

lemma no_stop_client:
  assumes "harmless i nm c"
  shows "isNeedStop (client_exec e c w) = isNeedStop w"
proof (cases c)
  case (LoopEnd st pr ns startT endT)
  let ?w = "upd_sampling (\<lambda>s. s\<lparr>timeContent := (timeContent s)\<lparr>curEnd := ns\<rparr>\<rparr>) w"
  have "isNeedStop ?w = isNeedStop w" by (simp add: core_stop [OF core_upd(1)])
  then show ?thesis
    using LoopEnd CheckSample_stop [of e st pr endT "to_ms (endT - startT)" ?w]
    by (cases "CheckSample e st pr endT (to_ms (endT - startT)) ?w")
      (auto simp: DistributeEnd_def Let_def queue_change_stop [OF queue_change_ProfileMain]
        queue_change_stop [OF queue_change_Trace] split: bool.split)
qed (use assms in \<open>auto simp: queue_change_stop [OF queue_change_api] queue_change_stop [OF queue_change_StartSample]
      core_stop [OF core_StopSample] core_stop [OF core_upd(1)] DistributeStart_def\<close>)

section \<open>The run of a timer\<close>

lemma timer_run:
  assumes "is_timer t" and "task_func t = Some f" and "run_task e ri ts now t w = (t', w')"
  shows "t' = t \<and> checkerQueue w' = checkerQueue w \<and> ReInsertTaskIfNeed e ts' t' v = v \<and>
    (if SUSPEND_CHECK_ENABLE e \<and> IsInSleep e ts t then w' = w
     else \<exists>rest. out w' = out w @ ECallback f (task_arg t) # rest \<and> (\<forall>g x. ECallback g x \<notin> set rest))"
proof -
  have r: "Run e ri now t w = (t, DoCallback e ri t w)"
    using assms(1) by (simp add: is_timer_def Run_def note_low_memory_def Let_def)
  have q: "checkerQueue (DoCallback e ri t w) = checkerQueue w"
    using core_DoCallback [of e ri t w] by (simp add: core_def)
  show ?thesis
    using assms(1,3) r q DoCallback_out [OF assms(2), of e ri w]
    by (auto simp: run_task_def ReInsertTaskIfNeed_def is_timer_def split: if_splits)
qed

section \<open>The phases\<close>

definition life_ok :: "WatchdogTask \<Rightarrow> place \<times> WatchdogInner \<Rightarrow> bool" where
  "life_ok t s \<longleftrightarrow> wd_inv (in_flight (fst s)) (snd s) \<and> \<not> isNeedStop (snd s) \<and> task_id t \<le> curId (snd s) \<and>
     (t \<in> set (checkerQueue (snd s)) \<or> (\<exists>now. nextTickTime t \<le> now \<and> fst s = Holding now t) \<or> fst s = Finished t \<or>
      absent (task_id t) (snd s) \<and> task_id t \<notin> task_id ` set (in_flight (fst s)))"

lemma client_step_flight: "in_flight (fst (client_step e c s)) = in_flight (fst s) \<and> snd (client_step e c s) = client_exec e c (snd s)"
  by (auto simp: client_step_def in_flight_def split: prod.split place.split)

lemma client_step_place: "fst (client_step e c s) = fst s \<or> in_flight (fst s) = [] \<and> fst (client_step e c s) = Test"
  by (auto simp: client_step_def in_flight_def split: prod.split place.split)

lemma life_client:
  assumes "life_ok t s" and "harmless (task_id t) (task_name t) c"
  shows "life_ok t (client_step e c s) \<and> timer_phase t s = timer_phase t (client_step e c s)"
proof -
  note f = client_step_flight [of e c s]
  have i: "wd_inv (in_flight (fst s)) (client_exec e c (snd s))" using assms(1) by (simp add: life_ok_def client_inv)
  have ns: "\<not> isNeedStop (client_exec e c (snd s))" using assms(1) no_stop_client [OF assms(2)] by (simp add: life_ok_def)
  show ?thesis
  proof (cases "t \<in> set (checkerQueue (snd s))")
    case True
    then have q: "t \<in> set (checkerQueue (client_exec e c (snd s)))"
      using keeps_client [OF assms(2), of "snd s" e] by (simp add: keeps_def)
    then have "task_id t \<le> curId (client_exec e c (snd s))" using i by (auto simp: wd_inv_def)
    with q i ns True f show ?thesis by (simp add: life_ok_def timer_phase_def)
  next
    case False
    have a: "absent (task_id t) (snd s)"
      using assms(1) False by (auto simp: life_ok_def absent_def wd_inv_def in_flight_def)
    from absent_client [OF this] have a': "absent (task_id t) (client_exec e c (snd s))" .
    then have "t \<notin> set (checkerQueue (client_exec e c (snd s)))" by (auto simp: absent_def)
    with False f client_step_place [of e c s] have p: "timer_phase t s = timer_phase t (client_step e c s)"
      by (auto simp: timer_phase_def in_flight_def split: place.splits)
    have "(\<exists>now. nextTickTime t \<le> now \<and> fst s = Holding now t) \<or> fst s = Finished t \<or> task_id t \<notin> task_id ` set (in_flight (fst s))"
      using assms(1) False by (auto simp: life_ok_def)
    then have "(\<exists>now. nextTickTime t \<le> now \<and> fst (client_step e c s) = Holding now t) \<or> fst (client_step e c s) = Finished t \<or>
        task_id t \<notin> task_id ` set (in_flight (fst (client_step e c s)))"
      using client_step_place [of e c s] f by (auto simp: in_flight_def)
    with a' i ns p f show ?thesis by (auto simp: life_ok_def absent_def)
  qed
qed

lemma life_queued:
  "t \<in> set (checkerQueue w) \<Longrightarrow> wd_inv (in_flight p) w \<Longrightarrow> \<not> isNeedStop w \<Longrightarrow> life_ok t (p, w) \<and> timer_phase t (p, w) = 0"
  by (auto simp: life_ok_def timer_phase_def wd_inv_def)

lemma life_gone:
  "absent (task_id t) w \<Longrightarrow> task_id t \<notin> task_id ` set (in_flight p) \<Longrightarrow> wd_inv (in_flight p) w \<Longrightarrow> \<not> isNeedStop w \<Longrightarrow>
   life_ok t (p, w) \<and> timer_phase t (p, w) = 3"
  by (auto simp: life_ok_def timer_phase_def absent_def in_flight_def split: place.split)

text \<open>A fetch keeps a timer it does not hand out, and hands out nothing later than it once it is due.\<close>

lemma fetch_timer:
  assumes "wd_inv [] w" and "\<not> isNeedStop w" and "free_name (task_name t)" and "FetchNextTask pr now w = (left, topt, w')"
  shows "t \<in> set (checkerQueue w) \<Longrightarrow> t \<in> set (checkerQueue w') \<or> topt = Some t \<and> nextTickTime t \<le> now"
    and "t \<in> set (checkerQueue w) \<Longrightarrow> nextTickTime t \<le> now \<Longrightarrow> \<exists>x. left = 0 \<and> topt = Some x \<and> nextTickTime x \<le> nextTickTime t"
    and "absent i w \<Longrightarrow> absent i w' \<and> (\<forall>x. topt = Some x \<longrightarrow> task_id x \<noteq> i)"
proof -
  have q: "pq_inv (checkerQueue w)" using assms(1) by (simp add: wd_inv_def)
  obtain lost where l: "lost = {#} \<or> lost = {#pq_top (checkerQueue w)#} \<and> fst (CheckCurrentTaskLocked pr (pq_top (checkerQueue w)) w)"
    and m: "mset (checkerQueue w) = mset (checkerQueue w') + mset (case topt of Some t \<Rightarrow> [t] | None \<Rightarrow> []) + lost"
    and c: "case topt of
        Some t \<Rightarrow> left = 0 \<and> nextTickTime t \<le> now \<and> (\<forall>x \<in> set (checkerQueue w'). nextTickTime t \<le> nextTickTime x)
      | None \<Rightarrow> if checkerQueue w' = [] then left = 60000
          else \<exists>x \<in> set (checkerQueue w'). now < nextTickTime x \<and> (\<forall>y \<in> set (checkerQueue w'). nextTickTime x \<le> nextTickTime y) \<and>
            left = (if task_name x = KICK_WATCHDOG_TASK \<and> 30000 < nextTickTime x - now \<and> g_kickWatchdog w' then 30000
                    else nextTickTime x - now)"
    by (rule fetch_exact [OF q assms(2,4)])
  have "\<not> fst (CheckCurrentTaskLocked pr t w)" using assms(3) by (simp add: free_name_def CheckCurrentTaskLocked_def Let_def)
  then have n: "t \<notin># lost" using l by auto
  have k: "t \<in> set (checkerQueue w') \<or> topt = Some t" if "t \<in> set (checkerQueue w)"
  proof -
    have "t \<in># mset (checkerQueue w') + mset (case topt of Some t \<Rightarrow> [t] | None \<Rightarrow> []) + lost"
      using that by (simp flip: m)
    with n show ?thesis by (auto split: option.splits)
  qed
  show "t \<in> set (checkerQueue w) \<Longrightarrow> t \<in> set (checkerQueue w') \<or> topt = Some t \<and> nextTickTime t \<le> now"
    using k c by auto
  show "t \<in> set (checkerQueue w) \<Longrightarrow> nextTickTime t \<le> now \<Longrightarrow> \<exists>x. left = 0 \<and> topt = Some x \<and> nextTickTime x \<le> nextTickTime t"
    using k c by (cases topt) (auto split: if_splits dest!: bspec)
  have "set_mset (mset (checkerQueue w)) = set_mset (mset (checkerQueue w') + mset (case topt of Some t \<Rightarrow> [t] | None \<Rightarrow> []) + lost)"
    using m by simp
  then have s: "set (checkerQueue w') \<subseteq> set (checkerQueue w)" "\<And>x. topt = Some x \<Longrightarrow> x \<in> set (checkerQueue w)" by auto
  have "curId w' = curId w"
    using assms(4) Check_queue [of pr "pq_top (checkerQueue w)" w]
    by (auto simp: FetchNextTask_def fetch_top_def queue_state_def pop_queue_def Let_def split_beta split: if_splits)
  then show "absent i w \<Longrightarrow> absent i w' \<and> (\<forall>x. topt = Some x \<longrightarrow> task_id x \<noteq> i)"
    using s by (auto simp: absent_def)
qed

lemma life_thread:
  assumes "thread_step e s s'" and "life_ok t s" and "is_timer t" and "free_name (task_name t)" and "task_func t = Some f"
  shows "life_ok t s'" and "timer_phase t s \<le> timer_phase t s'" and "timer_phase t s' \<le> Suc (timer_phase t s)"
proof -
  have i: "wd_inv (in_flight (fst s')) (snd s')"
    using loop_step_inv [of e s s'] assms(1,2) by (auto simp: loop_step_iff life_ok_def)
  have "life_ok t s' \<and> timer_phase t s \<le> timer_phase t s' \<and> timer_phase t s' \<le> Suc (timer_phase t s)"
    using assms(1)
  proof cases
    case (test w)
    then show ?thesis using assms(2) by (auto simp: life_ok_def timer_phase_def in_flight_def)
  next
    case (decide left w)
    then show ?thesis using assms(2) by (auto simp: life_ok_def timer_phase_def in_flight_def)
  next
    case (timeout left w)
    then show ?thesis using assms(2) by (auto simp: life_ok_def timer_phase_def in_flight_def)
  next
    case (fetch w now pr)
    obtain left topt v where f: "FetchNextTask pr now w = (left, topt, v)" by (metis surj_pair)
    have s': "s' = (case topt of Some x \<Rightarrow> Holding now x | None \<Rightarrow> Deciding left, v\<lparr>nextWeakUpTime := now + left\<rparr>)"
      using fetch f by (simp add: after_fetch_def Let_def)
    have inv: "wd_inv [] w" "\<not> isNeedStop w" using assms(2) fetch by (simp_all add: life_ok_def in_flight_def)
    note ft = fetch_timer [OF inv assms(4) f]
    have ns: "\<not> isNeedStop v"
      using f inv(2) Check_queue [of pr "pq_top (checkerQueue w)" w]
      by (auto simp: FetchNextTask_def fetch_top_def queue_state_def pop_queue_def Let_def split_beta split: if_splits)
    show ?thesis
    proof (cases "t \<in> set (checkerQueue w)")
      case True
      have z: "timer_phase t s = 0" using True fetch by (simp add: timer_phase_def)
      from ft(1) [OF True] consider "t \<in> set (checkerQueue v)" | "topt = Some t" "nextTickTime t \<le> now" by auto
      then show ?thesis
      proof cases
        case 1
        then show ?thesis using i ns z s' by (auto simp: life_ok_def wd_inv_def timer_phase_def)
      next
        case 2
        have "task_id t \<le> curId v" using i s' 2(1) by (simp add: in_flight_def wd_inv_def)
        with 2 i ns z s' show ?thesis by (auto simp: life_ok_def timer_phase_def)
      qed
    next
      case False
      then have a: "absent (task_id t) w" using assms(2) fetch by (auto simp: life_ok_def)
      then have "absent (task_id t) (snd s')" "task_id t \<notin> task_id ` set (in_flight (fst s'))"
        using ft(3) [OF a] s' by (auto simp: absent_def in_flight_def split: option.split)
      then have "life_ok t s' \<and> timer_phase t s' = 3"
        using life_gone [of t "snd s'" "fst s'"] i ns s' by simp
      moreover have "timer_phase t s = 3" using False fetch by (simp add: timer_phase_def)
      ultimately show ?thesis by simp
    qed
  next
    case (run ri ts now x w x' w')
    have ns: "\<not> isNeedStop w'" using run_task_stop [OF run(3)] assms(2) run(1) by (simp add: life_ok_def)
    note id = run_task_keeps(1) [OF run(3)]
    show ?thesis
    proof (cases "t \<in> set (checkerQueue w)")
      case True
      then have "t \<in> set (checkerQueue w')" using keeps_run_task [OF assms(4) run(3)] by (simp add: keeps_def)
      then show ?thesis using life_queued [of t w' "Finished x'"] i ns True run by (simp add: timer_phase_def)
    next
      case False
      show ?thesis
      proof (cases "x = t")
        case True
        then have x': "x' = t" "checkerQueue w' = checkerQueue w"
          using timer_run [OF assms(3,5) run(3) [unfolded True]] by simp_all
        have "task_id t \<le> curId w'" using i run(2) x'(1) by (simp add: in_flight_def wd_inv_def)
        then show ?thesis using x' i ns False run True by (simp add: life_ok_def timer_phase_def)
      next
        case other: False
        then have a: "absent (task_id t) w" "task_id x \<noteq> task_id t"
          using assms(2) False run(1) by (auto simp: life_ok_def in_flight_def)
        have "absent (task_id t) w'" by (rule absent_run_task [OF run(3) a(1)])
        then have "life_ok t s' \<and> timer_phase t s' = 3"
          using life_gone [of t w' "Finished x'"] i ns a(2) id run by (simp add: in_flight_def ident_def)
        moreover have "timer_phase t s = 3" using False other run by (simp add: timer_phase_def)
        ultimately show ?thesis by simp
      qed
    qed
  next
    case (reinsert x w ts)
    let ?w = "ReInsertTaskIfNeed e ts x w"
    have ns: "\<not> isNeedStop ?w" using assms(2) reinsert(1) by (simp add: life_ok_def ReInsertTaskIfNeed_def)
    show ?thesis
    proof (cases "t \<in> set (checkerQueue w)")
      case True
      then have "t \<in> set (checkerQueue ?w)" using keeps_ReInsert [of t w e ts x] by (simp add: keeps_def)
      then show ?thesis using life_queued [of t ?w Test] i ns True reinsert by (simp add: timer_phase_def)
    next
      case False
      have "absent (task_id t) ?w"
      proof (cases "x = t")
        case True
        then have "?w = w" using assms(3) by (simp add: is_timer_def ReInsertTaskIfNeed_def)
        then show ?thesis using assms(2) reinsert(1) True by (auto simp: life_ok_def absent_def in_flight_def wd_inv_def)
      next
        case other: False
        then have "absent (task_id t) w" "task_id x \<noteq> task_id t"
          using assms(2) False reinsert(1) by (auto simp: life_ok_def in_flight_def)
        then show ?thesis by (auto simp: absent_def ReInsertTaskIfNeed_def)
      qed
      then have "life_ok t s' \<and> timer_phase t s' = 3"
        using life_gone [of t ?w Test] i ns reinsert by (simp add: in_flight_def)
      moreover have "timer_phase t s = (if x = t then 2 else 3)" using False reinsert by (simp add: timer_phase_def)
      ultimately show ?thesis by simp
    qed
  qed
  then show "life_ok t s'" and "timer_phase t s \<le> timer_phase t s'" and "timer_phase t s' \<le> Suc (timer_phase t s)" by simp_all
qed

lemma life_run:
  assumes "quiet_run e t s s'" and "life_ok t s" and "is_timer t" and "free_name (task_name t)" and "task_func t = Some f"
  shows "life_ok t s' \<and> timer_phase t s \<le> timer_phase t s'"
  using assms
proof (induction rule: quiet_run.induct)
  case (client s' c)
  then show ?case using life_client [of t s' c e] by simp
next
  case (thread s' s'')
  then show ?case using life_thread [OF thread.hyps(2)] order_trans by blast
qed simp

text \<open>What the phases tell.\<close>

lemma life_held: "life_ok t s \<Longrightarrow> fst s = Holding now t \<Longrightarrow> nextTickTime t \<le> now"
  by (auto simp: life_ok_def in_flight_def wd_inv_def)

lemma life_end: "life_ok t s \<Longrightarrow> timer_phase t s = 3 \<Longrightarrow> task_id t \<notin> task_id ` set (in_flight (fst s) @ checkerQueue (snd s))"
  by (auto simp: life_ok_def timer_phase_def absent_def split: if_splits place.splits)

lemma life_fetch:
  assumes "life_ok t s" and "fst s = Fetch" and "timer_phase t s = 0" and "free_name (task_name t)" and "nextTickTime t \<le> now"
  shows "\<exists>x w. FetchNextTask pr now (snd s) = (0, Some x, w) \<and> nextTickTime x \<le> nextTickTime t"
proof -
  have w: "wd_inv [] (snd s)" "\<not> isNeedStop (snd s)" "t \<in> set (checkerQueue (snd s))"
    using assms(1-3) by (auto simp: life_ok_def in_flight_def timer_phase_def split: if_splits)
  obtain left topt v where f: "FetchNextTask pr now (snd s) = (left, topt, v)" by (metis surj_pair)
  show ?thesis using fetch_timer(2) [OF w(1,2) assms(4) f w(3) assms(5)] f by auto
qed

end
