(* ===== verification/Block_Report.thy ===== *)
theory Block_Report
  imports Watchdog_Task
begin

text \<open>
  From the sampling of a blocked thread to the event that reports it: the closure of \<^verbatim>\<open>InsertSampleStackTaskImpl\<close> (\<^verbatim>\<open>watchdog_inner.cpp\<close>)
  collects stacks in the store of \<^verbatim>\<open>sample_stack_map.cpp\<close>, \<^verbatim>\<open>WatchdogTask::SendEvent\<close> (\<^verbatim>\<open>watchdog_task.cpp\<close>) takes them out. The
  store is used through the laws of its locale only.
\<close>

section \<open>The text that grows\<close>

definition snapshot_text :: "probe \<Rightarrow> string" where
  "snapshot_text pr = ''SnapshotTime:'' @ pr_time pr @ [CHR 0x0A] @ the (pr_backtrace pr)"

definition extend_report :: "string \<Rightarrow> string \<Rightarrow> probe \<Rightarrow> string" where
  "extend_report h acc pr = (if acc = [] then h @ snapshot_text pr else acc @ [CHR 0x0A] @ snapshot_text pr)"

definition stack_report :: "string \<Rightarrow> probe list \<Rightarrow> string" where
  "stack_report h prs = foldl (extend_report h) [] prs"

text \<open>Every read of the store comes within two minutes of the last write, at \<open>t\<close>; the last read is at \<open>u\<close>.\<close>

fun in_time :: "u64 \<Rightarrow> probe list \<Rightarrow> u64 \<Rightarrow> bool" where
  "in_time t [] u = (u - t \<le> SAMPLE_STACK_MAP_EXPIRE_MS)"
| "in_time t (pr # prs) u = (pr_tick pr - t \<le> SAMPLE_STACK_MAP_EXPIRE_MS \<and> in_time (pr_tick3 pr) prs u)"

lemma length_extend: "length acc \<le> length (foldl (extend_report h) acc prs)"
proof (induction prs arbitrary: acc)
  case (Cons pr prs)
  have "length acc \<le> length (extend_report h acc pr)" by (simp add: extend_report_def)
  also have "\<dots> \<le> length (foldl (extend_report h) (extend_report h acc pr) prs)" by (rule Cons.IH)
  finally show ?case by simp
qed simp

lemma extend_ne [simp]: "extend_report h acc pr \<noteq> []"
  by (simp add: extend_report_def snapshot_text_def)

section \<open>The runs of the closure\<close>

lemma closure_extends:
  assumes "ssm_inv (stacks w)" and "ssm_view (pr_tick pr) (stacks w) nm = (if acc = [] then None else Some acc)"
    and "pr_backtrace pr \<noteq> None" and "length (extend_report h acc pr) \<le> SAMPLE_STACK_MAP_VALUE_MAX_SIZE"
    and "u - pr_tick3 pr \<le> SAMPLE_STACK_MAP_EXPIRE_MS"
  shows "ssm_view u (stacks (sample_stack_closure pr nm ctr h w)) nm = Some (extend_report h acc pr)"
proof -
  obtain old es where g: "SampleStackMap_GetAndRemove nm (pr_tick pr) (stacks w) = (old, es)" by fastforce
  have o: "old = acc" "ssm_inv es"
    using ssm.get_value [OF assms(1), of nm "pr_tick pr"] ssm.inv_get [OF assms(1), of nm "pr_tick pr"] assms(2) g
    by (simp_all split: if_splits)
  obtain stack where "pr_backtrace pr = Some stack" using assms(3) by auto
  then have "stacks (sample_stack_closure pr nm ctr h w) =
      SampleStackMap_Set nm (extend_report h acc pr) (pr_tick2 pr) (pr_tick3 pr) es"
    using g o(1) by (simp add: sample_stack_closure_def extend_report_def snapshot_text_def Let_def)
  then show ?thesis using ssm.set_self [OF o(2) assms(4,5)] by simp
qed

lemma runs_extend:
  assumes "ssm_inv (stacks w)" and "acc \<noteq> []"
    and "\<forall>x. x - t \<le> SAMPLE_STACK_MAP_EXPIRE_MS \<longrightarrow> ssm_view x (stacks w) nm = Some acc"
    and "in_time t prs u" and "\<forall>pr \<in> set prs. pr_backtrace pr \<noteq> None"
    and "length (foldl (extend_report h) acc prs) \<le> SAMPLE_STACK_MAP_VALUE_MAX_SIZE"
  shows "ssm_view u (stacks (sample_stack_runs nm ctr h prs w)) nm = Some (foldl (extend_report h) acc prs)"
  using assms
proof (induction prs arbitrary: w acc t)
  case (Cons pr prs)
  have len: "length (extend_report h acc pr) \<le> SAMPLE_STACK_MAP_VALUE_MAX_SIZE"
    using length_extend [of "extend_report h acc pr" h prs] Cons.prems(6) by simp
  have "\<forall>x. x - pr_tick3 pr \<le> SAMPLE_STACK_MAP_EXPIRE_MS \<longrightarrow>
      ssm_view x (stacks (sample_stack_closure pr nm ctr h w)) nm = Some (extend_report h acc pr)"
    using Cons.prems len by (auto intro!: closure_extends)
  from Cons.IH [OF stacks_inv_closure [OF Cons.prems(1)] extend_ne this] Cons.prems show ?case by simp
qed simp

lemma runs_report:
  assumes "ssm_inv (stacks w)" and "ssm_view (pr_tick pr) (stacks w) nm = None" and "in_time (pr_tick3 pr) prs u"
    and "\<forall>pr \<in> set (pr # prs). pr_backtrace pr \<noteq> None"
    and "length (stack_report h (pr # prs)) \<le> SAMPLE_STACK_MAP_VALUE_MAX_SIZE"
  shows "ssm_view u (stacks (sample_stack_runs nm ctr h (pr # prs) w)) nm = Some (stack_report h (pr # prs))"
proof -
  have len: "length (extend_report h [] pr) \<le> SAMPLE_STACK_MAP_VALUE_MAX_SIZE"
    using length_extend [of "extend_report h [] pr" h prs] assms(5) by (simp add: stack_report_def)
  have "\<forall>x. x - pr_tick3 pr \<le> SAMPLE_STACK_MAP_EXPIRE_MS \<longrightarrow>
      ssm_view x (stacks (sample_stack_closure pr nm ctr h w)) nm = Some (extend_report h [] pr)"
    using assms len by (auto intro!: closure_extends)
  from runs_extend [OF stacks_inv_closure [OF assms(1)] extend_ne this assms(3)] assms(4,5)
  show ?thesis by (simp add: stack_report_def)
qed

lemma runs_inv: "ssm_inv (stacks w) \<Longrightarrow> ssm_inv (stacks (sample_stack_runs nm ctr h prs w))"
  by (induction prs arbitrary: w) (simp_all add: stacks_inv_closure)

section \<open>The event\<close>

text \<open>The name under which the event looks for the stacks: the thread is the one its message names.\<close>

definition event_message :: "run_in \<Rightarrow> string \<Rightarrow> WatchdogTask \<Rightarrow> WatchdogInner \<Rightarrow> string" where
  "event_message ri msg t w = ri_ctime ri @ [CHR 0x0A] @ msg @ [CHR 0x0A] @
     (case task_checker t of None \<Rightarrow> [] | Some a \<Rightarrow> GetDumpInfo (ri_dump ri) (checkers w a))"

definition report_name :: "env \<Rightarrow> run_in \<Rightarrow> string \<Rightarrow> WatchdogTask \<Rightarrow> WatchdogInner \<Rightarrow> string" where
  "report_name e ri msg t w = sample_stack_name (ParseTidFromMsg (event_message ri msg t w) (t\<lparr>watchdogTid := getprocpid e\<rparr>))"

lemma block_event:
  fixes ri :: run_in and msg fts :: string and t :: WatchdogTask and w :: WatchdogInner
  assumes "\<not> isProcessDebug e"
  defines "nm \<equiv> report_name e ri msg t w"
  defines "v \<equiv> fst (SampleStackMap_GetAndRemove nm (ri_tick ri) (stacks w))"
  defines "r \<equiv> SendEvent e ri msg ''SERVICE_BLOCK'' fts (t, w)"
  shows "sampleStack (fst r) = v"
    and "HISYSEVENT_ENABLE e \<Longrightarrow> \<exists>ev. out (snd r) = out w @ [EEvent ev] \<and> ev_name ev = ''SERVICE_BLOCK'' \<and> ev_sample_stack ev = v"
    and "\<forall>x \<in> set (checkerQueue (snd r)). task_name x \<noteq> nm"
proof -
  obtain es where g: "SampleStackMap_GetAndRemove nm (ri_tick ri) (stacks w) = (v, es)" by (metis v_def prod.collapse)
  let ?w = "snd (RemoveInnerTask nm (w\<lparr>stacks := es\<rparr>))"
  let ?t = "(ParseTidFromMsg (event_message ri msg t w) (t\<lparr>watchdogTid := getprocpid e\<rparr>))\<lparr>sampleStack := v\<rparr>"
  have r: "r = (?t, SendHisyseventEvent e ri (event_message ri msg t w @ fts) ''SERVICE_BLOCK'' [] ?t ?w)"
    using assms(1) g by (simp add: r_def SendEvent_def event_message_def report_name_def nm_def Let_def)
  have o: "out ?w = out w" by (simp add: RemoveInnerTask_def Let_def split_beta)
  have ne: "nm \<noteq> []" by (simp add: nm_def report_name_def sample_stack_name_def)
  have q: "\<forall>x \<in> set (checkerQueue ?w). task_name x \<noteq> nm"
  proof (cases "checkerQueue w = []")
    case True
    then show ?thesis by (simp add: RemoveInner_nop)
  next
    case False
    then have m: "mset (checkerQueue ?w) = filter_mset (\<lambda>x. task_name x \<noteq> nm) (mset (checkerQueue w))"
      using RemoveInner_spec(1) [OF ne, of "w\<lparr>stacks := es\<rparr>"] by simp
    have "task_name x \<noteq> nm" if "x \<in># mset (checkerQueue ?w)" for x using that unfolding m by simp
    then show ?thesis by (metis set_mset_mset)
  qed
  show "sampleStack (fst r) = v" by (simp add: r)
  show "\<exists>ev. out (snd r) = out w @ [EEvent ev] \<and> ev_name ev = ''SERVICE_BLOCK'' \<and> ev_sample_stack ev = v" if "HISYSEVENT_ENABLE e"
    using that o by (simp add: r SendHisyseventEvent_def emit_def)
  show "\<forall>x \<in> set (checkerQueue (snd r)). task_name x \<noteq> nm"
    using q by (simp add: r SendHisyseventEvent_def)
qed

section \<open>From the warning to the report\<close>

text \<open>
  What may happen to the state between the two events: runs of the closure, in this order, and anything that leaves the store of the
  stacks alone.
\<close>

inductive sampled :: "string \<Rightarrow> nat \<Rightarrow> string \<Rightarrow> WatchdogInner \<Rightarrow> probe list \<Rightarrow> WatchdogInner \<Rightarrow> bool" for nm ctr h w where
  sampled_nil: "sampled nm ctr h w [] w"
| sampled_other: "sampled nm ctr h w prs v \<Longrightarrow> stacks v' = stacks v \<Longrightarrow> sampled nm ctr h w prs v'"
| sampled_run: "sampled nm ctr h w prs v \<Longrightarrow> sampled nm ctr h w (prs @ [pr]) (sample_stack_closure pr nm ctr h v)"

lemma closure_stacks: "stacks v = stacks v' \<Longrightarrow>
  stacks (sample_stack_closure pr nm ctr h v) = stacks (sample_stack_closure pr nm ctr h v')"
  by (simp add: sample_stack_closure_def Let_def split: option.split prod.split)

lemma runs_snoc: "sample_stack_runs nm ctr h (prs @ [pr]) w = sample_stack_closure pr nm ctr h (sample_stack_runs nm ctr h prs w)"
  by (induction prs arbitrary: w) simp_all

lemma sampled_stacks: "sampled nm ctr h w prs v \<Longrightarrow> stacks v = stacks (sample_stack_runs nm ctr h prs w)"
proof (induction rule: sampled.induct)
  case (sampled_run prs v pr)
  show ?case unfolding runs_snoc by (rule closure_stacks [OF sampled_run(2)])
qed simp_all

text \<open>The thread an event is about, and the header of its stacks.\<close>

definition event_tid :: "env \<Rightarrow> run_in \<Rightarrow> string \<Rightarrow> WatchdogTask \<Rightarrow> WatchdogInner \<Rightarrow> int" where
  "event_tid e ri msg t w = watchdogTid (ParseTidFromMsg (event_message ri msg t w) (t\<lparr>watchdogTid := getprocpid e\<rparr>))"

lemma ParseTid_keeps:
  "task_name (ParseTidFromMsg m t) = task_name t" "checkInterval (ParseTidFromMsg m t) = checkInterval t"
  by (simp_all add: ParseTidFromMsg_def Let_def split: option.split)

lemma report_name_tid: "report_name e ri msg t w = task_name t @ ''_sample_stack'' @ show_int (event_tid e ri msg t w)"
  by (simp add: report_name_def sample_stack_name_def event_tid_def ParseTid_keeps)

definition stack_header :: "int \<Rightarrow> string" where
  "stack_header tid = ''#ThreadInfos Tid: '' @ show_int tid @ [CHR 0x0A]"

lemma warning_samples:
  fixes t :: WatchdogTask and w :: WatchdogInner and fts :: string
  assumes "\<not> isProcessDebug e" and "\<not> IsInAppspwan e" and "length (checkerQueue w) < MAX_WATCH_NUM"
    and "GetLimitedSizeName (report_name e ri msg t w) \<notin> taskNameSet w"
  defines "w1 \<equiv> snd (SendEvent e ri msg ''SERVICE_WARNING'' fts (t, w))"
  shows "stacks w1 = stacks w"
    and "\<exists>x \<in> set (checkerQueue w1). task_name x = GetLimitedSizeName (report_name e ri msg t w) \<and>
      task_task x = Some (SampleStackTask (event_tid e ri msg t w) (report_name e ri msg t w) (nextCounter w)
        (stack_header (event_tid e ri msg t w))) \<and>
      checkInterval x = checkInterval t div 11 \<and> \<not> isOneshotTask x"
proof -
  let ?t = "ParseTidFromMsg (event_message ri msg t w) (t\<lparr>watchdogTid := getprocpid e\<rparr>)"
  define v where "v = InsertSampleStackTask e ri ?t w"
  have w1: "checkerQueue w1 = checkerQueue v" "stacks w1 = stacks v"
    using assms(1) by (simp_all add: w1_def v_def SendEvent_def event_message_def SendHisyseventEvent_def Let_def)
  have ne: "report_name e ri msg t w \<noteq> []" by (simp add: report_name_tid)
  have n: "sample_stack_name ?t = report_name e ri msg t w" "watchdogTid ?t = event_tid e ri msg t w" "checkInterval ?t = checkInterval t"
    by (simp_all add: report_name_def event_tid_def ParseTid_keeps)
  have k: "stacks (snd (InsertWatchdogTaskLocked e nm x u)) = stacks u" for nm x u
    by (simp add: InsertWatchdogTaskLocked_def CreateWatchdogThreadIfNeed_def emit_def Let_def)
  have "stacks v = stacks w"
    by (simp add: v_def InsertSampleStackTask_def InsertSampleStackTaskImpl_def RunPeriodicalTask_def new_id_def k Let_def split_beta)
  then show "stacks w1 = stacks w" using w1 by simp
  define x where "x = WatchdogTask_task e (curId w + 1) (st_now (ri_stamp ri)) (st_times (ri_stamp ri))
      (GetLimitedSizeName (report_name e ri msg t w))
      (Some (SampleStackTask (event_tid e ri msg t w) (report_name e ri msg t w) (nextCounter w) (stack_header (event_tid e ri msg t w))))
      (checkInterval t div 11) (checkInterval t div 11) False"
  have "checkerQueue v = pq_push x (checkerQueue w)"
    using assms(2-4) ne
    by (simp add: v_def InsertSampleStackTask_def n InsertSampleStackTaskImpl_def RunPeriodicalTask_def new_id_def Let_def
        Insert_accepted(2) insert_refused_def x_def stack_header_def)
  then have "x \<in> set (checkerQueue w1)" by (simp add: w1)
  moreover have "task_name x = GetLimitedSizeName (report_name e ri msg t w)" "checkInterval x = checkInterval t div 11"
    "task_task x = Some (SampleStackTask (event_tid e ri msg t w) (report_name e ri msg t w) (nextCounter w)
        (stack_header (event_tid e ri msg t w)))" "\<not> isOneshotTask x"
    by (simp_all add: x_def task_constructors)
  ultimately show "\<exists>x \<in> set (checkerQueue w1). task_name x = GetLimitedSizeName (report_name e ri msg t w) \<and>
      task_task x = Some (SampleStackTask (event_tid e ri msg t w) (report_name e ri msg t w) (nextCounter w)
        (stack_header (event_tid e ri msg t w))) \<and>
      checkInterval x = checkInterval t div 11 \<and> \<not> isOneshotTask x" by blast
qed

text \<open>
  C17. From the warning to the report of a blocked thread. The warning registers, if the queue takes it, a task that samples the thread
  its message names, every eleventh of the interval. When this task has run, each time within two minutes of
  the last and with a stack, nothing else has used the store of three entries, and the texts together have at most 256 KiB,
  then the event \<^verbatim>\<open>SERVICE_BLOCK\<close> of the same thread holds the header with its number and all of the stacks in their order,
  each behind its time; and no sampling task of that name is left in the queue.
\<close>

theorem block_report_has_stacks:
  fixes t t' :: WatchdogTask and w v :: WatchdogInner and ri ri' :: run_in and fts fts' msg' :: string
  assumes "\<not> isProcessDebug e" and "HISYSEVENT_ENABLE e" and "\<not> IsInAppspwan e" and "length (checkerQueue w) < MAX_WATCH_NUM"
    and "GetLimitedSizeName (report_name e ri msg t w) \<notin> taskNameSet w"
  defines "nm \<equiv> report_name e ri msg t w" and "tid \<equiv> event_tid e ri msg t w"
  defines "w1 \<equiv> snd (SendEvent e ri msg ''SERVICE_WARNING'' fts (t, w))"
  assumes "sampled nm (nextCounter w) (stack_header tid) w1 (pr # prs) v"
    and "ssm_inv (stacks w)" and "ssm_view (pr_tick pr) (stacks w) nm = None"
    and "\<forall>p \<in> set (pr # prs). pr_backtrace p \<noteq> None" and "in_time (pr_tick3 pr) prs (ri_tick ri')"
    and "length (stack_report (stack_header tid) (pr # prs)) \<le> SAMPLE_STACK_MAP_VALUE_MAX_SIZE"
    and "task_name t' = task_name t" and "event_tid e ri' msg' t' v = tid"
  defines "r \<equiv> SendEvent e ri' msg' ''SERVICE_BLOCK'' fts' (t', v)"
  shows "(\<exists>x \<in> set (checkerQueue w1). task_task x = Some (SampleStackTask tid nm (nextCounter w) (stack_header tid)) \<and>
      checkInterval x = checkInterval t div 11 \<and> \<not> isOneshotTask x) \<and>
    (\<exists>ev. out (snd r) = out v @ [EEvent ev] \<and> ev_name ev = ''SERVICE_BLOCK'' \<and>
      ev_sample_stack ev = stack_report (stack_header tid) (pr # prs)) \<and>
    sampleStack (fst r) = stack_report (stack_header tid) (pr # prs) \<and>
    (\<forall>x \<in> set (checkerQueue (snd r)). task_name x \<noteq> nm)"
proof -
  note wn = warning_samples [OF assms(1,3,4,5), of fts, folded w1_def nm_def tid_def]
  have st: "stacks v = stacks (sample_stack_runs nm (nextCounter w) (stack_header tid) (pr # prs) w1)"
    by (rule sampled_stacks [OF assms(9)])
  have i1: "ssm_inv (stacks w1)" "ssm_view (pr_tick pr) (stacks w1) nm = None" using assms(10,11) wn(1) by simp_all
  have inv: "ssm_inv (stacks v)" unfolding st by (rule runs_inv [OF i1(1)])
  have "ssm_view (ri_tick ri') (stacks v) nm = Some (stack_report (stack_header tid) (pr # prs))"
    unfolding st by (rule runs_report [OF i1 assms(13,12,14)])
  then have g: "fst (SampleStackMap_GetAndRemove nm (ri_tick ri') (stacks v)) = stack_report (stack_header tid) (pr # prs)"
    using ssm.get_value [OF inv] by simp
  have n: "report_name e ri' msg' t' v = nm" using assms(15,16) by (simp add: report_name_tid nm_def tid_def)
  show ?thesis using block_event [OF assms(1), of ri' msg' fts' t' v, folded r_def, unfolded n g] assms(2) wn(2) by blast
qed

definition demo_backtrace :: "string \<Rightarrow> probe" where
  "demo_backtrace s = demo_probe\<lparr>pr_backtrace := Some s, pr_time := ''now'', pr_tick := 1, pr_tick2 := 1, pr_tick3 := 1\<rparr>"

theorem block_report_has_stacks_witness:
  "\<exists>w1 v ev h. w1 = snd (SendEvent service_env demo_in ''m'' ''SERVICE_WARNING'' [] (WatchdogTask_default\<lparr>task_name := ''t''\<rparr>, WatchdogInner_init)) \<and>
     out (snd (SendEvent service_env demo_in ''m'' ''SERVICE_BLOCK'' [] (WatchdogTask_default\<lparr>task_name := ''t''\<rparr>, v))) =
       out v @ [EEvent ev] \<and>
     ev_sample_stack ev = h @ ''SnapshotTime:now'' @ [CHR 0x0A] @ ''a'' @ [CHR 0x0A] @ ''SnapshotTime:now'' @ [CHR 0x0A] @ ''b''"
proof -
  let ?t = "WatchdogTask_default\<lparr>task_name := ''t''\<rparr>" and ?p = "demo_backtrace ''a''" and ?q = "demo_backtrace ''b''"
  define nm where "nm = report_name service_env demo_in ''m'' ?t WatchdogInner_init"
  define tid where "tid = event_tid service_env demo_in ''m'' ?t WatchdogInner_init"
  let ?h = "stack_header tid" and ?c = "nextCounter WatchdogInner_init"
  define w1 where "w1 = snd (SendEvent service_env demo_in ''m'' ''SERVICE_WARNING'' [] (?t, WatchdogInner_init))"
  let ?v = "sample_stack_runs nm ?c ?h [?p, ?q] w1"
  have n: "event_tid service_env demo_in ''m'' ?t ?v = tid"
    by (simp add: tid_def event_tid_def event_message_def WatchdogTask_default_def)
  have 1: "\<not> isProcessDebug service_env" "HISYSEVENT_ENABLE service_env" "\<not> IsInAppspwan service_env"
    "length (checkerQueue WatchdogInner_init) < MAX_WATCH_NUM"
    "GetLimitedSizeName (report_name service_env demo_in ''m'' ?t WatchdogInner_init) \<notin> taskNameSet WatchdogInner_init"
    by (simp_all add: service_env_def WatchdogInner_init_def MAX_WATCH_NUM_def IsInAppspwan_def)
  have s: "sampled nm ?c ?h w1 [?p, ?q] ?v"
    using sampled_run [OF sampled_run [OF sampled_nil, of nm ?c ?h w1 ?p], of ?q] by simp
  have 2: "ssm_inv (stacks WatchdogInner_init)" "ssm_view (pr_tick ?p) (stacks WatchdogInner_init) nm = None"
    using ssm_inv_init by (simp_all add: WatchdogInner_init_def ssm_eval)
  have 3: "\<forall>p \<in> set [?p, ?q]. pr_backtrace p \<noteq> None" "in_time (pr_tick3 ?p) [?q] (ri_tick demo_in)"
    by (simp_all add: demo_backtrace_def demo_probe_def demo_in_def SAMPLE_STACK_MAP_EXPIRE_MS_def)
  have r: "stack_report ?h [?p, ?q] =
      ?h @ ''SnapshotTime:now'' @ [CHR 0x0A] @ ''a'' @ [CHR 0x0A] @ ''SnapshotTime:now'' @ [CHR 0x0A] @ ''b''"
    by (simp add: stack_report_def extend_report_def snapshot_text_def demo_backtrace_def)
  have "tid = 4321" 
    by (simp add: tid_def event_tid_def event_message_def WatchdogTask_default_def demo_in_def service_env_def ParseTidFromMsg_def str_find_def)
  then have "length (show_int tid) \<le> 20" by (simp add: show_int_def length_show_nat)
  then have 4: "length (stack_report ?h [?p, ?q]) \<le> SAMPLE_STACK_MAP_VALUE_MAX_SIZE"
    unfolding r by (simp add: stack_header_def SAMPLE_STACK_MAP_VALUE_MAX_SIZE_def)
  show ?thesis
    using block_report_has_stacks [OF 1, of "[]", folded nm_def tid_def w1_def, OF s 2 3 4 refl n, of "[]"] r
    by (intro exI [of _ w1] exI [of _ ?v]) (auto simp: w1_def)
qed

end
