(* ===== verification/Watchdog_Ffrt.thy ===== *)
theory Watchdog_Ffrt
  imports Watchdog_Task
begin

text \<open>
  The watch over the tasks of the concurrency framework (\<^verbatim>\<open>FfrtCallback\<close> and what it calls in
  \<^verbatim>\<open>watchdog_inner.cpp\<close>): the framework calls back with the id and the description of a task that runs
  for too long; the first call warns and starts to sample its stack, the second reports a block
  and ends the process. The second part is the queue that starts and dumps traces
  (\<^verbatim>\<open>xcollie_ffrt_task.cpp\<close>).
\<close>

section \<open>The thread of a queue\<close>

text \<open>The lines of a text that end with a newline.\<close>

fun full_lines :: "string \<Rightarrow> string \<Rightarrow> string list" where
  "full_lines acc [] = []"
| "full_lines acc (c # cs) = (if c = CHR 0x0A then rev acc # full_lines [] cs else full_lines (c # acc) cs)"

abbreviation (input) queueNameFrontStr :: string where "queueNameFrontStr \<equiv> ''us. queue name [''"
abbreviation (input) queueNameRearStr :: string where "queueNameRearStr \<equiv> ''], remaining tasks count=''"
abbreviation (input) workerTidFrontStr :: string where "workerTidFrontStr \<equiv> '' worker tid ''"
abbreviation (input) taskIdFrontStr :: string where "taskIdFrontStr \<equiv> '' is running, task id ''"

text \<open>One line: the digits between the two marks, if the line has the marks and the name of the queue.\<close>

definition worker_tid :: "string \<Rightarrow> string \<Rightarrow> int option" where
  "worker_tid queueNameStr line =
     (case (str_find line workerTidFrontStr 0, str_find line taskIdFrontStr 0, str_find line queueNameStr 0) of
        (Some workerTidFrontPos, Some taskIdFrontPos, Some queueNamePos) \<Rightarrow>
          let workerStartPos = workerTidFrontPos + length workerTidFrontStr;
              tidLength = taskIdFrontPos - workerStartPos;
              tidStr = str_substr line workerStartPos tidLength in
          if taskIdFrontPos > workerStartPos \<and> tidLength < INT32_MAX_DIGITS \<and> IsNum tidStr
          then Some (int (num_of_digits 0 tidStr)) else None
      | _ \<Rightarrow> None)"

fun worker_scan :: "string \<Rightarrow> int \<Rightarrow> string list \<Rightarrow> int" where
  "worker_scan queueNameStr tid [] = tid"
| "worker_scan queueNameStr tid (line # ls) =
     (case worker_tid queueNameStr line of Some t \<Rightarrow> t | None \<Rightarrow> worker_scan queueNameStr tid ls)"

definition GetFfrtTaskTid :: "int \<Rightarrow> string \<Rightarrow> int" where
  "GetFfrtTaskTid tid msg =
     (case str_find msg queueNameFrontStr 0 of
        None \<Rightarrow> tid
      | Some queueNameFrontPos \<Rightarrow>
          let queueStartPos = queueNameFrontPos + length queueNameFrontStr in
          (case str_find msg queueNameRearStr 0 of
             None \<Rightarrow> tid
           | Some queueNameRearPos \<Rightarrow>
               if queueNameRearPos \<le> queueStartPos then tid
               else worker_scan ('' name '' @ str_substr msg queueStartPos (queueNameRearPos - queueStartPos)) tid
                      (full_lines [] msg)))"

section \<open>Events\<close>

text \<open>
  What one callback reads besides \<^typ>\<open>run_in\<close>: the dump of the framework, the thread it runs on, the
  kernel stack of a thread, and the flag of the tests that keeps the process alive.
\<close>

record ffrt_in = run_in +
  fi_dump :: string
  fi_tid :: int
  fi_kernel :: "int \<Rightarrow> string"
  isTestExist :: bool

record FfrtEventParam =
  fp_msg :: string
  fp_eventName :: string
  fp_taskInfo :: string
  fp_faultTimeStr :: string
  fp_isDumpStack :: bool
  fp_sampleStack :: string

definition GetFfrtEventMsg :: "ffrt_in \<Rightarrow> string \<Rightarrow> string" where
  "GetFfrtEventMsg fi msg = ri_ctime fi @ [CHR 0x0A] @ msg @ [CHR 0x0A] @ fi_dump fi"

text \<open>\<open>ri_stack\<close> is the stack of the process, \<open>ri_stack2\<close> the one of the thread for the second attempt.\<close>

definition SendFfrtEvent :: "env \<Rightarrow> ffrt_in \<Rightarrow> FfrtEventParam \<Rightarrow> WatchdogInner \<Rightarrow> WatchdogInner" where
  "SendFfrtEvent e fi param w =
     (if isProcessDebug e then w
      else
        let pid = getprocpid e;
            sendMsg = GetFfrtEventMsg fi (fp_msg param);
            tid = GetFfrtTaskTid pid sendMsg;
            watchdogTid = ParseTidFromInfo (fp_taskInfo param);
            kernelStack = [CHR 0x0A] @ fi_kernel fi watchdogTid;
            binderInfo = (if fp_eventName param = ''SERVICE_WARNING'' then with_binder (ri_binder fi tid) else []);
            stack = (if \<not> fp_isDumpStack param then [] else if ri_oversize fi then ri_stack2 fi else ri_stack fi)
        in if \<not> HISYSEVENT_ENABLE e then w
           else emit (EEvent \<lparr>ev_name = fp_eventName param, ev_pid = pid,
                  ev_tid = (if watchdogTid < 0 then tid else watchdogTid), ev_gid = getgid e, ev_uid = getuid e,
                  ev_module = fp_taskInfo param, ev_process = selfProcName e,
                  ev_msg = sendMsg @ fp_faultTimeStr param, ev_stack = stack @ kernelStack,
                  ev_sample_stack = fp_sampleStack param, ev_binder = binderInfo\<rparr>) w)"

section \<open>The callback\<close>

definition SERVICE_WARNING :: int where "SERVICE_WARNING = 1"
definition SAMPLE_STACK_INTERVAL_DIVISOR :: u32 where "SAMPLE_STACK_INTERVAL_DIVISOR = 11"
definition TIME_MS_TO_S :: u32 where "TIME_MS_TO_S = 1000"

definition IsExistProcess :: "env \<Rightarrow> ffrt_in \<Rightarrow> string \<Rightarrow> WatchdogInner \<Rightarrow> WatchdogInner" where
  "IsExistProcess e fi description w =
     (if isTestExist fi then w else KillPeerBinderProcess e (run_in.truncate fi) description w)"

definition ffrt_sample_name :: "u64 \<Rightarrow> string" where
  "ffrt_sample_name taskId = ''ffrt_sample_stack_'' @ show_nat (unat taskId)"

definition InsertFfrtSampleStackTask :: "env \<Rightarrow> ffrt_in \<Rightarrow> u64 \<Rightarrow> WatchdogInner \<Rightarrow> WatchdogInner" where
  "InsertFfrtSampleStackTask e fi taskId w =
     InsertSampleStackTaskImpl e (ri_stamp fi) (ffrt_sample_name taskId) (fi_tid fi)
       (ucast (FFRT_CALLBACK_TIME e div SAMPLE_STACK_INTERVAL_DIVISOR)) w"

definition ffrt_description :: "env \<Rightarrow> string \<Rightarrow> string" where
  "ffrt_description e taskInfo =
     ''FfrtCallback: task('' @ taskInfo @ '') blocked '' @ show_nat (unat (FFRT_CALLBACK_TIME e div TIME_MS_TO_S)) @ ''s''"

abbreviation (input) report_twice :: string where "report_twice \<equiv> '', report twice instead of exiting process.''"

text \<open>The end of the sampling of a task: its stacks, and its task removed or its name released.\<close>

definition ffrt_collect :: "ffrt_in \<Rightarrow> u64 \<Rightarrow> WatchdogInner \<Rightarrow> string \<times> WatchdogInner" where
  "ffrt_collect fi taskId w =
     (let nm = ffrt_sample_name taskId;
          (stack, es) = SampleStackMap_GetAndRemove nm (ri_tick fi) (stacks w);
          (removed, w1) = RemoveInnerTask nm (w\<lparr>stacks := es\<rparr>);
          w2 = (if removed then w1 else erase_name nm w1)
      in (stack, w2\<lparr>taskIdCnt := (taskIdCnt w2)(taskId := None)\<rparr>))"

definition FfrtCallback :: "env \<Rightarrow> ffrt_in \<Rightarrow> u64 \<Rightarrow> string \<Rightarrow> WatchdogInner \<Rightarrow> WatchdogInner" where
  "FfrtCallback e fi taskId taskInfo w =
     (let faultTimeStr = fault_time_str (run_in.truncate fi);
          description = ffrt_description e taskInfo;
          param = (\<lambda>d nm dump stack. \<lparr>fp_msg = d, fp_eventName = nm, fp_taskInfo = taskInfo,
             fp_faultTimeStr = faultTimeStr, fp_isDumpStack = dump, fp_sampleStack = stack\<rparr>) in
      if str_contains taskInfo ''Queue_Schedule_Timeout'' then
        IsExistProcess e fi (description @ report_twice)
          (SendFfrtEvent e fi (param (description @ report_twice) ''SERVICE_BLOCK'' True [])
            (SendFfrtEvent e fi (param description ''SERVICE_WARNING'' False []) w))
      else if taskIdCnt w taskId \<noteq> None then
        (case ffrt_collect fi taskId w of (stk, w1) \<Rightarrow>
          IsExistProcess e fi (description @ report_twice)
            (SendFfrtEvent e fi (param (description @ report_twice) ''SERVICE_BLOCK'' True stk) w1))
      else
        SendFfrtEvent e fi (param description ''SERVICE_WARNING'' True [])
          (InsertFfrtSampleStackTask e fi taskId (w\<lparr>taskIdCnt := (taskIdCnt w)(taskId \<mapsto> SERVICE_WARNING)\<rparr>)))"

section \<open>The queue of traces\<close>

text \<open>
  \<^verbatim>\<open>XCollieFfrtTask\<close>: jobs run one at a time in the order of submission, since the queue is made with a
  concurrency of one. \<open>captures\<close> lists the calls of \<^verbatim>\<open>CaptureDurationTrace\<close>; a caller is known by its
  identity.
\<close>

datatype trace_job = StartJob nat | DumpJob nat

record XCollieFfrtTask =
  maxTaskNum :: int
  openTraceCode :: int
  xcollieQueue :: "trace_job list option"
  captures :: "trace_job list"

definition XCollieFfrtTask_init :: "int \<Rightarrow> XCollieFfrtTask" where
  "XCollieFfrtTask_init maxFfrtNum = \<lparr>maxTaskNum = maxFfrtNum, openTraceCode = - 1, xcollieQueue = None, captures = []\<rparr>"

definition InitFfrtTask :: "XCollieFfrtTask \<Rightarrow> XCollieFfrtTask" where
  "InitFfrtTask x = (if xcollieQueue x = None then x\<lparr>xcollieQueue := Some []\<rparr> else x)"

text \<open>\<open>ret\<close> is the return code of \<^verbatim>\<open>CaptureDurationTrace\<close>.\<close>

definition StartTrace :: "int \<Rightarrow> nat \<Rightarrow> XCollieFfrtTask \<Rightarrow> XCollieFfrtTask" where
  "StartTrace ret caller x = x\<lparr>openTraceCode := ret, captures := captures x @ [StartJob caller]\<rparr>"

definition DumpTrace :: "nat \<Rightarrow> XCollieFfrtTask \<Rightarrow> XCollieFfrtTask" where
  "DumpTrace caller x = (if openTraceCode x \<noteq> 0 then x else x\<lparr>captures := captures x @ [DumpJob caller]\<rparr>)"

definition submit :: "trace_job \<Rightarrow> XCollieFfrtTask \<Rightarrow> XCollieFfrtTask" where
  "submit j x = (case xcollieQueue x of None \<Rightarrow> x | Some q \<Rightarrow> x\<lparr>xcollieQueue := Some (q @ [j])\<rparr>)"

definition SubmitStartTraceTask :: "nat \<Rightarrow> XCollieFfrtTask \<Rightarrow> XCollieFfrtTask" where
  "SubmitStartTraceTask caller x = submit (StartJob caller) x"

definition SubmitDumpTraceTask :: "nat \<Rightarrow> XCollieFfrtTask \<Rightarrow> XCollieFfrtTask" where
  "SubmitDumpTraceTask caller x = submit (DumpJob caller) x"

fun run_job :: "trace_job \<Rightarrow> int \<Rightarrow> XCollieFfrtTask \<Rightarrow> XCollieFfrtTask" where
  "run_job (StartJob caller) ret x = StartTrace ret caller x"
| "run_job (DumpJob caller) ret x = DumpTrace caller x"

text \<open>What happens to the queue: clients submit, and the framework runs the oldest job.\<close>

datatype trace_event = Init | SubmitStart nat | SubmitDump nat | Execute int

definition trace_exec :: "trace_event \<Rightarrow> XCollieFfrtTask \<Rightarrow> XCollieFfrtTask" where
  "trace_exec ev x =
     (case ev of
        Init \<Rightarrow> InitFfrtTask x
      | SubmitStart c \<Rightarrow> SubmitStartTraceTask c x
      | SubmitDump c \<Rightarrow> SubmitDumpTraceTask c x
      | Execute ret \<Rightarrow> (case xcollieQueue x of Some (j # q) \<Rightarrow> run_job j ret (x\<lparr>xcollieQueue := Some q\<rparr>) | _ \<Rightarrow> x))"

section \<open>What the callback does to the watchdog\<close>

lemma told_taskIdCnt [simp]: "told (w\<lparr>taskIdCnt := m\<rparr>) = told w" "told (erase_name nm w) = told w"
  by (simp_all add: told_def erase_name_def)

lemma truncate_sel [simp]:
  "ri_killed (run_in.truncate fi) = ri_killed fi" "ri_fault (run_in.truncate fi) = ri_fault fi"
  by (cases fi; simp add: run_in.truncate_def)+

lemma SampleImpl_frame:
  "told (InsertSampleStackTaskImpl e st nm tid iv w) = told w"
  "taskIdCnt (InsertSampleStackTaskImpl e st nm tid iv w) = taskIdCnt w"
  "stacks (InsertSampleStackTaskImpl e st nm tid iv w) = stacks w"
proof -
  have *: "told (snd (InsertWatchdogTaskLocked e n t u)) = told u"
    "taskIdCnt (snd (InsertWatchdogTaskLocked e n t u)) = taskIdCnt u"
    "stacks (snd (InsertWatchdogTaskLocked e n t u)) = stacks u" for n t u
    by (simp_all add: Insert_told)
      (simp_all add: InsertWatchdogTaskLocked_def CreateWatchdogThreadIfNeed_def emit_def Let_def)
  show "told (InsertSampleStackTaskImpl e st nm tid iv w) = told w"
    by (simp add: InsertSampleStackTaskImpl_def RunPeriodicalTask_def new_id_def Let_def * split_beta) (simp add: told_def)
  show "taskIdCnt (InsertSampleStackTaskImpl e st nm tid iv w) = taskIdCnt w"
    by (simp add: InsertSampleStackTaskImpl_def RunPeriodicalTask_def new_id_def Let_def * split_beta)
  show "stacks (InsertSampleStackTaskImpl e st nm tid iv w) = stacks w"
    by (simp add: InsertSampleStackTaskImpl_def RunPeriodicalTask_def new_id_def Let_def * split_beta)
qed

lemma RemoveInner_frame:
  "out (snd (RemoveInnerTask nm w)) = out w" "taskIdCnt (snd (RemoveInnerTask nm w)) = taskIdCnt w"
  "stacks (snd (RemoveInnerTask nm w)) = stacks w"
  by (simp_all add: RemoveInnerTask_def Let_def split_beta)

lemma SendFfrt_out:
  assumes "\<not> isProcessDebug e" and "HISYSEVENT_ENABLE e"
  shows "\<exists>ev. SendFfrtEvent e fi p w = emit (EEvent ev) w \<and> ev_name ev = fp_eventName p \<and>
    ev_sample_stack ev = fp_sampleStack p \<and> ev_module ev = fp_taskInfo p"
  using assms by (auto simp: SendFfrtEvent_def Let_def)

lemma ffrt_name_limited: "GetLimitedSizeName (ffrt_sample_name i) = ffrt_sample_name i"
proof -
  have "unat i < 10 ^ 20" using unsigned_less [of i, where ?'a = nat] by simp
  then have "length (show_nat (unat i)) \<le> 20" by (rule length_show_nat) simp
  then show ?thesis by (simp add: ffrt_sample_name_def GetLimitedSizeName_def MAX_NAME_SIZE_def)
qed

text \<open>An environment in which events are sent, exits happen and no peer process is killed instead.\<close>

definition ffrt_plain :: "env \<Rightarrow> ffrt_in \<Rightarrow> bool" where
  "ffrt_plain e fi \<longleftrightarrow> \<not> isProcessDebug e \<and> HISYSEVENT_ENABLE e \<and> getuid e \<noteq> FOUNDATION_UID \<and> \<not> isTestExist fi"

abbreviation no_queue_timeout :: "string \<Rightarrow> bool" where
  "no_queue_timeout info \<equiv> \<not> str_contains info ''Queue_Schedule_Timeout''"

lemma IsExist_exit: "ffrt_plain e fi \<Longrightarrow> IsExistProcess e fi d w = emit (EExitProcess d) w"
  by (simp add: ffrt_plain_def IsExistProcess_def KillPeerBinderProcess_def LeftTimeExitProcess_def)

lemma ffrt_first:
  assumes "ffrt_plain e fi" and "no_queue_timeout info" and "taskIdCnt w i = None"
  obtains ev where "FfrtCallback e fi i info w =
      emit (EEvent ev) (InsertFfrtSampleStackTask e fi i (w\<lparr>taskIdCnt := (taskIdCnt w)(i \<mapsto> SERVICE_WARNING)\<rparr>))"
    and "ev_name ev = ''SERVICE_WARNING''"
proof -
  have "\<not> isProcessDebug e" "HISYSEVENT_ENABLE e" using assms(1) by (simp_all add: ffrt_plain_def)
  from SendFfrt_out [OF this] that show ?thesis
    using assms(2,3) by (simp add: FfrtCallback_def Let_def) (metis FfrtEventParam.select_convs(2))
qed

lemma ffrt_second:
  assumes "ffrt_plain e fi" and "no_queue_timeout info" and "taskIdCnt w i \<noteq> None"
  obtains ev where "FfrtCallback e fi i info w =
      emit (EExitProcess (ffrt_description e info @ report_twice)) (emit (EEvent ev) (snd (ffrt_collect fi i w)))"
    and "ev_name ev = ''SERVICE_BLOCK''" and "ev_sample_stack ev = fst (ffrt_collect fi i w)"
proof -
  have "\<not> isProcessDebug e" "HISYSEVENT_ENABLE e" using assms(1) by (simp_all add: ffrt_plain_def)
  from SendFfrt_out [OF this] that show ?thesis
    using assms by (simp add: FfrtCallback_def Let_def IsExist_exit split_beta)
      (metis FfrtEventParam.select_convs(2,6))
qed

lemma ffrt_collect_frame:
  assumes "ffrt_collect fi i w = (st, w')"
  shows "out w' = out w" and "taskIdCnt w' = (taskIdCnt w)(i := None)"
    and "st = fst (SampleStackMap_GetAndRemove (ffrt_sample_name i) (ri_tick fi) (stacks w))"
    and "\<forall>t \<in> set (checkerQueue w'). task_name t \<noteq> ffrt_sample_name i"
proof -
  define nm where "nm = ffrt_sample_name i"
  define r where "r = SampleStackMap_GetAndRemove nm (ri_tick fi) (stacks w)"
  define w1 where "w1 = w\<lparr>stacks := snd r\<rparr>"
  define w2 where "w2 = snd (RemoveInnerTask nm w1)"
  define w3 where "w3 = (if fst (RemoveInnerTask nm w1) then w2 else erase_name nm w2)"
  have eq: "st = fst r" "w' = w3\<lparr>taskIdCnt := (taskIdCnt w3)(i := None)\<rparr>"
    using assms by (auto simp: ffrt_collect_def Let_def split_beta w3_def w2_def w1_def r_def nm_def)
  have w3: "out w3 = out w" "taskIdCnt w3 = taskIdCnt w" "checkerQueue w3 = checkerQueue w2"
    by (simp_all add: w3_def erase_name_def w2_def w1_def RemoveInner_frame)
  show "out w' = out w" "taskIdCnt w' = (taskIdCnt w)(i := None)" using eq w3 by simp_all
  show "st = fst (SampleStackMap_GetAndRemove (ffrt_sample_name i) (ri_tick fi) (stacks w))"
    using eq by (simp add: r_def nm_def)
  have nm: "nm \<noteq> []" by (simp add: nm_def ffrt_sample_name_def)
  have "\<forall>t \<in> set (checkerQueue w2). task_name t \<noteq> nm"
  proof (cases "checkerQueue w1 = []")
    case True
    then show ?thesis by (simp add: w2_def RemoveInner_nop)
  next
    case False
    then have "set_mset (mset (checkerQueue w2)) = {t \<in> set (checkerQueue w1). task_name t \<noteq> nm}"
      unfolding w2_def RemoveInner_spec(1) [OF nm False] by simp
    then show ?thesis by simp
  qed
  then show "\<forall>t \<in> set (checkerQueue w'). task_name t \<noteq> ffrt_sample_name i" by (simp add: eq w3 nm_def)
qed


definition demo_ffrt_in :: ffrt_in where
  "demo_ffrt_in = run_in.extend demo_in \<lparr>fi_dump = [], fi_tid = 77, fi_kernel = (\<lambda>_. []), isTestExist = False\<rparr>"


section \<open>Traces\<close>

text \<open>
  No trace is dumped before one was started: in front of every dump among the captures there is a start,
  whatever is submitted and whatever the captures return.
\<close>

definition trace_ok :: "XCollieFfrtTask \<Rightarrow> bool" where
  "trace_ok x \<longleftrightarrow> (openTraceCode x = 0 \<longrightarrow> (\<exists>s. StartJob s \<in> set (captures x))) \<and>
     (\<forall>ys c zs. captures x = ys @ DumpJob c # zs \<longrightarrow> (\<exists>s. StartJob s \<in> set ys))"

lemma trace_ok_start: "trace_ok x \<Longrightarrow> trace_ok (StartTrace ret c x)"
  unfolding trace_ok_def StartTrace_def
  by (auto simp: append_eq_append_conv2 Cons_eq_append_conv append_eq_Cons_conv)

lemma trace_ok_dump:
  assumes "trace_ok x"
  shows "trace_ok (DumpTrace c x)"
proof (cases "openTraceCode x = 0")
  case True
  then obtain s where s: "StartJob s \<in> set (captures x)" using assms by (auto simp: trace_ok_def)
  have "\<exists>s. StartJob s \<in> set ys" if "captures x @ [DumpJob c] = ys @ DumpJob d # zs" for ys d zs
    using that s assms unfolding trace_ok_def
    by (cases zs rule: rev_cases) (auto simp flip: append_assoc append_Cons)
  with s True show ?thesis by (auto simp: trace_ok_def DumpTrace_def)
qed (use assms in \<open>simp add: DumpTrace_def\<close>)

lemma trace_ok_queue: "trace_ok (x\<lparr>xcollieQueue := q\<rparr>) = trace_ok x"
  by (simp add: trace_ok_def)

lemma trace_ok_run: "trace_ok x \<Longrightarrow> trace_ok (run_job j ret x)"
  by (cases j) (simp_all add: trace_ok_start trace_ok_dump)

lemma trace_ok_exec: "trace_ok x \<Longrightarrow> trace_ok (trace_exec ev x)"
  by (cases ev)
    (auto simp: trace_exec_def InitFfrtTask_def SubmitStartTraceTask_def SubmitDumpTraceTask_def submit_def
      trace_ok_queue trace_ok_run split: option.split list.split)

theorem trace_dump_follows_start:
  "trace_ok (fold trace_exec evs (XCollieFfrtTask_init n))"
proof (rule fold_invariant [where Q = "\<lambda>_. True"])
  show "trace_ok (XCollieFfrtTask_init n)" by (simp add: trace_ok_def XCollieFfrtTask_init_def)
qed (simp_all add: trace_ok_exec)

text \<open>The thread read from the dump of the framework is a number of at most nine digits, or the default.\<close>

lemma worker_scan_cases: "worker_scan q tid ls = tid \<or> (\<exists>line \<in> set ls. worker_tid q line = Some (worker_scan q tid ls))"
  by (induction ls) (auto split: option.split)

theorem ffrt_tid_range: "GetFfrtTaskTid tid msg = tid \<or> 0 \<le> GetFfrtTaskTid tid msg \<and> GetFfrtTaskTid tid msg < 10 ^ 9"
proof -
  have "0 \<le> v \<and> v < 10 ^ 9" if "worker_tid q line = Some v" for q line v
  proof -
    from that obtain s where s: "IsNum s" "length s < 10" "v = int (num_of_digits 0 s)"
      by (auto simp: worker_tid_def Let_def str_substr_def INT32_MAX_DIGITS_def split: option.splits if_splits)
    then show ?thesis using num_of_digits_small [of s] by (simp add: IsNum_def)
  qed
  then show ?thesis
    using worker_scan_cases unfolding GetFfrtTaskTid_def Let_def by (fastforce split: option.split)
qed

end
