(* ===== verification/Jank_Params.thy ===== *)
theory Jank_Params
  imports Watchdog_Sampling
begin

text \<open>
  The configuration of the sampling of slow main threads (\<^verbatim>\<open>SetEventConfig\<close> and
  \<^verbatim>\<open>ConfigEventPolicy\<close> of \<^verbatim>\<open>watchdog_inner.cpp\<close> with their helpers). A \<^verbatim>\<open>std::map\<close> of strings is an
  association list with distinct keys. The system parameter with the report times of applications is
  the argument \<open>param\<close>; reading it may throw.
\<close>

section \<open>Model\<close>

record SampleJankParams =
  jp_logType :: int
  jp_ignoreStartUpTime :: int
  jp_sampleInterval :: int
  jp_sampleCount :: int
  jp_reportTimes :: int
  jp_autoStopSampling :: int
  jp_eventType :: int

definition SampleJankParams_default :: SampleJankParams where
  "SampleJankParams_default =
     \<lparr>jp_logType = 0, jp_ignoreStartUpTime = 10, jp_sampleInterval = 150, jp_sampleCount = 10,
      jp_reportTimes = SAMPLE_DEFAULT_REPORT_TIMES, jp_autoStopSampling = 0, jp_eventType = 0\<rparr>"

definition LOGTYPE_NONE :: int where "LOGTYPE_NONE = 0"
definition LOGTYPE_SAMPLE_STACK :: int where "LOGTYPE_SAMPLE_STACK = 1"
definition LOGTYPE_COLLECT_TRACE :: int where "LOGTYPE_COLLECT_TRACE = 2"
definition SAMPLE_STACK_MAP_SIZE :: nat where "SAMPLE_STACK_MAP_SIZE = 5"
definition SAMPLE_TRACE_MAP_SIZE :: nat where "SAMPLE_TRACE_MAP_SIZE = 1"
definition AUTO_STOP_EVENT_TYPE :: int where "AUTO_STOP_EVENT_TYPE = 1"
definition MAX_SAMPLE_STACK_TIMES :: int where "MAX_SAMPLE_STACK_TIMES = 2500"
definition SAMPLE_INTERVAL_MIN :: int where "SAMPLE_INTERVAL_MIN = 50"
definition SAMPLE_INTERVAL_MAX :: int where "SAMPLE_INTERVAL_MAX = 500"
definition SAMPLE_COUNT_MIN :: int where "SAMPLE_COUNT_MIN = 1"
definition SAMPLE_REPORT_TIMES_MIN :: int where "SAMPLE_REPORT_TIMES_MIN = 1"
definition SAMPLE_REPORT_TIMES_MAX :: int where "SAMPLE_REPORT_TIMES_MAX = 3"
definition SAMPLE_EXTRA_COUNT :: int where "SAMPLE_EXTRA_COUNT = 4"
definition IGNORE_STARTUP_TIME_MIN :: int where "IGNORE_STARTUP_TIME_MIN = 3"
definition AUTO_STOP_CHECKER_INTERVAL :: int where "AUTO_STOP_CHECKER_INTERVAL = 60 * 1000"
definition SET_TIMES_FLAG :: int where "SET_TIMES_FLAG = 1"

lemmas jank_constants = LOGTYPE_NONE_def LOGTYPE_SAMPLE_STACK_def LOGTYPE_COLLECT_TRACE_def
  SAMPLE_STACK_MAP_SIZE_def SAMPLE_TRACE_MAP_SIZE_def AUTO_STOP_EVENT_TYPE_def MAX_SAMPLE_STACK_TIMES_def
  SAMPLE_INTERVAL_MIN_def SAMPLE_INTERVAL_MAX_def SAMPLE_COUNT_MIN_def SAMPLE_REPORT_TIMES_MIN_def
  SAMPLE_REPORT_TIMES_MAX_def SAMPLE_EXTRA_COUNT_def IGNORE_STARTUP_TIME_MIN_def
  AUTO_STOP_CHECKER_INTERVAL_def SET_TIMES_FLAG_def SAMPLE_DEFAULT_REPORT_TIMES_def

definition set_jank :: "string \<Rightarrow> int \<Rightarrow> WatchdogInner \<Rightarrow> WatchdogInner" where
  "set_jank k v w = upd_sampling (\<lambda>s. s\<lparr>jankParamsMap := (jankParamsMap s)(k \<mapsto> v)\<rparr>) w"

text \<open>\<^term>\<open>Inl\<close> is an exception of the standard library that leaves the function.\<close>

definition UpdateJankParam :: "string \<Rightarrow> SampleJankParams \<Rightarrow> WatchdogInner \<Rightarrow> std_exception + WatchdogInner" where
  "UpdateJankParam param params w0 =
     (let w1 = set_jank KEY_LOG_TYPE (jp_logType params) w0 in
      if jp_logType params = LOGTYPE_COLLECT_TRACE then Inr w1
      else
        let w2 = set_jank KEY_AUTO_STOP_SAMPLING (jp_autoStopSampling params)
              (set_jank KEY_SAMPLE_COUNT (jp_sampleCount params)
                (set_jank KEY_IGNORE_STARTUP_TIME (jp_ignoreStartUpTime params)
                  (set_jank KEY_SAMPLE_INTERVAL (jp_sampleInterval params) w1))) in
        if jank KEY_SET_TIMES_FLAG (sampling w2) \<noteq> SET_TIMES_FLAG then Inr w2
        else
          case (if jp_eventType params = AUTO_STOP_EVENT_TYPE
                then Inr (jp_reportTimes params, AUTO_STOP_CHECKER_INTERVAL)
                else UpdateReportTimes param (bundleName w2)
                  (jp_reportTimes params, jank KEY_CHECKER_INTERVAL (sampling w2))) of
            Inl ex \<Rightarrow> Inl ex
          | Inr (rtimes, interval) \<Rightarrow>
              Inr (set_jank KEY_SET_TIMES_FLAG 0
                (upd_stack (\<lambda>c. c\<lparr>reportTimes := rtimes\<rparr>)
                  (set_jank KEY_SAMPLE_REPORT_TIMES rtimes (set_jank KEY_CHECKER_INTERVAL interval w2)))))"

text \<open>
  \<^verbatim>\<open>ConvertStrToNum\<close> without the string it returns for the log. At most nine digits are converted,
  which fit in an \<^verbatim>\<open>int\<close>.
\<close>

definition ConvertStrToNum :: "(string \<times> string) list \<Rightarrow> string \<Rightarrow> int \<Rightarrow> int" where
  "ConvertStrToNum paramsMap key defaultValue =
     (case map_of paramsMap key of
        None \<Rightarrow> if defaultValue < 0 then - 1 else defaultValue
      | Some val \<Rightarrow>
          if val = [] \<and> defaultValue \<ge> 0 then defaultValue
          else if val \<noteq> [] \<and> length val < 10 \<and> IsNum val then int (num_of_digits 0 val) else - 1)"

definition GetAutoStopSampling :: "(string \<times> string) list \<Rightarrow> int option" where
  "GetAutoStopSampling paramsMap =
     (let s = (case map_of paramsMap KEY_AUTO_STOP_SAMPLING of Some v \<Rightarrow> v | None \<Rightarrow> []) in
      if s \<noteq> [] \<and> s \<noteq> ''true'' \<and> s \<noteq> ''false'' then None else Some (if s = ''true'' then 1 else 0))"

definition CheckSampleParam ::
  "string \<Rightarrow> (string \<times> string) list \<Rightarrow> bool \<Rightarrow> WatchdogInner \<Rightarrow> std_exception + bool \<times> WatchdogInner" where
  "CheckSampleParam param paramsMap keyNeedExist w =
     (let dflt = (\<lambda>d. if keyNeedExist then - 1 else d);
          interval = ConvertStrToNum paramsMap KEY_SAMPLE_INTERVAL (dflt 150);
          ignore = ConvertStrToNum paramsMap KEY_IGNORE_STARTUP_TIME (dflt 10);
          cnt = ConvertStrToNum paramsMap KEY_SAMPLE_COUNT (dflt 10);
          rtimes = ConvertStrToNum paramsMap KEY_SAMPLE_REPORT_TIMES (dflt SAMPLE_DEFAULT_REPORT_TIMES) in
      if interval < SAMPLE_INTERVAL_MIN \<or> interval > SAMPLE_INTERVAL_MAX then Inr (False, w)
      else if ignore < IGNORE_STARTUP_TIME_MIN then Inr (False, w)
      else if cnt < SAMPLE_COUNT_MIN \<or> cnt > MAX_SAMPLE_STACK_TIMES div interval - SAMPLE_EXTRA_COUNT
        then Inr (False, w)
      else if rtimes < SAMPLE_REPORT_TIMES_MIN \<or> rtimes > SAMPLE_REPORT_TIMES_MAX then Inr (False, w)
      else case GetAutoStopSampling paramsMap of
          None \<Rightarrow> Inr (False, w)
        | Some autoStop \<Rightarrow>
            (case UpdateJankParam param \<lparr>jp_logType = LOGTYPE_SAMPLE_STACK, jp_ignoreStartUpTime = ignore,
                 jp_sampleInterval = interval, jp_sampleCount = cnt, jp_reportTimes = rtimes,
                 jp_autoStopSampling = autoStop, jp_eventType = (if keyNeedExist then 0 else AUTO_STOP_EVENT_TYPE)\<rparr> w of
               Inl ex \<Rightarrow> Inl ex
             | Inr w1 \<Rightarrow> Inr (True, w1)))"

definition SetEventConfig :: "string \<Rightarrow> (string \<times> string) list \<Rightarrow> WatchdogInner \<Rightarrow> std_exception + int \<times> WatchdogInner" where
  "SetEventConfig param paramsMap w =
     (if paramsMap = [] then Inr (- 1, w)
      else
        let logType = ConvertStrToNum paramsMap KEY_LOG_TYPE (- 1) in
        if logType = LOGTYPE_NONE \<or> logType = LOGTYPE_COLLECT_TRACE then
          if length paramsMap \<noteq> SAMPLE_TRACE_MAP_SIZE then Inr (- 1, w)
          else (case UpdateJankParam param (SampleJankParams_default\<lparr>jp_logType := logType\<rparr>) w of
              Inl ex \<Rightarrow> Inl ex
            | Inr w1 \<Rightarrow> Inr (0, w1))
        else if logType = LOGTYPE_SAMPLE_STACK then
          if length paramsMap \<noteq> SAMPLE_STACK_MAP_SIZE then Inr (- 1, w)
          else (case CheckSampleParam param paramsMap True w of
              Inl ex \<Rightarrow> Inl ex
            | Inr (ok, w1) \<Rightarrow> Inr (if ok then 0 else - 1, w1))
        else Inr (- 1, w))"

definition ConfigEventPolicy :: "string \<Rightarrow> (string \<times> string) list \<Rightarrow> WatchdogInner \<Rightarrow> std_exception + int \<times> WatchdogInner" where
  "ConfigEventPolicy param paramsMap w =
     (let logType = ConvertStrToNum paramsMap KEY_LOG_TYPE 0 in
      if logType = LOGTYPE_NONE \<or> logType = LOGTYPE_COLLECT_TRACE then
        let params = SampleJankParams_default\<lparr>jp_logType := logType, jp_eventType := AUTO_STOP_EVENT_TYPE\<rparr>;
            autoStop = (if logType = LOGTYPE_NONE then GetAutoStopSampling paramsMap else Some 0) in
        (case autoStop of
           None \<Rightarrow> Inr (- 1, w)
         | Some a \<Rightarrow>
             (case UpdateJankParam param (params\<lparr>jp_autoStopSampling := a\<rparr>) w of
                Inl ex \<Rightarrow> Inl ex
              | Inr w1 \<Rightarrow> Inr (0, w1)))
      else if logType = LOGTYPE_SAMPLE_STACK then
        (case CheckSampleParam param paramsMap False w of
           Inl ex \<Rightarrow> Inl ex
         | Inr (ok, w1) \<Rightarrow> Inr (if ok then 0 else - 1, w1))
      else Inr (- 1, w))"

section \<open>Lookups and frame\<close>

lemma jank_set [simp]: "jank k (sampling (set_jank k' v w)) = (if k = k' then v else jank k (sampling w))"
  by (simp add: jank_def set_jank_def)

lemma jank_stack [simp]: "jank k (sampling (upd_stack f w)) = jank k (sampling w)"
  by (simp add: jank_def upd_stack_def)

lemma set_jank_stack [simp]:
  "stackContent (sampling (set_jank k v w)) = stackContent (sampling w)"
  "stackContent (sampling (upd_stack f w)) = f (stackContent (sampling w))"
  "bundleName (set_jank k v w) = bundleName w"
  by (simp_all add: set_jank_def upd_stack_def, simp add: upd_sampling_def)

section \<open>The invariant of the configuration\<close>

text \<open>The sampling of one slow event, with four extra ticks, takes at most two and a half seconds.\<close>

definition sample_ok :: "int \<Rightarrow> int \<Rightarrow> int \<Rightarrow> int \<Rightarrow> bool" where
  "sample_ok interval ignore cnt auto \<longleftrightarrow> 50 \<le> interval \<and> interval \<le> 500 \<and> 3 \<le> ignore \<and> 1 \<le> cnt \<and>
     (cnt + 4) * interval \<le> 2500 \<and> auto \<in> {0, 1}"

definition log_ok :: "int \<Rightarrow> bool" where
  "log_ok l \<longleftrightarrow> l \<in> {LOGTYPE_NONE, LOGTYPE_SAMPLE_STACK, LOGTYPE_COLLECT_TRACE}"

definition jank_ok :: "WatchdogInner \<Rightarrow> bool" where
  "jank_ok w \<longleftrightarrow> log_ok (jank KEY_LOG_TYPE (sampling w)) \<and>
     sample_ok (jank KEY_SAMPLE_INTERVAL (sampling w)) (jank KEY_IGNORE_STARTUP_TIME (sampling w))
       (jank KEY_SAMPLE_COUNT (sampling w)) (jank KEY_AUTO_STOP_SAMPLING (sampling w))"

definition params_ok :: "SampleJankParams \<Rightarrow> bool" where
  "params_ok p \<longleftrightarrow> log_ok (jp_logType p) \<and>
     sample_ok (jp_sampleInterval p) (jp_ignoreStartUpTime p) (jp_sampleCount p) (jp_autoStopSampling p)"

lemma jank_ok_init: "jank_ok WatchdogInner_init"
  by (simp add: jank_ok_def sample_ok_def log_ok_def jank_constants WatchdogInner_init_def Sampling_init_def jank_def jankParamsMap_init_def)

lemma UpdateJankParam_ok:
  assumes "UpdateJankParam param p w = Inr w'" and "params_ok p" and "jank_ok w"
  shows "jank_ok w'"
  using assms
  by (auto simp: UpdateJankParam_def Let_def jank_ok_def params_ok_def split: if_splits sum.splits)

lemma UpdateJankParam_once:
  assumes "UpdateJankParam param p w = Inr w'" and "jank KEY_SET_TIMES_FLAG (sampling w) = 0"
  shows "jank KEY_SAMPLE_REPORT_TIMES (sampling w') = jank KEY_SAMPLE_REPORT_TIMES (sampling w) \<and>
    reportTimes (stackContent (sampling w')) = reportTimes (stackContent (sampling w)) \<and>
    jank KEY_SET_TIMES_FLAG (sampling w') = 0"
  using assms
  by (auto simp: UpdateJankParam_def Let_def jank_constants split: if_splits sum.splits)

lemma sample_count_bound:
  fixes c i :: int
  assumes "c \<le> 2500 div i - 4" and "50 \<le> i"
  shows "(c + 4) * i \<le> 2500"
proof -
  have "(c + 4) * i \<le> (2500 div i) * i" using assms by (intro mult_right_mono) auto
  also have "\<dots> \<le> 2500" using assms(2) by (simp add: minus_mod_eq_div_mult [symmetric])
  finally show ?thesis .
qed

lemma GetAutoStop_range: "GetAutoStopSampling ps = Some a \<Longrightarrow> a \<in> {0, 1}"
  by (auto simp: GetAutoStopSampling_def Let_def split: if_splits)

text \<open>What a change of the configuration keeps, from what \<^verbatim>\<open>UpdateJankParam\<close> keeps.\<close>

definition kept :: "WatchdogInner \<Rightarrow> bool \<Rightarrow> WatchdogInner \<Rightarrow> bool" where
  "kept w ok w' \<longleftrightarrow> jank_ok w' \<and> (\<not> ok \<longrightarrow> w' = w) \<and>
     (jank KEY_SET_TIMES_FLAG (sampling w) = 0 \<longrightarrow>
       jank KEY_SAMPLE_REPORT_TIMES (sampling w') = jank KEY_SAMPLE_REPORT_TIMES (sampling w) \<and>
       reportTimes (stackContent (sampling w')) = reportTimes (stackContent (sampling w)) \<and>
       jank KEY_SET_TIMES_FLAG (sampling w') = 0)"

lemma kept_Update:
  assumes "UpdateJankParam param p w = Inr w'" and "params_ok p" and "jank_ok w"
  shows "kept w True w'"
  using UpdateJankParam_ok [OF assms] UpdateJankParam_once [OF assms(1)] by (simp add: kept_def)

lemma kept_refused: "jank_ok w \<Longrightarrow> kept w False w"
  by (simp add: kept_def)

lemma kept_Check:
  assumes "CheckSampleParam param ps need w = Inr (ok, w')" and "jank_ok w"
  shows "kept w ok w'"
  using assms
  by (auto simp: CheckSampleParam_def Let_def kept_refused jank_constants split: if_splits option.splits sum.splits
      intro!: kept_Update simp: params_ok_def log_ok_def sample_ok_def sample_count_bound dest: GetAutoStop_range)

lemma defaults_ok: "log_ok l \<Longrightarrow> a \<in> {0, 1} \<Longrightarrow>
    params_ok (SampleJankParams_default\<lparr>jp_logType := l, jp_eventType := ev, jp_autoStopSampling := a\<rparr>)"
  "log_ok l \<Longrightarrow> params_ok (SampleJankParams_default\<lparr>jp_logType := l\<rparr>)"
  by (simp_all add: params_ok_def sample_ok_def SampleJankParams_default_def)

text \<open>
  Where the report times come from: they stay, or become a number from one to three, which without the automatic stop goes through the
  system parameter for the application first.
\<close>

definition times_ok :: "string \<Rightarrow> bool \<Rightarrow> WatchdogInner \<Rightarrow> WatchdogInner \<Rightarrow> bool" where
  "times_ok param auto w w' \<longleftrightarrow> (let rt = jank KEY_SAMPLE_REPORT_TIMES (sampling w') in
     rt = jank KEY_SAMPLE_REPORT_TIMES (sampling w) \<or>
     (\<exists>n \<in> {1..3}. if auto then rt = n else \<exists>c c'. UpdateReportTimes param (bundleName w) (n, c) = Inr (rt, c')))"

lemma times_same: "times_ok param auto w w"
  by (simp add: times_ok_def)

lemma times_Update:
  assumes "UpdateJankParam param p w = Inr w'" and "jp_reportTimes p \<in> {1..3}"
  shows "times_ok param (jp_eventType p = AUTO_STOP_EVENT_TYPE) w w'"
  using assms
  by (auto simp: UpdateJankParam_def times_ok_def Let_def split: if_splits sum.splits)

lemma Update_throws: "UpdateJankParam param p w = Inl ex \<Longrightarrow> jp_eventType p \<noteq> AUTO_STOP_EVENT_TYPE"
  by (auto simp: UpdateJankParam_def Let_def split: if_splits sum.splits)

lemma times_Check:
  assumes "CheckSampleParam param ps need w = Inr (ok, w')"
  shows "times_ok param (\<not> need) w w'"
proof -
  consider "w' = w" | p where "UpdateJankParam param p w = Inr w'" "jp_reportTimes p \<in> {1..3}"
    "jp_eventType p = (if need then 0 else AUTO_STOP_EVENT_TYPE)"
    using assms
    by (fastforce simp: CheckSampleParam_def Let_def SAMPLE_REPORT_TIMES_MIN_def SAMPLE_REPORT_TIMES_MAX_def not_less
        split: if_splits option.splits sum.splits)
  then show ?thesis
  proof cases
    case 1
    then show ?thesis by (simp add: times_same)
  next
    case 2
    from times_Update [OF this(1,2)] this(3) show ?thesis by (simp add: AUTO_STOP_EVENT_TYPE_def split: if_splits)
  qed
qed

lemma Check_throws: "CheckSampleParam param ps need w = Inl ex \<Longrightarrow> need"
  by (auto simp: CheckSampleParam_def Let_def split: if_splits option.splits sum.splits dest: Update_throws)

lemma default_times: "SAMPLE_DEFAULT_REPORT_TIMES \<in> {1..3}"
  by (simp add: SAMPLE_DEFAULT_REPORT_TIMES_def)

lemma times_Set:
  assumes "SetEventConfig param ps w = Inr (r, w')"
  shows "times_ok param False w w'"
proof -
  consider "w' = w" | l where "UpdateJankParam param (SampleJankParams_default\<lparr>jp_logType := l\<rparr>) w = Inr w'"
    | ok where "CheckSampleParam param ps True w = Inr (ok, w')"
    using assms by (auto simp: SetEventConfig_def Let_def split: if_splits sum.splits)
  then show ?thesis
  proof cases
    case 2
    from times_Update [OF this] default_times show ?thesis by (simp add: SampleJankParams_default_def AUTO_STOP_EVENT_TYPE_def)
  qed (use times_Check times_same in force)+
qed

lemma times_Config:
  assumes "ConfigEventPolicy param ps w = Inr (r, w')"
  shows "times_ok param True w w'"
proof -
  consider "w' = w" | l a where "UpdateJankParam param (SampleJankParams_default\<lparr>jp_logType := l, jp_eventType := AUTO_STOP_EVENT_TYPE,
        jp_autoStopSampling := a\<rparr>) w = Inr w'"
    | ok where "CheckSampleParam param ps False w = Inr (ok, w')"
    using assms by (auto simp: ConfigEventPolicy_def Let_def split: if_splits sum.splits option.splits)
  then show ?thesis
  proof cases
    case 2
    from times_Update [OF this] default_times show ?thesis by (simp add: SampleJankParams_default_def)
  qed (use times_Check times_same in force)+
qed

section \<open>Properties\<close>



lemma ConvertStrToNum_show:
  assumes "map_of ps k = Some (show_nat n)" and "n < 10 ^ 9"
  shows "ConvertStrToNum ps k d = int n"
proof -
  have "length (show_nat n) < 10" using length_show_nat [of n 9] assms(2) by simp
  moreover have "IsNum (show_nat n)" using show_nat_digits by (simp add: IsNum_def list_all_iff)
  ultimately show ?thesis using assms(1) by (simp add: ConvertStrToNum_def)
qed

text \<open>
  A map with the five documented keys and numbers in range, printed, is accepted, and the
  configuration then holds exactly these numbers.
\<close>

theorem sample_config_roundtrip:
  assumes "50 \<le> i" "i \<le> 500" "3 \<le> g" "g < 10 ^ 9" "1 \<le> c" "c \<le> 2500 div i - 4" "1 \<le> r" "r \<le> 3"
    and "jank KEY_SET_TIMES_FLAG (sampling w) \<noteq> SET_TIMES_FLAG"
  defines "ps \<equiv> [(KEY_LOG_TYPE, ''1''), (KEY_SAMPLE_INTERVAL, show_nat i), (KEY_IGNORE_STARTUP_TIME, show_nat g),
      (KEY_SAMPLE_COUNT, show_nat c), (KEY_SAMPLE_REPORT_TIMES, show_nat r)]"
  shows "\<exists>w'. SetEventConfig param ps w = Inr (0, w') \<and> jank KEY_LOG_TYPE (sampling w') = 1 \<and>
    jank KEY_SAMPLE_INTERVAL (sampling w') = int i \<and> jank KEY_IGNORE_STARTUP_TIME (sampling w') = int g \<and>
    jank KEY_SAMPLE_COUNT (sampling w') = int c \<and> jank KEY_AUTO_STOP_SAMPLING (sampling w') = 0"
proof -
  have "c \<le> 2500 div i" using assms(6) by simp
  also have "\<dots> \<le> 2500" by (rule div_le_dividend)
  finally have small: "i < 10 ^ 9" "c < 10 ^ 9" "r < 10 ^ 9" using assms(2,8) by simp_all
  have log: "ConvertStrToNum ps KEY_LOG_TYPE (- 1) = 1"
    by (simp add: ps_def ConvertStrToNum_def IsNum_def isdigit_def digit_val_def)
  have n: "ConvertStrToNum ps KEY_SAMPLE_INTERVAL (- 1) = int i"
    "ConvertStrToNum ps KEY_IGNORE_STARTUP_TIME (- 1) = int g" "ConvertStrToNum ps KEY_SAMPLE_COUNT (- 1) = int c"
    "ConvertStrToNum ps KEY_SAMPLE_REPORT_TIMES (- 1) = int r"
    using small assms(4) by (auto simp: ps_def intro!: ConvertStrToNum_show)
  have a: "GetAutoStopSampling ps = Some 0" by (simp add: GetAutoStopSampling_def ps_def)
  have cnt: "\<not> int c > 2500 div int i - 4" using assms(5,6) zdiv_int [of 2500 i] by simp
  have len: "ps \<noteq> []" "length ps = 5" by (simp_all add: ps_def)
  show ?thesis
    using assms(1-3,5,7-9) cnt
    by (simp add: SetEventConfig_def CheckSampleParam_def UpdateJankParam_def log n a len Let_def jank_constants)
qed

theorem sample_config_roundtrip_witness:
  "\<exists>w'. SetEventConfig [] [(KEY_LOG_TYPE, ''1''), (KEY_SAMPLE_INTERVAL, show_nat 100), (KEY_IGNORE_STARTUP_TIME, show_nat 12),
      (KEY_SAMPLE_COUNT, show_nat 21), (KEY_SAMPLE_REPORT_TIMES, show_nat 3)] (set_jank KEY_SET_TIMES_FLAG 0 WatchdogInner_init) =
      Inr (0, w') \<and> jank KEY_SAMPLE_COUNT (sampling w') = 21"
  using sample_config_roundtrip [of 100 12 21 3 "set_jank KEY_SET_TIMES_FLAG 0 WatchdogInner_init" "[]"]
  by (auto simp: SET_TIMES_FLAG_def)

end
