(* ===== verification/Client_Api.thy ===== *)
theory Client_Api
  imports Watchdog_Inner Jank_Params
begin

text \<open>
  The classes clients use: \<^verbatim>\<open>XCollie\<close> (\<^verbatim>\<open>xcollie.cpp\<close>), \<^verbatim>\<open>IpcFull\<close> (\<^verbatim>\<open>ipc_full.cpp\<close>) and the methods of
  \<^verbatim>\<open>Watchdog\<close> (\<^verbatim>\<open>watchdog.cpp\<close>) the C interface uses (the others are in \<open>Watchdog_Facade\<close>). They delegate to the singleton; what they add
  is the conversion of the units and of the widths of the integers. Seconds come as 32-bit unsigned
  numbers, become milliseconds in 64 bits, and are cut to 32 bits by the constructors of the tasks;
  ids come back as 64-bit numbers and are cut to an \<^verbatim>\<open>int\<close>.
\<close>

section \<open>Model\<close>

definition XCollie_SetTimer ::
  "env \<Rightarrow> stamp \<Rightarrow> string \<Rightarrow> u32 \<Rightarrow> nat option \<Rightarrow> nat \<Rightarrow> u32 \<Rightarrow> WatchdogInner \<Rightarrow> int \<times> WatchdogInner" where
  "XCollie_SetTimer e st nm timeout fn arg flag w =
     (case RunXCollieTask e st nm (ucast timeout * TO_MILLISECOND_MULTPLE) fn arg flag w of
        (r, w') \<Rightarrow> (to_int32 r, w'))"

definition XCollie_CancelTimer :: "int \<Rightarrow> WatchdogInner \<Rightarrow> WatchdogInner" where
  "XCollie_CancelTimer i w = RemoveXCollieTask i w"

text \<open>The two C functions behind the binding for Rust; the name comes as a C string.\<close>

definition SetTimerRust ::
  "env \<Rightarrow> stamp \<Rightarrow> string \<Rightarrow> u32 \<Rightarrow> nat option \<Rightarrow> nat \<Rightarrow> u32 \<Rightarrow> WatchdogInner \<Rightarrow> int \<times> WatchdogInner" where
  "SetTimerRust e st data timeout fn arg flag w =
     XCollie_SetTimer e st (takeWhile (\<lambda>c. c \<noteq> CHR 0x00) data) timeout fn arg flag w"

definition CancelTimerRust :: "int \<Rightarrow> WatchdogInner \<Rightarrow> WatchdogInner" where
  "CancelTimerRust i w = XCollie_CancelTimer i w"

definition XCollie_SetTimerCount ::
  "env \<Rightarrow> stamp \<Rightarrow> string \<Rightarrow> u32 \<Rightarrow> int \<Rightarrow> WatchdogInner \<Rightarrow> int \<times> WatchdogInner" where
  "XCollie_SetTimerCount e st nm tlim clim w =
     (case SetTimerCountTask e st nm (ucast tlim * TO_MILLISECOND_MULTPLE) clim w of
        (r, w') \<Rightarrow> (to_int32 r, w'))"

definition XCollie_TriggerTimerCount :: "u64 \<Rightarrow> string \<Rightarrow> bool \<Rightarrow> string \<Rightarrow> WatchdogInner \<Rightarrow> WatchdogInner" where
  "XCollie_TriggerTimerCount now nm bTrigger msg w = TriggerTimerCountTask now nm bTrigger msg w"

definition IpcFull_AddIpcFull ::
  "env \<Rightarrow> stamp \<Rightarrow> nat \<Rightarrow> u64 \<Rightarrow> u32 \<Rightarrow> nat option \<Rightarrow> nat \<Rightarrow> WatchdogInner \<Rightarrow> bool \<times> WatchdogInner" where
  "IpcFull_AddIpcFull e st fresh interval flag fn arg w = AddIpcFull e st fresh interval flag fn arg w"

definition IpcFull_AsyncBinderSpaceFull ::
  "env \<Rightarrow> stamp \<Rightarrow> u64 \<Rightarrow> u32 \<Rightarrow> u32 \<Rightarrow> nat option \<Rightarrow> nat \<Rightarrow> WatchdogInner \<Rightarrow> bool \<times> WatchdogInner" where
  "IpcFull_AsyncBinderSpaceFull e st interval cnt flag fn arg w =
     (if ASYNC_BINDER_SPACE_FULL e then AsyncBinderSpaceFull e st interval cnt flag fn arg w else (False, w))"

definition PRIORITY_IMMEDIATE :: nat where "PRIORITY_IMMEDIATE = 1"

text \<open>The three overloads of \<^verbatim>\<open>Watchdog::AddThread\<close>; the first two take the default priority.\<close>

definition Watchdog_AddThread_cb ::
  "env \<Rightarrow> stamp \<Rightarrow> string \<Rightarrow> nat option \<Rightarrow> nat option \<Rightarrow> u64 \<Rightarrow> WatchdogInner \<Rightarrow> int \<times> WatchdogInner" where
  "Watchdog_AddThread_cb e st nm handler cb interval w = AddThread e st nm handler cb interval PRIORITY_IMMEDIATE w"

definition Watchdog_AddThread ::
  "env \<Rightarrow> stamp \<Rightarrow> string \<Rightarrow> nat option \<Rightarrow> u64 \<Rightarrow> WatchdogInner \<Rightarrow> int \<times> WatchdogInner" where
  "Watchdog_AddThread e st nm handler interval w = AddThread e st nm handler None interval PRIORITY_IMMEDIATE w"

definition Watchdog_AddThread_prio ::
  "env \<Rightarrow> stamp \<Rightarrow> string \<Rightarrow> nat option \<Rightarrow> nat option \<Rightarrow> u64 \<Rightarrow> nat \<Rightarrow> WatchdogInner \<Rightarrow> int \<times> WatchdogInner" where
  "Watchdog_AddThread_prio e st nm handler cb interval priority w = AddThread e st nm handler cb interval priority w"

definition Watchdog_RunPeriodicalTask ::
  "env \<Rightarrow> stamp \<Rightarrow> string \<Rightarrow> task_fn option \<Rightarrow> u64 \<Rightarrow> u64 \<Rightarrow> WatchdogInner \<Rightarrow> WatchdogInner" where
  "Watchdog_RunPeriodicalTask e st nm tsk interval delay w = RunPeriodicalTask e st nm tsk interval delay w"

definition Watchdog_RemovePeriodicalTask :: "string \<Rightarrow> WatchdogInner \<Rightarrow> WatchdogInner" where
  "Watchdog_RemovePeriodicalTask nm w = snd (RemoveInnerTask nm w)"

definition Watchdog_RemoveThread :: "string \<Rightarrow> WatchdogInner \<Rightarrow> WatchdogInner" where
  "Watchdog_RemoveThread nm w = snd (RemoveInnerTask nm w)"

section \<open>Properties\<close>

lemma unat_less_32: "unat (x :: u32) < 2 ^ 32"
  using unsigned_less [of x] by simp

lemma coprime_power_two_125: "coprime ((2::nat) ^ k) 125"
proof -
  have "coprime (125::nat) 2" by (simp add: coprime_right_2_iff_odd)
  then show ?thesis by (simp add: coprime_commute)
qed

lemma seconds_vanish: "2 ^ 32 dvd n * 1000 \<longleftrightarrow> 2 ^ 29 dvd (n :: nat)"
proof -
  have "(2::nat) ^ 32 = 2 ^ 29 * 8" "n * 1000 = (n * 125) * 8" by simp_all
  then have "2 ^ 32 dvd n * 1000 \<longleftrightarrow> 2 ^ 29 * 8 dvd (n * 125) * 8" by (simp only:)
  also have "\<dots> \<longleftrightarrow> 2 ^ 29 dvd n * 125" by (subst dvd_times_right_cancel_iff) simp_all
  also have "\<dots> \<longleftrightarrow> 2 ^ 29 dvd n" by (rule coprime_dvd_mult_left_iff [OF coprime_power_two_125])
  finally show ?thesis .
qed

lemma unat_ms: "unat (ucast (timeout :: u32) * TO_MILLISECOND_MULTPLE :: u64) = unat timeout * 1000"
  using unat_less_32 [of timeout] by (simp add: TO_MILLISECOND_MULTPLE_def unat_word_ariths unat_ucast_mod)

lemma unat_cut:
  "unat (ucast (ucast (ucast (timeout :: u32) * TO_MILLISECOND_MULTPLE :: u64) :: u32) :: u64) = unat timeout * 1000 mod 2 ^ 32"
  by (simp add: unat_ucast_mod unat_ms)

lemma cut_zero_iff:
  "(ucast (ucast (ucast (timeout :: u32) * TO_MILLISECOND_MULTPLE :: u64) :: u32) :: u64) = 0 \<longleftrightarrow> 2 ^ 29 dvd unat timeout"
  using unat_cut [of timeout] seconds_vanish [of "unat timeout"] by (metis dvd_eq_mod_eq_0 unat_0 unat_eq_zero)

text \<open>
  The timeout of a timer is given in seconds as a 32-bit number and its milliseconds are cut to
  32 bits: up to 4294967 seconds the timer has the timeout asked for and its id cancels it; beyond,
  it is due after the remainder modulo \<open>2 ^ 32\<close> milliseconds, and when that is zero the timer cannot
  be cancelled.
\<close>

theorem timer_seconds:
  assumes "wd_inv fl w" and "curId w < 2 ^ 31 - 1" and "XCollie_SetTimer e st nm timeout fn arg flag w = (r, w')" and "0 < r"
  shows "\<exists>t. mset (checkerQueue w') = add_mset t (mset (checkerQueue w)) \<and> task_id t = r \<and>
    unat (task_timeout t) = unat timeout * 1000 mod 2 ^ 32 \<and> nextTickTime t = st_now st + task_timeout t \<and>
    (unat (task_timeout t) = unat timeout * 1000 \<longleftrightarrow> unat timeout \<le> 4294967) \<and>
    mset (checkerQueue (XCollie_CancelTimer r w')) =
      (if 2 ^ 29 dvd unat timeout then add_mset t (mset (checkerQueue w)) else mset (checkerQueue w))"
proof -
  let ?ms = "ucast timeout * TO_MILLISECOND_MULTPLE :: u64"
  obtain q where run: "RunXCollieTask e st nm ?ms fn arg flag w = (q, w')" and r: "r = to_int32 q"
    using assms(3) by (auto simp: XCollie_SetTimer_def split: prod.splits)
  have "q = 0 \<or> q = - 1 \<or> 0 < q"
    using run assms(1) by (auto simp: RunXCollieTask_def INVALID_ID_def InsertWatchdogTaskLocked_def Let_def
        split_beta task_constructors wd_inv_def split: if_splits)
  then have pos: "0 < q" using r assms(4) by (auto simp: to_int32_def)
  note t = RunXCollie_accepted [OF run pos]
  have rq: "r = curId w + 1" using r t(3) assms(1,2) by (simp add: to_int32_def wd_inv_def)
  let ?t = "new_timer e st nm ?ms fn arg flag w"
  have tt: "unat (task_timeout ?t) = unat timeout * 1000 mod 2 ^ 32" by (simp add: unat_cut)
  have "unat timeout * 1000 mod 2 ^ 32 = unat timeout * 1000 \<longleftrightarrow> unat timeout \<le> 4294967"
    by (auto simp: mod_eq_self_iff_div_eq_0)
  moreover have "task_timeout ?t = 0 \<longleftrightarrow> 2 ^ 29 dvd unat timeout" by (simp only: new_timer_sel cut_zero_iff)
  ultimately show ?thesis
    using t(4) tt rq cancel_new_timer(1) [OF assms(1) t(4)]
    by (intro exI [of _ ?t]) (auto simp: XCollie_CancelTimer_def)
qed

theorem timer_seconds_witness:
  "\<exists>t. mset (checkerQueue (snd (XCollie_SetTimer service_env demo_stamp ''t'' 4294968 None 0 0 WatchdogInner_init))) = {#t#} \<and>
     task_timeout t = 704"
proof -
  let ?r = "XCollie_SetTimer service_env demo_stamp ''t'' 4294968 None 0 0 WatchdogInner_init"
  have "?r = (1, snd ?r)"
    by (simp add: XCollie_SetTimer_def RunXCollieTask_def demo_defs new_id_def InsertWatchdogTaskLocked_def to_int32_def
      IsExceedMaxTaskLocked_def MAX_WATCH_NUM_def Let_def task_constructors TO_MILLISECOND_MULTPLE_def)
  then obtain t where q: "mset (checkerQueue (snd ?r)) = {#t#}" and t: "unat (task_timeout t) = 4294968 * 1000 mod 2 ^ 32"
    using timer_seconds [OF wd_inv_init, of service_env demo_stamp "''t''" 4294968 None 0 0 1 "snd ?r"]
    by (auto simp: WatchdogInner_init_def)
  have "task_timeout t = 704" using t by (simp add: word_unat_eq_iff)
  with q show ?thesis by blast
qed

end
