(* ===== verification/Xcollie_Mgr.thy ===== *)
theory Xcollie_Mgr
  imports Prelude
begin

text \<open>
  \<^verbatim>\<open>XcollieMgr\<close> (\<^verbatim>\<open>xcollie_mgr.cpp\<close>): the callback an application registers to add its own log to a
  freeze report, the limit of one call per minute and kind of fault, and the protocol with the
  worker thread that runs the callback on a mapped buffer. What the worker does is a reading: the
  mapping may fail, the callback returns a size and leaves a buffer, and it may not be done within
  the second the caller waits.
\<close>

section \<open>Model\<close>

record XcollieMgr =
  lastCallTime :: "int \<rightharpoonup> int"
  mgr_handler :: "nat option"

definition XcollieMgr_init :: XcollieMgr where
  "XcollieMgr_init = \<lparr>lastCallTime = Map.empty, mgr_handler = None\<rparr>"

definition COUNT_OF_FAULT_TYPE :: int where "COUNT_OF_FAULT_TYPE = 8"
definition MAX_BUFFER_SIZE :: nat where "MAX_BUFFER_SIZE = 64 * 1024"

definition SetHandler :: "nat option \<Rightarrow> XcollieMgr \<Rightarrow> nat option \<times> XcollieMgr" where
  "SetHandler handler m = (mgr_handler m, m\<lparr>mgr_handler := handler\<rparr>)"

text \<open>An absent entry of the map reads as zero.\<close>

definition CheckCallDuration :: "int \<Rightarrow> int \<Rightarrow> XcollieMgr \<Rightarrow> bool \<times> XcollieMgr" where
  "CheckCallDuration now type m =
     (let last = (case lastCallTime m type of Some t \<Rightarrow> t | None \<Rightarrow> 0) in
      if now - last > 60 * 1000 then (True, m\<lparr>lastCallTime := (lastCallTime m)(type \<mapsto> now)\<rparr>)
      else (False, m\<lparr>lastCallTime := (lastCallTime m)(type \<mapsto> last)\<rparr>))"

text \<open>
  The worker: \<open>wk_size\<close> is what the callback returns, \<open>wk_buffer\<close> the \<^verbatim>\<open>MAX_BUFFER_SIZE\<close> bytes it leaves,
  \<open>wk_intime\<close> tells whether it is done before the caller gives up.
\<close>

record worker =
  wk_mmap :: bool
  wk_size :: nat
  wk_buffer :: string
  wk_intime :: bool

text \<open>
  Reading the buffer as a C string; without a terminating NUL it runs past the mapping, which is
  \<^term>\<open>None\<close>.
\<close>

definition c_string :: "string \<Rightarrow> string option" where
  "c_string buf = (if CHR 0x00 \<in> set buf then Some (takeWhile (\<lambda>c. c \<noteq> CHR 0x00) buf) else None)"

text \<open>What the worker leaves in the shared state: whether it is ready, and the result.\<close>

definition run_worker :: "worker \<Rightarrow> (bool \<times> string) option" where
  "run_worker k =
     (if \<not> wk_mmap k then Some (True, [])
      else if wk_size k > MAX_BUFFER_SIZE then Some (False, [])
      else case c_string (wk_buffer k) of Some s \<Rightarrow> Some (True, s) | None \<Rightarrow> None)"

definition ReadDataFromBuffer :: "int \<Rightarrow> worker \<Rightarrow> int \<Rightarrow> XcollieMgr \<Rightarrow> string option \<times> XcollieMgr" where
  "ReadDataFromBuffer now k type m =
     (if type < 0 \<or> type \<ge> COUNT_OF_FAULT_TYPE then (Some [], m)
      else case CheckCallDuration now type m of
          (False, m1) \<Rightarrow> (Some [], m1)
        | (True, m1) \<Rightarrow>
            (case mgr_handler m1 of
               None \<Rightarrow> (Some [], m1)
             | Some _ \<Rightarrow>
                 (case run_worker k of
                    None \<Rightarrow> (None, m1)
                  | Some (ready, result) \<Rightarrow> (Some (if ready \<and> wk_intime k then result else []), m1))))"

section \<open>Sequences of calls\<close>

text \<open>
  The times of the calls that got through the limit, newest first, for a sequence of calls of one
  kind.
\<close>

fun calls_through :: "int \<Rightarrow> int list \<Rightarrow> XcollieMgr \<Rightarrow> int list" where
  "calls_through type [] m = []"
| "calls_through type (now # ns) m =
     (case CheckCallDuration now type m of
        (True, m1) \<Rightarrow> now # calls_through type ns m1
      | (False, m1) \<Rightarrow> calls_through type ns m1)"

definition last_call :: "int \<Rightarrow> XcollieMgr \<Rightarrow> int" where
  "last_call type m = (case lastCallTime m type of Some t \<Rightarrow> t | None \<Rightarrow> 0)"

lemma CheckCallDuration_last:
  "last_call type (snd (CheckCallDuration now type m)) =
     (if fst (CheckCallDuration now type m) then now else last_call type m)"
  "fst (CheckCallDuration now type m) \<longleftrightarrow> now - last_call type m > 60000"
  by (auto simp: CheckCallDuration_def last_call_def Let_def split: option.split)

lemma calls_through_spaced:
  "successively (\<lambda>a b. b - a > 60000) (last_call type m # calls_through type ns m)"
proof (induction ns arbitrary: m)
  case (Cons now ns)
  show ?case using Cons [of "snd (CheckCallDuration now type m)"] CheckCallDuration_last [where type = type and now = now and m = m]
    by (auto split: prod.splits bool.splits)
qed simp

section \<open>Properties\<close>

text \<open>
  The callback of an application is asked at most once in a minute for each kind of fault: two
  calls of a kind that get through are more than sixty seconds apart. What is returned is at most
  one buffer long, and empty whenever the kind is unknown, no callback is set, the callback is late
  or claims more than the buffer.
\<close>

theorem freeze_callback_limited:
  assumes "length (wk_buffer k) \<le> MAX_BUFFER_SIZE" and "ReadDataFromBuffer now k type m = (Some s, m')"
  shows "successively (\<lambda>a b. b - a > 60000) (calls_through type ns m) \<and>
    length s < MAX_BUFFER_SIZE \<and> mgr_handler m' = mgr_handler m \<and>
    (s \<noteq> [] \<longrightarrow> 0 \<le> type \<and> type < 8 \<and> mgr_handler m \<noteq> None \<and> wk_intime k \<and> wk_size k \<le> MAX_BUFFER_SIZE \<and>
      now - last_call type m > 60000)"
proof -
  have "successively (\<lambda>a b. b - a > 60000) (calls_through type ns m)"
    using calls_through_spaced [of type m ns] by (cases "calls_through type ns m") auto
  moreover have "length t < MAX_BUFFER_SIZE" if "c_string (wk_buffer k) = Some t" for t
  proof -
    have "length (takeWhile (\<lambda>c. c \<noteq> CHR 0x00) b) < length b" if "CHR 0x00 \<in> set b" for b
      using that by (induction b) auto
    then show ?thesis using that assms(1) by (fastforce simp: c_string_def split: if_splits)
  qed
  moreover have "mgr_handler (snd (CheckCallDuration now type m)) = mgr_handler m"
    by (simp add: CheckCallDuration_def Let_def)
  moreover have "0 < MAX_BUFFER_SIZE" by (simp add: MAX_BUFFER_SIZE_def)
  ultimately show ?thesis
    using assms(2) CheckCallDuration_last(2) [of now type m]
    by (auto simp: ReadDataFromBuffer_def run_worker_def COUNT_OF_FAULT_TYPE_def
        split: if_splits option.splits bool.splits prod.splits) metis
qed

theorem freeze_callback_limited_witness:
  "length ''log'' < MAX_BUFFER_SIZE \<and> calls_through 5 [70000, 100000, 130001] XcollieMgr_init = [70000, 130001]"
proof -
  let ?k = "\<lparr>wk_mmap = True, wk_size = 4, wk_buffer = ''log'' @ [CHR 0x00], wk_intime = True\<rparr>"
  let ?m = "XcollieMgr_init\<lparr>mgr_handler := Some 1\<rparr>"
  have "ReadDataFromBuffer 70000 ?k 5 ?m = (Some ''log'', snd (ReadDataFromBuffer 70000 ?k 5 ?m))"
    by (simp add: ReadDataFromBuffer_def CheckCallDuration_def run_worker_def c_string_def XcollieMgr_init_def
        COUNT_OF_FAULT_TYPE_def MAX_BUFFER_SIZE_def)
  then have "length ''log'' < MAX_BUFFER_SIZE"
    using freeze_callback_limited [of ?k 70000 5 ?m "''log''"] by (simp add: MAX_BUFFER_SIZE_def)
  moreover have "calls_through 5 [70000, 100000, 130001] XcollieMgr_init = [70000, 130001]"
    by (simp add: CheckCallDuration_def XcollieMgr_init_def)
  ultimately show ?thesis by simp
qed

end
