(* ===== verification/Ndk_Hicollie.thy ===== *)
theory Ndk_Hicollie
  imports Client_Api Xcollie_Mgr
begin

text \<open>
  The C interface (\<^verbatim>\<open>interfaces/ndk/hicollie.cpp\<close>): the detection of a stuck business thread and its
  reports of three and six seconds, the reports on behalf of another process, timers, and the freeze
  callback. The state is that of the watchdog, of the callback manager and of the static variables
  of the file; the faults handed to the application manager and the events written are recorded in
  their order; members of a fault that the code leaves at their default are zero or empty. The build
  is the one without \<^verbatim>\<open>SUPPORT_ASAN\<close>.
\<close>

section \<open>State\<close>

datatype HiCollie_ErrorCode =
    HICOLLIE_SUCCESS
  | HICOLLIE_INVALID_ARGUMENT
  | HICOLLIE_WRONG_THREAD_CONTEXT
  | HICOLLIE_REMOTE_FAILED
  | HICOLLIE_INVALID_TIMER_NAME
  | HICOLLIE_INVALID_TIMEOUT_VALUE
  | HICOLLIE_WRONG_PROCESS_CONTEXT
  | HICOLLIE_WRONG_TIMER_ID_OUTPUT_PARAM
  | OH_HICOLLIE_REACH_REPORT_LIMIT

record FaultData =
  fd_name :: string
  fd_forceExit :: bool
  fd_message :: string
  fd_tid :: int
  fd_stuckTimeout :: u32
  fd_procStatm :: string
  fd_callbackLog :: string

record SysEvent =
  se_name :: string
  se_pid :: int
  se_uid :: int
  se_log :: string
  se_process :: string

record Ndk =
  wd :: WatchdogInner
  mgr :: XcollieMgr
  g_bussinessTid :: int
  g_stuckTimeout :: u32
  g_lastWatchTime :: int
  g_backgroundReportCount :: int
  g_lastWatchTimeReport3S :: int
  g_lastWatchTimeReport6S :: int
  faults :: "FaultData list"
  events :: "SysEvent list"

definition Ndk_init :: "WatchdogInner \<Rightarrow> Ndk" where
  "Ndk_init w = \<lparr>wd = w, mgr = XcollieMgr_init, g_bussinessTid = 0, g_stuckTimeout = 0, g_lastWatchTime = 0,
     g_backgroundReportCount = 0, g_lastWatchTimeReport3S = 0, g_lastWatchTimeReport6S = 0, faults = [], events = []\<rparr>"

text \<open>
  What a call reads: the thread it runs on, clocks, the answer of the application manager, files of
  the proc file system, and the worker that runs the freeze callback.
\<close>

record ndk_in =
  ni_tid :: int
  ni_now :: int
  ni_now2 :: int
  ni_steady :: int
  ni_time :: string
  ni_notify :: int
  ni_statm :: "string option"
  ni_status :: "string option"
  ni_worker :: worker
  ni_stamp :: stamp

section \<open>Threads and processes\<close>

definition ARKWEB_UID_START :: nat where "ARKWEB_UID_START = 20100000"
definition ARKWEB_UID_END :: nat where "ARKWEB_UID_END = 20109999"

definition IsAppMainThread :: "env \<Rightarrow> ndk_in \<Rightarrow> bool" where
  "IsAppMainThread e i \<longleftrightarrow> getprocpid e = ni_tid i \<and> getuid e \<ge> MIN_APP_UID"

definition IsArkWebThread :: "env \<Rightarrow> bool" where
  "IsArkWebThread e \<longleftrightarrow> getuid e \<ge> ARKWEB_UID_START \<and> getuid e \<le> ARKWEB_UID_END"

text \<open>
  \<^verbatim>\<open>std::from_chars\<close> for an \<^verbatim>\<open>int\<close>: an optional minus sign and digits at the very beginning; it does not
  skip white space.
\<close>

definition from_chars_int :: "string \<Rightarrow> int option" where
  "from_chars_int s =
     (let neg = (s \<noteq> [] \<and> hd s = CHR ''-''); ds = takeWhile isdigit (if neg then tl s else s);
          v = (if neg then - int (num_of_digits 0 ds) else int (num_of_digits 0 ds)) in
      if ds = [] \<or> v < - (2 ^ 31) \<or> v \<ge> 2 ^ 31 then None else Some v)"

function nspid_scan :: "string \<Rightarrow> int" where
  "nspid_scan content =
     (if content = [] then 0
      else
        let line = takeWhile (\<lambda>c. c \<noteq> CHR 0x0A) content; rest = drop (length line + 1) content in
        if str_find line ''NSpid:'' 0 \<noteq> Some 0 then nspid_scan rest
        else case str_find line '':'' 0 of
            None \<Rightarrow> nspid_scan rest
          | Some pos \<Rightarrow> (case from_chars_int (drop (pos + 1) line) of None \<Rightarrow> - 1 | Some v \<Rightarrow> v))"
  by auto
termination by (relation "measure length") auto

declare nspid_scan.simps [simp del]

definition GetNSPid :: "ndk_in \<Rightarrow> int" where
  "GetNSPid i = (case ni_status i of None \<Rightarrow> 0 | Some content \<Rightarrow> nspid_scan content)"

section \<open>Reports\<close>

definition RATIO :: u32 where "RATIO = 2"
definition BACKGROUND_REPORT_COUNT_MAX :: int where "BACKGROUND_REPORT_COUNT_MAX = 5"
definition BUSINESS_THREAD_BLOCK_3S_TYPE :: int where "BUSINESS_THREAD_BLOCK_3S_TYPE = 5"
definition BUSINESS_THREAD_BLOCK_6S_TYPE :: int where "BUSINESS_THREAD_BLOCK_6S_TYPE = 6"
definition BUSINESS_INPUT_BLOCK_TYPE :: int where "BUSINESS_INPUT_BLOCK_TYPE = 7"

definition CheckManualReportDuration :: "ndk_in \<Rightarrow> bool \<Rightarrow> Ndk \<Rightarrow> bool \<times> Ndk" where
  "CheckManualReportDuration i isFreezeEvent n =
     (if ni_steady i - (if isFreezeEvent then g_lastWatchTimeReport6S n else g_lastWatchTimeReport3S n) > 60000
      then (True, if isFreezeEvent then n\<lparr>g_lastWatchTimeReport6S := ni_steady i\<rparr>
                  else n\<lparr>g_lastWatchTimeReport3S := ni_steady i\<rparr>)
      else (False, n))"

definition CheckInBackGround :: "ndk_in \<Rightarrow> Ndk \<Rightarrow> bool \<times> Ndk" where
  "CheckInBackGround i n =
     (let n1 = (if ni_now i - g_lastWatchTime n > int (unat (RATIO * g_stuckTimeout n))
                then n\<lparr>g_backgroundReportCount := 0\<rparr> else n) in
      if \<not> isForeground (wd n1) \<and> g_backgroundReportCount n1 < BACKGROUND_REPORT_COUNT_MAX
      then (True, n1\<lparr>g_backgroundReportCount := g_backgroundReportCount n1 + 1, g_lastWatchTime := ni_now i\<rparr>)
      else (False, n1))"

text \<open>The log of the freeze callback; a buffer without NUL makes the whole report undefined.\<close>

definition read_log :: "ndk_in \<Rightarrow> int \<Rightarrow> Ndk \<Rightarrow> (string \<times> Ndk) option" where
  "read_log i type n =
     (case ReadDataFromBuffer (ni_steady i) (ni_worker i) type (mgr n) of
        (None, _) \<Rightarrow> None
      | (Some s, m) \<Rightarrow> Some (s, n\<lparr>mgr := m\<rparr>))"

definition fault_tid :: "env \<Rightarrow> Ndk \<Rightarrow> int" where
  "fault_tid e n = (if g_bussinessTid n > 0 then g_bussinessTid n else getprocpid e)"

definition fault_stamp :: "ndk_in \<Rightarrow> string" where
  "fault_stamp i = [CHR 0x0A] @ ''FaultTime:'' @ ni_time i @ [CHR 0x0A]"

text \<open>\<^verbatim>\<open>Report\<close>: the result, the new value of \<^verbatim>\<open>*isSixSecond\<close>, and the state.\<close>

definition report_fault :: "env \<Rightarrow> ndk_in \<Rightarrow> bool \<Rightarrow> string \<Rightarrow> Ndk \<Rightarrow> FaultData" where
  "report_fault e i six log n =
     \<lparr>fd_name = (if six then ''BUSSINESS_THREAD_BLOCK_6S'' else ''BUSSINESS_THREAD_BLOCK_3S''), fd_forceExit = six,
      fd_message = fault_stamp i @ ''Bussiness thread is not response, timeout '' @
        show_int (to_int32 (uint (if six then g_stuckTimeout n * RATIO else g_stuckTimeout n))) @ ''ms.'' @ [CHR 0x0A],
      fd_tid = fault_tid e n, fd_stuckTimeout = g_stuckTimeout n,
      fd_procStatm = (if six then case ni_statm i of Some s \<Rightarrow> s | None \<Rightarrow> [] else []), fd_callbackLog = log\<rparr>"

definition Report :: "env \<Rightarrow> ndk_in \<Rightarrow> bool \<Rightarrow> Ndk \<Rightarrow> (int \<times> bool \<times> Ndk) option" where
  "Report e i six n0 =
     (case CheckInBackGround i n0 of
        (True, n1) \<Rightarrow> Some (0, six, n1)
      | (False, n1) \<Rightarrow>
          (case read_log i (if six then BUSINESS_THREAD_BLOCK_6S_TYPE else BUSINESS_THREAD_BLOCK_3S_TYPE)
              (n1\<lparr>g_backgroundReportCount := g_backgroundReportCount n1 + 1\<rparr>) of
             None \<Rightarrow> None
           | Some (log, n2) \<Rightarrow>
               let n3 = n2\<lparr>faults := faults n2 @ [report_fault e i six log n2]\<rparr>;
                   d = ni_now2 i - g_lastWatchTime n3;
                   n4 = (if d < 0 \<or> d \<ge> int (unat (g_stuckTimeout n3 div RATIO))
                         then n3\<lparr>g_lastWatchTime := ni_now2 i\<rparr> else n3)
               in Some (ni_notify i, \<not> six, n4)))"

definition ReportInputBlock :: "env \<Rightarrow> ndk_in \<Rightarrow> Ndk \<Rightarrow> (int \<times> Ndk) option" where
  "ReportInputBlock e i n =
     (case read_log i BUSINESS_INPUT_BLOCK_TYPE n of
        None \<Rightarrow> None
      | Some (log, n1) \<Rightarrow>
          Some (ni_notify i, n1\<lparr>faults := faults n1 @ [\<lparr>fd_name = ''BUSINESS_INPUT_BLOCK'', fd_forceExit = False,
            fd_message = fault_stamp i @ ''Business thread is not response'' @ [CHR 0xEF, CHR 0xBC, CHR 0x8C] @
              ''dialog popup.'' @ [CHR 0x0A],
            fd_tid = fault_tid e n1, fd_stuckTimeout = 0, fd_procStatm = [], fd_callbackLog = log\<rparr>]\<rparr>))"

definition ReportEvent :: "env \<Rightarrow> ndk_in \<Rightarrow> bool \<Rightarrow> Ndk \<Rightarrow> (int \<times> Ndk) option" where
  "ReportEvent e i isFreezeEvent n =
     (case CheckManualReportDuration i isFreezeEvent n of
        (False, n1) \<Rightarrow> Some (- 1, n1)
      | (True, n1) \<Rightarrow>
          (case read_log i (if isFreezeEvent then BUSINESS_THREAD_BLOCK_6S_TYPE else BUSINESS_THREAD_BLOCK_3S_TYPE) n1 of
             None \<Rightarrow> None
           | Some (log, n2) \<Rightarrow>
               let pid = (if IsArkWebThread e then GetNSPid i else getprocpid e)
               in Some (0, n2\<lparr>events := events n2 @
                    [\<lparr>se_name = (if isFreezeEvent then ''BUSSINESS_THREAD_BLOCK_6S'' else ''BUSSINESS_THREAD_BLOCK_3S''),
                      se_pid = pid, se_uid = int (getuid e), se_log = log, se_process = procCmdlineName e\<rparr>]\<rparr>)))"

section \<open>The interface\<close>

definition CHECK_INTERVAL_TIME :: u32 where "CHECK_INTERVAL_TIME = 3000"
definition TIME_S_TO_MS :: u32 where "TIME_S_TO_MS = 1000"
definition MAX_TIMEOUT :: u32 where "MAX_TIMEOUT = 15000"
definition INI_TIMER_FIRST_SECOND :: u64 where "INI_TIMER_FIRST_SECOND = 10000"

abbreviation (input) BussinessWatchdog :: string where "BussinessWatchdog \<equiv> ''BussinessWatchdog''"

definition InitStuckDetection ::
  "env \<Rightarrow> ndk_in \<Rightarrow> task_fn option \<Rightarrow> u32 \<Rightarrow> Ndk \<Rightarrow> HiCollie_ErrorCode \<times> Ndk" where
  "InitStuckDetection e i tsk timeout n =
     (if IsAppMainThread e i then (HICOLLIE_WRONG_THREAD_CONTEXT, n)
      else if tsk = None then
        (HICOLLIE_SUCCESS, n\<lparr>g_stuckTimeout := 0, g_bussinessTid := 0,
           wd := Watchdog_RemovePeriodicalTask BussinessWatchdog (wd n)\<rparr>)
      else
        let w = (if g_stuckTimeout n \<noteq> 0 then Watchdog_RemovePeriodicalTask BussinessWatchdog (wd n) else wd n)
        in (HICOLLIE_SUCCESS, n\<lparr>g_stuckTimeout := timeout, g_lastWatchTime := 0, g_backgroundReportCount := 0,
             g_bussinessTid := ni_tid i,
             wd := Watchdog_RunPeriodicalTask e (ni_stamp i) BussinessWatchdog tsk (ucast timeout) INI_TIMER_FIRST_SECOND w\<rparr>))"

definition OH_HiCollie_Init_StuckDetection ::
  "env \<Rightarrow> ndk_in \<Rightarrow> task_fn option \<Rightarrow> Ndk \<Rightarrow> HiCollie_ErrorCode \<times> Ndk" where
  "OH_HiCollie_Init_StuckDetection e i tsk n = InitStuckDetection e i tsk CHECK_INTERVAL_TIME n"

definition OH_HiCollie_Init_StuckDetectionWithTimeout ::
  "env \<Rightarrow> ndk_in \<Rightarrow> task_fn option \<Rightarrow> u32 \<Rightarrow> Ndk \<Rightarrow> HiCollie_ErrorCode \<times> Ndk" where
  "OH_HiCollie_Init_StuckDetectionWithTimeout e i tsk timeout0 n =
     (let timeout = timeout0 * TIME_S_TO_MS in
      if timeout < CHECK_INTERVAL_TIME \<or> timeout > MAX_TIMEOUT then (HICOLLIE_INVALID_ARGUMENT, n)
      else InitStuckDetection e i tsk timeout n)"

text \<open>
  \<open>hasBegin\<close> and \<open>hasEnd\<close> tell whether the function pointers are set. \<^term>\<open>None\<close> is the null
  dereference of \<^verbatim>\<open>InitMainLooperWatcher\<close>.
\<close>

definition OH_HiCollie_Init_JankDetection ::
  "env \<Rightarrow> ndk_in \<Rightarrow> bool \<Rightarrow> bool \<Rightarrow> Ndk \<Rightarrow> (HiCollie_ErrorCode \<times> Ndk) option" where
  "OH_HiCollie_Init_JankDetection e i hasBegin hasEnd n =
     (if IsAppMainThread e i then Some (HICOLLIE_WRONG_THREAD_CONTEXT, n)
      else if hasBegin \<noteq> hasEnd then Some (HICOLLIE_INVALID_ARGUMENT, n)
      else case InitMainLooperWatcher (ni_tid i) (hasBegin \<and> hasEnd) (wd n) of
          None \<Rightarrow> None
        | Some (_, w) \<Rightarrow> Some (HICOLLIE_SUCCESS, n\<lparr>wd := w\<rparr>))"

text \<open>\<open>p\<close> is \<^verbatim>\<open>*isSixSecond\<close>, or \<^term>\<open>None\<close> for a null pointer.\<close>

definition OH_HiCollie_Report ::
  "env \<Rightarrow> ndk_in \<Rightarrow> bool option \<Rightarrow> Ndk \<Rightarrow> (HiCollie_ErrorCode \<times> bool option \<times> Ndk) option" where
  "OH_HiCollie_Report e i p n =
     (if IsAppMainThread e i then Some (HICOLLIE_WRONG_THREAD_CONTEXT, p, n)
      else case p of
          None \<Rightarrow> Some (HICOLLIE_INVALID_ARGUMENT, p, n)
        | Some six \<Rightarrow>
            if isAppDebug (wd n) then Some (HICOLLIE_SUCCESS, p, n)
            else (case Report e i six n of
                None \<Rightarrow> None
              | Some (r, six', n') \<Rightarrow> Some (if r \<noteq> 0 then HICOLLIE_REMOTE_FAILED else HICOLLIE_SUCCESS, Some six', n')))"

definition OH_HiCollie_ReportInputBlock :: "env \<Rightarrow> ndk_in \<Rightarrow> Ndk \<Rightarrow> (HiCollie_ErrorCode \<times> Ndk) option" where
  "OH_HiCollie_ReportInputBlock e i n =
     (if isAppDebug (wd n) then Some (HICOLLIE_SUCCESS, n)
      else case ReportInputBlock e i n of
          None \<Rightarrow> None
        | Some (r, n') \<Rightarrow> Some (if r \<noteq> 0 then HICOLLIE_REMOTE_FAILED else HICOLLIE_SUCCESS, n'))"

text \<open>\<open>nm\<close> is \<^term>\<open>None\<close> for a null name; the result holds the value written to \<^verbatim>\<open>*id\<close>, if one was.\<close>

definition OH_HiCollie_SetTimer ::
  "env \<Rightarrow> ndk_in \<Rightarrow> string option \<Rightarrow> u32 \<Rightarrow> nat option \<Rightarrow> nat \<Rightarrow> u32 \<Rightarrow> bool \<Rightarrow> Ndk
     \<Rightarrow> HiCollie_ErrorCode \<times> int option \<times> Ndk" where
  "OH_HiCollie_SetTimer e i nm timeout fn arg flag hasId n =
     (case nm of
        None \<Rightarrow> (HICOLLIE_INVALID_TIMER_NAME, None, n)
      | Some timerName \<Rightarrow>
          if timerName = [] then (HICOLLIE_INVALID_TIMER_NAME, None, n)
          else if timeout = 0 then (HICOLLIE_INVALID_TIMEOUT_VALUE, None, n)
          else if \<not> hasId then (HICOLLIE_WRONG_TIMER_ID_OUTPUT_PARAM, None, n)
          else
            let (timerId, w) = XCollie_SetTimer e (ni_stamp i) timerName timeout fn arg flag (wd n);
                n1 = n\<lparr>wd := w\<rparr> in
            if timerId = INVALID_ID then (HICOLLIE_WRONG_PROCESS_CONTEXT, None, n1)
            else if timerId = 0 then (HICOLLIE_WRONG_TIMER_ID_OUTPUT_PARAM, None, n1)
            else (HICOLLIE_SUCCESS, Some timerId, n1))"

definition OH_HiCollie_CancelTimer :: "int \<Rightarrow> Ndk \<Rightarrow> Ndk" where
  "OH_HiCollie_CancelTimer i n = (if i \<le> 0 then n else n\<lparr>wd := XCollie_CancelTimer i (wd n)\<rparr>)"

definition OH_HiCollie_SetFreezeCallback :: "nat option \<Rightarrow> Ndk \<Rightarrow> nat option \<times> Ndk" where
  "OH_HiCollie_SetFreezeCallback cb n = (case SetHandler cb (mgr n) of (old, m) \<Rightarrow> (old, n\<lparr>mgr := m\<rparr>))"

definition OH_HiCollie_AssociateProcessReport ::
  "env \<Rightarrow> ndk_in \<Rightarrow> bool \<Rightarrow> Ndk \<Rightarrow> (HiCollie_ErrorCode \<times> Ndk) option" where
  "OH_HiCollie_AssociateProcessReport e i isFreezeEvent n =
     (case ReportEvent e i isFreezeEvent n of
        None \<Rightarrow> None
      | Some (r, n') \<Rightarrow> Some (if r \<noteq> 0 then OH_HICOLLIE_REACH_REPORT_LIMIT else HICOLLIE_SUCCESS, n'))"

section \<open>Sequences of reports\<close>

text \<open>A business thread that keeps reporting, each time with the flag the last report left.\<close>

fun reports :: "env \<Rightarrow> ndk_in list \<Rightarrow> bool \<Rightarrow> Ndk \<Rightarrow> (bool \<times> Ndk) option" where
  "reports e [] six n = Some (six, n)"
| "reports e (i # is) six n =
     (case Report e i six n of None \<Rightarrow> None | Some (_, six', n') \<Rightarrow> reports e is six' n')"

lemma read_log_sel:
  assumes "read_log i type n = Some (log, n')"
  shows "wd n' = wd n" "faults n' = faults n" "g_backgroundReportCount n' = g_backgroundReportCount n"
    "g_lastWatchTime n' = g_lastWatchTime n" "g_stuckTimeout n' = g_stuckTimeout n"
  using assms by (auto simp: read_log_def split: prod.splits option.splits)

lemma CheckInBackGround_sel:
  "wd (snd (CheckInBackGround i n)) = wd n" "faults (snd (CheckInBackGround i n)) = faults n"
  by (simp_all add: CheckInBackGround_def Let_def)

lemma CheckInBackGround_fg: "isForeground (wd n) \<Longrightarrow> \<not> fst (CheckInBackGround i n)"
  by (simp add: CheckInBackGround_def Let_def)

text \<open>What a report says, and what the next one says.\<close>

definition report_kind :: "FaultData \<Rightarrow> string \<times> bool" where
  "report_kind f = (fd_name f, fd_forceExit f)"

definition kind_of :: "bool \<Rightarrow> string \<times> bool" where
  "kind_of six = (if six then (''BUSSINESS_THREAD_BLOCK_6S'', True) else (''BUSSINESS_THREAD_BLOCK_3S'', False))"

text \<open>A series: every report comes within twice the timeout of the last time that was noted.\<close>

definition in_time_of :: "ndk_in \<Rightarrow> Ndk \<Rightarrow> bool" where
  "in_time_of i n \<longleftrightarrow> ni_now i - g_lastWatchTime n \<le> int (unat (RATIO * g_stuckTimeout n))"

fun in_series :: "env \<Rightarrow> ndk_in list \<Rightarrow> bool \<Rightarrow> Ndk \<Rightarrow> bool" where
  "in_series e [] six n = True"
| "in_series e (i # is) six n =
     (in_time_of i n \<and> (case Report e i six n of None \<Rightarrow> True | Some (_, six', n') \<Rightarrow> in_series e is six' n'))"

lemma Report_reported:
  assumes "Report e i six n = Some (r, six', n')" and "CheckInBackGround i n = (False, n1)"
  shows "wd n' = wd n" "six' = (\<not> six)" "g_backgroundReportCount n' = g_backgroundReportCount n1 + 1"
    and "map report_kind (faults n') = map report_kind (faults n) @ [kind_of six]"
proof -
  have n1: "wd n1 = wd n" "faults n1 = faults n" using CheckInBackGround_sel [of i n] assms(2) by simp_all
  obtain log n2 where l: "read_log i (if six then BUSINESS_THREAD_BLOCK_6S_TYPE else BUSINESS_THREAD_BLOCK_3S_TYPE)
      (n1\<lparr>g_backgroundReportCount := g_backgroundReportCount n1 + 1\<rparr>) = Some (log, n2)"
    using assms by (auto simp: Report_def split: option.splits)
  have n2: "wd n2 = wd n" "faults n2 = faults n" "g_backgroundReportCount n2 = g_backgroundReportCount n1 + 1"
    using read_log_sel [OF l] n1 by simp_all
  have "six' = (\<not> six) \<and> wd n' = wd n2 \<and> faults n' = faults n2 @ [report_fault e i six log n2] \<and>
      g_backgroundReportCount n' = g_backgroundReportCount n2"
    using assms l by (auto simp: Report_def Let_def split: if_splits)
  then show "wd n' = wd n" "six' = (\<not> six)" "g_backgroundReportCount n' = g_backgroundReportCount n1 + 1"
    "map report_kind (faults n') = map report_kind (faults n) @ [kind_of six]"
    using n2 by (simp_all add: report_fault_def report_kind_def kind_of_def)
qed

lemma Report_swallowed:
  assumes "\<not> isForeground (wd n)" and "in_time_of i n" and "g_backgroundReportCount n < 5"
  shows "Report e i six n =
    Some (0, six, n\<lparr>g_backgroundReportCount := g_backgroundReportCount n + 1, g_lastWatchTime := ni_now i\<rparr>)"
  using assms by (simp add: Report_def CheckInBackGround_def in_time_of_def BACKGROUND_REPORT_COUNT_MAX_def Let_def)

lemma Report_reset:
  assumes "\<not> isForeground (wd n)" and "\<not> in_time_of i n"
  shows "Report e i six n = Some (0, six, n\<lparr>g_backgroundReportCount := 1, g_lastWatchTime := ni_now i\<rparr>)"
  using assms by (simp add: Report_def CheckInBackGround_def in_time_of_def BACKGROUND_REPORT_COUNT_MAX_def Let_def)

lemma kinds_Cons: "kind_of six # map (\<lambda>k. kind_of (even k = (\<not> six))) [0..<m] = map (\<lambda>k. kind_of (even k = six)) [0..<Suc m]"
proof -
  have "kind_of (even k = (\<not> six)) = kind_of (even (Suc k) = six)" for k by (rule arg_cong [of _ _ kind_of]) auto
  then show ?thesis by (simp add: upt_conv_Cons map_Suc_upt [symmetric] comp_def del: upt_Suc even_Suc)
qed

text \<open>How many of the reports are sent.\<close>

definition sent_reports :: "Ndk \<Rightarrow> nat \<Rightarrow> nat" where
  "sent_reports n k = (if isForeground (wd n) then k else k - nat (5 - g_backgroundReportCount n))"

lemma reports_exact:
  assumes "reports e is six n = Some (six', n')" and "0 \<le> g_backgroundReportCount n" and "isForeground (wd n) \<or> in_series e is six n"
  shows "map report_kind (faults n') = map report_kind (faults n) @
      map (\<lambda>k. kind_of (even k = six)) [0..<sent_reports n (length is)] \<and>
    six' = (even (sent_reports n (length is)) = six)"
  using assms
proof (induction "is" arbitrary: six n)
  case Nil
  then show ?case by (simp add: sent_reports_def)
next
  case (Cons i "is")
  then obtain r six1 n1 where rep: "Report e i six n = Some (r, six1, n1)" and rest: "reports e is six1 n1 = Some (six', n')"
    by (auto split: option.splits)
  have ser: "isForeground (wd n) \<or> in_time_of i n \<and> in_series e is six1 n1" using Cons.prems(3) rep by simp
  show ?case
  proof (cases "\<not> isForeground (wd n) \<and> g_backgroundReportCount n < 5")
    case True
    then have "in_time_of i n" using ser by blast
    from Report_swallowed [OF _ this, of e six] True rep
    have n1: "six1 = six" "n1 = n\<lparr>g_backgroundReportCount := g_backgroundReportCount n + 1, g_lastWatchTime := ni_now i\<rparr>"
      by simp_all
    have "sent_reports n1 (length is) = sent_reports n (length (i # is))"
      using True by (auto simp: n1 sent_reports_def nat_diff_distrib' Suc_diff_le)
    then show ?thesis using Cons.IH [OF rest] ser True Cons.prems(2) by (simp add: n1)
  next
    case False
    define m where "m = (if in_time_of i n then n else n\<lparr>g_backgroundReportCount := 0\<rparr>)"
    have c: "CheckInBackGround i n = (False, m)" and m: "0 \<le> g_backgroundReportCount m"
      "isForeground (wd n) \<or> 5 \<le> g_backgroundReportCount m"
      using False ser Cons.prems(2)
      by (auto simp: m_def CheckInBackGround_def in_time_of_def BACKGROUND_REPORT_COUNT_MAX_def Let_def)
    note f = Report_reported [OF rep c]
    have k: "sent_reports n1 (length is) = length is" "sent_reports n (length (i # is)) = Suc (length is)"
      using m(2) f(1,3) False by (auto simp: sent_reports_def)
    have "0 \<le> g_backgroundReportCount n1" "isForeground (wd n1) \<or> in_series e is six1 n1" using ser m(1) f by auto
    from Cons.IH [OF rest this] f k(1)
    have ih: "map report_kind (faults n') = map report_kind (faults n) @ kind_of six # map (\<lambda>k. kind_of (even k = (\<not> six))) [0..<length is]"
      "six' = (even (length is) = (\<not> six))" by simp_all
    show ?thesis unfolding k(2) kinds_Cons [symmetric] ih by auto
  qed
qed

section \<open>Properties\<close>

text \<open>
  C34. What a business thread that keeps reporting sends. In the foreground every report is sent; in the background, as long as each comes
  within twice the timeout of the last noted time, those are swallowed that bring the counter to five, the counter being raised by
  all reports of the series, also by those sent in the foreground. The reports that are sent alternate between the one of three
  seconds and the one of six, each under its own name, and exactly the latter forces the application to exit. A report
  in the background that comes later than that starts a new series and is swallowed.
\<close>

theorem stuck_report_protocol:
  assumes "reports e is six n = Some (six', n')" and "0 \<le> g_backgroundReportCount n"
    and "isForeground (wd n) \<or> in_series e is six n"
  shows "map (\<lambda>f. (fd_name f, fd_forceExit f)) (faults n') = map (\<lambda>f. (fd_name f, fd_forceExit f)) (faults n) @
      map (\<lambda>k. if even k = six then (''BUSSINESS_THREAD_BLOCK_6S'', True) else (''BUSSINESS_THREAD_BLOCK_3S'', False))
        [0..<if isForeground (wd n) then length is else length is - nat (5 - g_backgroundReportCount n)] \<and>
    (\<forall>i m. \<not> isForeground (wd m) \<and> ni_now i - g_lastWatchTime m > int (unat (2 * g_stuckTimeout m)) \<longrightarrow>
      Report e i six m = Some (0, six, m\<lparr>g_backgroundReportCount := 1, g_lastWatchTime := ni_now i\<rparr>))"
  using reports_exact [OF assms, unfolded sent_reports_def report_kind_def [abs_def] kind_of_def] Report_reset
  by (simp add: in_time_of_def RATIO_def not_le)

definition demo_ndk_in :: ndk_in where
  "demo_ndk_in = \<lparr>ni_tid = 77, ni_now = 100000, ni_now2 = 100001, ni_steady = 100, ni_time = [], ni_notify = 0,
     ni_statm = None, ni_status = None,
     ni_worker = \<lparr>wk_mmap = True, wk_size = 0, wk_buffer = [CHR 0x00], wk_intime = True\<rparr>, ni_stamp = demo_stamp\<rparr>"

text \<open>Two reports in the foreground; two in the background, the first of them the fifth of its series.\<close>

theorem stuck_report_protocol_witness:
  "\<exists>six n six' n'. reports service_env [demo_ndk_in, demo_ndk_in] False (Ndk_init (SetForeground True WatchdogInner_init)) = Some (six, n) \<and>
     map (\<lambda>f. (fd_name f, fd_forceExit f)) (faults n) =
       [(''BUSSINESS_THREAD_BLOCK_3S'', False), (''BUSSINESS_THREAD_BLOCK_6S'', True)] \<and>
     reports service_env [demo_ndk_in, demo_ndk_in] False ((Ndk_init (SetForeground False WatchdogInner_init))
       \<lparr>g_backgroundReportCount := 4, g_lastWatchTime := 100000\<rparr>) = Some (six', n') \<and>
     map (\<lambda>f. (fd_name f, fd_forceExit f)) (faults n') = [(''BUSSINESS_THREAD_BLOCK_3S'', False)]"
proof -
  let ?n = "Ndk_init (SetForeground True WatchdogInner_init)"
  let ?b = "(Ndk_init (SetForeground False WatchdogInner_init))\<lparr>g_backgroundReportCount := 4, g_lastWatchTime := 100000\<rparr>"
  note ev = Report_def CheckInBackGround_def read_log_def ReadDataFromBuffer_def CheckCallDuration_def
    Ndk_init_def XcollieMgr_init_def demo_ndk_in_def SetForeground_def Let_def COUNT_OF_FAULT_TYPE_def
    BUSINESS_THREAD_BLOCK_3S_TYPE_def BUSINESS_THREAD_BLOCK_6S_TYPE_def BACKGROUND_REPORT_COUNT_MAX_def
  have "reports service_env [demo_ndk_in, demo_ndk_in] False ?n \<noteq> None" by (simp add: ev)
  then obtain six n where r: "reports service_env [demo_ndk_in, demo_ndk_in] False ?n = Some (six, n)" by auto
  have "reports service_env [demo_ndk_in, demo_ndk_in] False ?b \<noteq> None" by (simp add: ev)
  then obtain six' n' where b: "reports service_env [demo_ndk_in, demo_ndk_in] False ?b = Some (six', n')" by auto
  have ser: "in_series service_env [demo_ndk_in, demo_ndk_in] False ?b"
    by (simp add: in_time_of_def ev RATIO_def)
  have 1: "0 \<le> g_backgroundReportCount ?n" "isForeground (wd ?n) \<or> in_series service_env [demo_ndk_in, demo_ndk_in] False ?n"
    "faults ?n = []" "isForeground (wd ?n)"
    by (simp_all add: Ndk_init_def SetForeground_def)
  have 2: "0 \<le> g_backgroundReportCount ?b" "faults ?b = []" "\<not> isForeground (wd ?b)" "g_backgroundReportCount ?b = 4"
    by (simp_all add: Ndk_init_def SetForeground_def)
  have "map (\<lambda>f. (fd_name f, fd_forceExit f)) (faults n) =
       [(''BUSSINESS_THREAD_BLOCK_3S'', False), (''BUSSINESS_THREAD_BLOCK_6S'', True)]"
    using stuck_report_protocol [OF r 1(1,2)] 1(3,4) by (simp add: upt_rec)
  moreover have "map (\<lambda>f. (fd_name f, fd_forceExit f)) (faults n') = [(''BUSSINESS_THREAD_BLOCK_3S'', False)]"
    using stuck_report_protocol [OF b 2(1) disjI2 [OF ser]] 2 by (simp add: upt_rec)
  ultimately show ?thesis
    using r b by (intro exI [of _ six] exI [of _ n] exI [of _ six'] exI [of _ n'] conjI)
qed

lemma RunXCollie_result:
  assumes "0 \<le> curId w"
  shows "fst (RunXCollieTask e st nm timeout fn arg flag w) =
      (if nm = [] \<or> timeout = 0 \<or> IsInAppspwan e then - 1
       else if length (checkerQueue w) \<ge> MAX_WATCH_NUM then 0 else curId w + 1)"
    and "fst (RunXCollieTask e st nm timeout fn arg flag w) \<le> 0 \<Longrightarrow>
      checkerQueue (snd (RunXCollieTask e st nm timeout fn arg flag w)) = checkerQueue w"
  using assms
  by (auto simp: RunXCollieTask_def InsertWatchdogTaskLocked_def IsExceedMaxTaskLocked_def INVALID_ID_def Let_def
      split_beta task_constructors)

lemma ms_nonzero: "(timeout :: u32) \<noteq> 0 \<Longrightarrow> (ucast timeout * TO_MILLISECOND_MULTPLE :: u64) \<noteq> 0"
  using unat_ms [of timeout] by (metis mult_eq_0_iff unat_0 unat_eq_zero zero_neq_numeral)

text \<open>The code a call gives, from its arguments, the process and the queue alone.\<close>

definition set_timer_code :: "env \<Rightarrow> string option \<Rightarrow> u32 \<Rightarrow> bool \<Rightarrow> nat \<Rightarrow> HiCollie_ErrorCode" where
  "set_timer_code e nm timeout hasId used =
     (if nm = None \<or> nm = Some [] then HICOLLIE_INVALID_TIMER_NAME
      else if timeout = 0 then HICOLLIE_INVALID_TIMEOUT_VALUE
      else if \<not> hasId then HICOLLIE_WRONG_TIMER_ID_OUTPUT_PARAM
      else if IsInAppspwan e then HICOLLIE_WRONG_PROCESS_CONTEXT
      else if MAX_WATCH_NUM \<le> used then HICOLLIE_WRONG_TIMER_ID_OUTPUT_PARAM
      else HICOLLIE_SUCCESS)"

text \<open>
  C40. Setting a timer through the C interface. The code is, in this order, the one for a missing name, for a timeout of zero, for
  a missing pointer, for a spawner process, for a full queue (the code of the missing pointer again), and success otherwise. On every failure
  nothing is written and nothing of the state is changed, but for the counter of ids where the queue is full. On success the
  next id is written, it is positive, and exactly one task has been added to the queue: a one-shot task with this id and the
  name cut to its limit, which calls the function that was given. When the timeout is at most 4294967 seconds, cancelling the id gives the queue
  back.
\<close>

theorem ndk_set_timer:
  assumes "wd_inv fl (wd n)" and "curId (wd n) < 2 ^ 31 - 1"
    and "OH_HiCollie_SetTimer e i nm timeout fn arg flag hasId n = (code, idp, n')"
  shows "code = set_timer_code e nm timeout hasId (length (checkerQueue (wd n))) \<and>
    (code \<noteq> HICOLLIE_SUCCESS \<longrightarrow> idp = None \<and> (n' = n \<or> MAX_WATCH_NUM \<le> length (checkerQueue (wd n)) \<and>
      n' = n\<lparr>wd := (wd n)\<lparr>curId := curId (wd n) + 1\<rparr>\<rparr>)) \<and>
    (code = HICOLLIE_SUCCESS \<longrightarrow> idp = Some (curId (wd n) + 1) \<and> 0 < curId (wd n) + 1 \<and>
      (\<exists>t. mset (checkerQueue (wd n')) = add_mset t (mset (checkerQueue (wd n))) \<and> task_id t = curId (wd n) + 1 \<and>
        task_name t = GetLimitedSizeName (the nm) \<and> task_func t = fn \<and> task_arg t = arg \<and> isOneshotTask t) \<and>
      (unat timeout \<le> 4294967 \<longrightarrow>
        mset (checkerQueue (wd (OH_HiCollie_CancelTimer (curId (wd n) + 1) n'))) = mset (checkerQueue (wd n))))"
proof (cases "nm = None \<or> nm = Some [] \<or> timeout = 0 \<or> \<not> hasId")
  case True
  then have same: "n' = n" "idp = None" "code = set_timer_code e nm timeout hasId (length (checkerQueue (wd n)))"
    using assms(3) by (cases nm; auto simp: OH_HiCollie_SetTimer_def set_timer_code_def split: if_splits)+
  have "code \<noteq> HICOLLIE_SUCCESS" unfolding same(3) using True by (auto simp: set_timer_code_def)
  then show ?thesis using same by blast
next
  case False
  then obtain x where x: "nm = Some x" "x \<noteq> []" "timeout \<noteq> 0" hasId by auto
  have c: "0 \<le> curId (wd n)" using assms(1) by (simp add: wd_inv_def)
  let ?r = "RunXCollieTask e (ni_stamp i) x (ucast timeout * TO_MILLISECOND_MULTPLE) fn arg flag (wd n)"
  note res = RunXCollie_result [OF c, of e "ni_stamp i" x "ucast timeout * TO_MILLISECOND_MULTPLE" fn arg flag]
  note nz = ms_nonzero [OF x(3)]
  have w': "n' = n\<lparr>wd := snd ?r\<rparr>"
    using assms(3) x by (auto simp: OH_HiCollie_SetTimer_def XCollie_SetTimer_def Let_def split_beta split: if_splits)
  show ?thesis
  proof (cases "IsInAppspwan e \<or> MAX_WATCH_NUM \<le> length (checkerQueue (wd n))")
    case True
    then have v: "fst ?r = (if IsInAppspwan e then - 1 else 0)" using res(1) x nz by auto
    have s: "snd ?r = (if IsInAppspwan e then wd n else (wd n)\<lparr>curId := curId (wd n) + 1\<rparr>)"
      using True x nz by (auto simp: RunXCollieTask_def InsertWatchdogTaskLocked_def IsExceedMaxTaskLocked_def new_id_def Let_def
          task_constructors)
    have w: "XCollie_SetTimer e (ni_stamp i) x timeout fn arg flag (wd n) = (if IsInAppspwan e then - 1 else 0, snd ?r)"
      using v x(3) by (simp add: XCollie_SetTimer_def to_int32_def split_beta)
    have code: "code = (if IsInAppspwan e then HICOLLIE_WRONG_PROCESS_CONTEXT else HICOLLIE_WRONG_TIMER_ID_OUTPUT_PARAM) \<and> idp = None"
    proof (cases "IsInAppspwan e")
      case True
      then show ?thesis using assms(3) x w by (simp add: OH_HiCollie_SetTimer_def INVALID_ID_def)
    next
      case False
      then show ?thesis using assms(3) x w by (simp add: OH_HiCollie_SetTimer_def INVALID_ID_def)
    qed
    have "code = set_timer_code e nm timeout hasId (length (checkerQueue (wd n)))" "code \<noteq> HICOLLIE_SUCCESS"
      using code True x by (auto simp: set_timer_code_def)
    moreover have "n' = n \<or> MAX_WATCH_NUM \<le> length (checkerQueue (wd n)) \<and> n' = n\<lparr>wd := (wd n)\<lparr>curId := curId (wd n) + 1\<rparr>\<rparr>"
    proof (cases "IsInAppspwan e")
      case True
      then show ?thesis using w' s by simp
    next
      case False
      then show ?thesis using w' s \<open>IsInAppspwan e \<or> MAX_WATCH_NUM \<le> length (checkerQueue (wd n))\<close> by simp
    qed
    ultimately show ?thesis using code by blast
  next
    case ok: False
    then have r: "fst ?r = curId (wd n) + 1" using res(1) x nz by auto
    then have i32: "to_int32 (fst ?r) = curId (wd n) + 1" using c assms(2) by (simp add: to_int32_def)
    then have code: "code = HICOLLIE_SUCCESS" "idp = Some (curId (wd n) + 1)"
      using assms(3) x c by (auto simp: OH_HiCollie_SetTimer_def XCollie_SetTimer_def INVALID_ID_def Let_def split_beta)
    define t where "t = new_timer e (ni_stamp i) x (ucast timeout * TO_MILLISECOND_MULTPLE) fn arg flag (wd n)"
    have acc: "checkerQueue (snd ?r) = pq_push t (checkerQueue (wd n))"
      unfolding t_def by (rule RunXCollie_accepted(4) [OF prod.collapse [symmetric]]) (use r c in simp)
    have t: "task_id t = curId (wd n) + 1" "task_name t = GetLimitedSizeName (the nm)" "task_func t = fn" "task_arg t = arg" "isOneshotTask t"
      by (simp_all add: t_def new_timer_def task_constructors x(1)) (simp_all add: set_times_def)
    have "\<not> 2 ^ 29 dvd unat timeout" if "unat timeout \<le> 4294967"
      using that x(3) by (auto dest!: dvd_imp_le simp: unat_gt_0)
    then have tz: "task_timeout t \<noteq> 0" if "unat timeout \<le> 4294967"
      using that cut_zero_iff [of timeout] by (simp add: t_def)
    have gone: "mset (checkerQueue (wd (OH_HiCollie_CancelTimer (curId (wd n) + 1) n'))) = mset (checkerQueue (wd n))"
      if "unat timeout \<le> 4294967"
      using that c w' cancel_new_timer(1) [OF assms(1) acc [unfolded t_def]] tz
      by (auto simp: OH_HiCollie_CancelTimer_def XCollie_CancelTimer_def t_def)
    have "mset (checkerQueue (wd n')) = add_mset t (mset (checkerQueue (wd n)))" by (simp add: w' acc)
    then show ?thesis using code ok x c gone t by (auto simp: set_timer_code_def)
  qed
qed

theorem ndk_set_timer_witness:
  "fst (OH_HiCollie_SetTimer service_env demo_ndk_in (Some ''t'') 0 None 0 0 True (Ndk_init WatchdogInner_init)) =
     HICOLLIE_INVALID_TIMEOUT_VALUE \<and>
   mset (checkerQueue (wd (OH_HiCollie_CancelTimer 1 (snd (snd (OH_HiCollie_SetTimer service_env demo_ndk_in (Some ''t'') 5
     None 0 0 True (Ndk_init WatchdogInner_init))))))) = {#}"
proof -
  let ?n = "Ndk_init WatchdogInner_init"
  have n: "wd ?n = WatchdogInner_init" by (simp add: Ndk_init_def)
  have call: "OH_HiCollie_SetTimer service_env demo_ndk_in (Some ''t'') k None 0 0 True ?n =
      (fst (OH_HiCollie_SetTimer service_env demo_ndk_in (Some ''t'') k None 0 0 True ?n),
       fst (snd (OH_HiCollie_SetTimer service_env demo_ndk_in (Some ''t'') k None 0 0 True ?n)),
       snd (snd (OH_HiCollie_SetTimer service_env demo_ndk_in (Some ''t'') k None 0 0 True ?n)))" for k by simp
  note u = ndk_set_timer [of "[]" ?n, OF _ _ call]
  show ?thesis
    using u [of 0] u [of 5]
    by (simp add: n wd_inv_init set_timer_code_def)
      (simp add: WatchdogInner_init_def service_env_def IsInAppspwan_def MAX_WATCH_NUM_def)
qed

text \<open>
  The timeout of the stuck detection is asked in seconds, from 3 to 15. It is multiplied in 32
  bits before it is checked: among the timeouts below 4294968 exactly those in the range are
  accepted, above it also others, for which the detection runs at the wrapped interval.
\<close>

theorem stuck_timeout_range:
  "(fst (OH_HiCollie_Init_StuckDetectionWithTimeout e i tsk t n) = HICOLLIE_INVALID_ARGUMENT \<longleftrightarrow>
      \<not> (3000 \<le> unat t * 1000 mod 2 ^ 32 \<and> unat t * 1000 mod 2 ^ 32 \<le> 15000)) \<and>
   (unat t \<le> 4294967 \<longrightarrow>
     (fst (OH_HiCollie_Init_StuckDetectionWithTimeout e i tsk t n) = HICOLLIE_INVALID_ARGUMENT \<longleftrightarrow> \<not> (3 \<le> unat t \<and> unat t \<le> 15))) \<and>
   fst (OH_HiCollie_Init_StuckDetectionWithTimeout e i tsk 4294971 n) \<noteq> HICOLLIE_INVALID_ARGUMENT \<and>
   (\<not> IsAppMainThread e i \<and> tsk \<noteq> None \<longrightarrow>
     g_stuckTimeout (snd (OH_HiCollie_Init_StuckDetectionWithTimeout e i tsk 4294971 n)) = 3704)"
proof -
  have ini: "fst (InitStuckDetection e i tsk x n) \<noteq> HICOLLIE_INVALID_ARGUMENT" for x
    by (simp add: InitStuckDetection_def Let_def)
  have ms: "unat (t * TIME_S_TO_MS) = unat t * 1000 mod 2 ^ 32" for t
    by (simp add: TIME_S_TO_MS_def unat_word_ariths)
  have all: "fst (OH_HiCollie_Init_StuckDetectionWithTimeout e i tsk t n) = HICOLLIE_INVALID_ARGUMENT \<longleftrightarrow>
      \<not> (3000 \<le> unat t * 1000 mod 2 ^ 32 \<and> unat t * 1000 mod 2 ^ 32 \<le> 15000)" for t
    using ini by (auto simp: OH_HiCollie_Init_StuckDetectionWithTimeout_def Let_def word_less_nat_alt ms
        CHECK_INTERVAL_TIME_def MAX_TIMEOUT_def)
  have "unat (4294971 :: u32) * 1000 mod 2 ^ 32 = 3704" by simp
  moreover have "unat t * 1000 mod 2 ^ 32 = unat t * 1000" if "unat t \<le> 4294967" using that by simp
  ultimately show ?thesis
    unfolding all by (auto simp: OH_HiCollie_Init_StuckDetectionWithTimeout_def InitStuckDetection_def Let_def
        TIME_S_TO_MS_def CHECK_INTERVAL_TIME_def MAX_TIMEOUT_def)
qed

theorem stuck_timeout_range_witness:
  "fst (OH_HiCollie_Init_StuckDetectionWithTimeout service_env demo_ndk_in None 2 (Ndk_init WatchdogInner_init)) = HICOLLIE_INVALID_ARGUMENT"
  using stuck_timeout_range [of service_env demo_ndk_in None 2 "Ndk_init WatchdogInner_init"] by simp

lemma nspid_scan_skip:
  assumes "CHR 0x0A \<notin> set l" and "take 6 l \<noteq> ''NSpid:''"
  shows "nspid_scan (l @ CHR 0x0A # rest) = nspid_scan rest"
proof -
  have "takeWhile (\<lambda>c. c \<noteq> CHR 0x0A) (l @ CHR 0x0A # rest) = l" using assms(1) by (induction l) auto
  moreover have "str_find l ''NSpid:'' 0 \<noteq> Some 0"
    using assms(2) find_aux_match [of "''NSpid:''" l 0 0] by (auto simp: str_find_def numeral_eq_Suc)
  ultimately show ?thesis by (subst nspid_scan.simps) (simp add: Let_def)
qed

text \<open>
  The process id of a web process in its own name space is never read: in the status file of
  the kernel the number follows a tab, which the conversion does not skip, so the result is -1 for
  every such file and that is the process id of the event.
\<close>

theorem nspid_never_read:
  assumes "\<forall>l \<in> set ls. CHR 0x0A \<notin> set l \<and> take 6 l \<noteq> ''NSpid:''"
    and "ni_status i = Some (concat (map (\<lambda>l. l @ [CHR 0x0A]) ls) @ ''NSpid:'' @ CHR 0x09 # rest)"
  shows "GetNSPid i = - 1"
proof -
  have base: "nspid_scan (''NSpid:'' @ CHR 0x09 # rest) = - 1"
    by (subst nspid_scan.simps) (simp add: Let_def str_find_def from_chars_int_def isdigit_def)
  have "nspid_scan (concat (map (\<lambda>l. l @ [CHR 0x0A]) ls) @ ''NSpid:'' @ CHR 0x09 # rest) = - 1"
    using assms(1)
  proof (induction ls)
    case Nil
    show ?case using base by simp
  next
    case (Cons l ls)
    then show ?case by (simp add: nspid_scan_skip)
  qed
  then show ?thesis by (simp add: GetNSPid_def assms(2))
qed

theorem nspid_never_read_witness:
  "GetNSPid (demo_ndk_in\<lparr>ni_status := Some (''Name: web'' @ [CHR 0x0A] @ ''NSpid:'' @ [CHR 0x09] @ ''4242'' @ [CHR 0x0A])\<rparr>) = - 1"
  by (rule nspid_never_read [of "[''Name: web'']" _ "''4242'' @ [CHR 0x0A]"]) (simp_all)

end
