(* ===== verification/Thread_Sampler.thy ===== *)
theory Thread_Sampler
  imports Prelude
begin

text \<open>
  The sampler of the main thread's stack (\<^verbatim>\<open>thread_sampler.cpp\<close>, \<^verbatim>\<open>thread_sampler_utils.cpp\<close>,
  \<^verbatim>\<open>thread_sampler_api.cpp\<close>). The watchdog thread asks for a sample by a signal to the main thread, whose
  handler copies registers and stack into a ring of two buffers; the watchdog thread unwinds what it
  finds there. The build is the one for \<^verbatim>\<open>__aarch64__\<close>. The unwinder, the formatting of frames and the
  table of stacks belong to other libraries and are the parameters in \<open>sampler_lib\<close>; the counters kept for
  \<^verbatim>\<open>CONSUME_STATISTICS\<close> that are only logged are left out.
\<close>

section \<open>State\<close>

definition STACK_BUFFER_SIZE :: nat where "STACK_BUFFER_SIZE = 16 * 1024"
definition SAMPLER_MAX_BUFFER_SZ :: nat where "SAMPLER_MAX_BUFFER_SZ = 2"

record ThreadUnwindContext =
  cx_pc :: u64
  cx_sp :: u64
  cx_fp :: u64
  cx_lr :: u64
  requestTime :: u64
  snapshotTime :: u64
  processTime :: u64
  cx_buffer :: "8 word list"

text \<open>What \<^verbatim>\<open>mmap\<close> gives: zeros.\<close>

definition ThreadUnwindContext_zero :: ThreadUnwindContext where
  "ThreadUnwindContext_zero = \<lparr>cx_pc = 0, cx_sp = 0, cx_fp = 0, cx_lr = 0, requestTime = 0, snapshotTime = 0,
     processTime = 0, cx_buffer = replicate STACK_BUFFER_SIZE 0\<rparr>"

text \<open>
  \<open>buffers\<close> is the mapping at \<^verbatim>\<open>mmapStart_\<close>, \<^term>\<open>None\<close> for \<^verbatim>\<open>MAP_FAILED\<close>. \<open>printer\<close> holds the stacks that were put
  into the table of the printer, \<^term>\<open>None\<close> without one. \<open>signals\<close> counts the signals that were queued and not
  yet handled.
\<close>

record ThreadSampler =
  s_init :: bool
  stackBegin :: u64
  stackEnd :: u64
  writeIndex :: nat
  readIndex :: nat
  buffers :: "(nat \<Rightarrow> ThreadUnwindContext) option"
  unwinder :: bool
  s_maps :: bool
  printer :: "(u64 list \<times> u64) list option"
  heaviestStack :: string
  recordSubmitterStack :: bool
  processCount :: u64
  processStartTime :: u64
  processFinishTime :: u64
  timeStampedPcsList :: "(u64 \<times> u64 list) list"
  submitterStackIds :: "u64 list"
  submitterStackIdIndex :: nat
  submitterStackIdsMaxSize :: nat
  signals :: nat

definition ThreadSampler_init :: ThreadSampler where
  "ThreadSampler_init =
     \<lparr>s_init = False, stackBegin = 0, stackEnd = 0, writeIndex = 0, readIndex = 0, buffers = None, unwinder = False,
      s_maps = False, printer = None, heaviestStack = [CHR 0x00], recordSubmitterStack = False, processCount = 0,
      processStartTime = 0, processFinishTime = 0, timeStampedPcsList = [], submitterStackIds = [],
      submitterStackIdIndex = 0, submitterStackIdsMaxSize = 0, signals = 0\<rparr>"

record sampler_lib =
  CONSUME_STATISTICS :: bool
  lib_unwind :: "ThreadUnwindContext \<Rightarrow> u64 list"
  lib_frame :: "nat \<Rightarrow> u64 \<Rightarrow> string"
  lib_time :: "u64 \<Rightarrow> string"
  lib_async :: "u64 \<Rightarrow> u64 list"
  lib_tree :: "(u64 list \<times> u64) list \<Rightarrow> string"
  lib_heaviest :: "(u64 list \<times> u64) list \<Rightarrow> string"

section \<open>Reading memory while unwinding\<close>

text \<open>
  \<^verbatim>\<open>AccessMem\<close>: eight bytes of the copied stack, or what the mapped files have there (\<open>elf\<close>). A read of the
  buffer is the byte offset it starts at, which the bounds theorem is about.
\<close>

datatype mem_read = Invalid | FromElf u64 | FromBuffer nat

definition AccessMem :: "u64 \<Rightarrow> u64 \<Rightarrow> mem_read" where
  "AccessMem sp addr =
     (if addr + 8 < addr then Invalid
      else if addr < sp \<or> addr + 8 \<ge> sp + of_nat STACK_BUFFER_SIZE then FromElf addr
      else let stackOffset = addr - sp in
        if stackOffset \<ge> of_nat STACK_BUFFER_SIZE then Invalid else FromBuffer (unat stackOffset))"

section \<open>Start and end\<close>

text \<open>What the start reads: results of \<^verbatim>\<open>mmap\<close>, the maps with the range of the stack, the table, the clock.\<close>

record init_in =
  in_mmap :: bool
  in_maps :: bool
  in_range :: "(u64 \<times> u64) option"
  in_table :: bool
  in_now :: u64
  in_munmap :: bool
  in_end :: u64

definition InitRecordBuffer :: "init_in \<Rightarrow> ThreadSampler \<Rightarrow> bool \<times> ThreadSampler" where
  "InitRecordBuffer ii s =
     (if buffers s \<noteq> None then (True, s)
      else if \<not> in_mmap ii then (False, s)
      else (True, s\<lparr>buffers := Some (\<lambda>_. ThreadUnwindContext_zero)\<rparr>))"

definition ReleaseRecordBuffer :: "init_in \<Rightarrow> ThreadSampler \<Rightarrow> ThreadSampler" where
  "ReleaseRecordBuffer ii s =
     (if buffers s = None then s else if \<not> in_munmap ii then s else s\<lparr>buffers := None\<rparr>)"

definition InitUnwinder :: "init_in \<Rightarrow> ThreadSampler \<Rightarrow> bool \<times> ThreadSampler" where
  "InitUnwinder ii s =
     (let s1 = s\<lparr>unwinder := True, s_maps := in_maps ii\<rparr> in
      if \<not> in_maps ii then (False, s1)
      else case in_range ii of
          None \<Rightarrow> (False, s1)
        | Some (b, e) \<Rightarrow> (True, s1\<lparr>stackBegin := b, stackEnd := e\<rparr>))"

definition InitStackPrinter :: "init_in \<Rightarrow> ThreadSampler \<Rightarrow> bool \<times> ThreadSampler" where
  "InitStackPrinter ii s =
     (if printer s \<noteq> None then (True, s) else (in_table ii, s\<lparr>printer := Some []\<rparr>))"

definition DestroyUnwinder :: "ThreadSampler \<Rightarrow> ThreadSampler" where
  "DestroyUnwinder s = s\<lparr>s_maps := False, unwinder := False\<rparr>"

definition ResetConsumeInfo :: "ThreadSampler \<Rightarrow> ThreadSampler" where
  "ResetConsumeInfo s = s\<lparr>processCount := 0\<rparr>"

definition Sampler_Deinit :: "sampler_lib \<Rightarrow> init_in \<Rightarrow> ThreadSampler \<Rightarrow> bool \<times> ThreadSampler" where
  "Sampler_Deinit lb ii s =
     (let s1 = ReleaseRecordBuffer ii (DestroyUnwinder (s\<lparr>printer := None\<rparr>));
          s2 = s1\<lparr>processFinishTime := in_end ii, recordSubmitterStack := False, timeStampedPcsList := [],
                  submitterStackIds := [], submitterStackIdIndex := 0, submitterStackIdsMaxSize := 0, s_init := False\<rparr>;
          s3 = (if CONSUME_STATISTICS lb then ResetConsumeInfo s2 else s2)
      in (\<not> s_init s3, s3))"

definition Sampler_Init :: "sampler_lib \<Rightarrow> init_in \<Rightarrow> nat \<Rightarrow> bool \<Rightarrow> ThreadSampler \<Rightarrow> bool \<times> ThreadSampler" where
  "Sampler_Init lb ii collectStackCount record s =
     (if s_init s then (True, s)
      else case InitRecordBuffer ii s of
        (False, s1) \<Rightarrow> (False, snd (Sampler_Deinit lb ii s1))
      | (True, s1) \<Rightarrow>
          (case InitUnwinder ii s1 of
             (False, s2) \<Rightarrow> (False, snd (Sampler_Deinit lb ii s2))
           | (True, s2) \<Rightarrow>
               (case InitStackPrinter ii s2 of
                  (False, s3) \<Rightarrow> (False, snd (Sampler_Deinit lb ii s3))
                | (True, s3) \<Rightarrow>
                    if collectStackCount = 0 then (False, snd (Sampler_Deinit lb ii s3))
                    else (True, s3\<lparr>processStartTime := in_now ii, submitterStackIds := replicate collectStackCount 0,
                            submitterStackIdIndex := 0, submitterStackIdsMaxSize := collectStackCount,
                            recordSubmitterStack := record, s_init := True\<rparr>))))"

section \<open>The ring\<close>

definition GetReadContext :: "ThreadSampler \<Rightarrow> nat option \<times> ThreadSampler" where
  "GetReadContext s =
     (case buffers s of
        None \<Rightarrow> (None, s)
      | Some cs \<Rightarrow>
          let index = readIndex s in
          if requestTime (cs index) = 0 \<or> snapshotTime (cs index) = 0 then (None, s)
          else (Some index, s\<lparr>readIndex := (index + 1) mod SAMPLER_MAX_BUFFER_SZ\<rparr>))"

definition GetWriteContext :: "ThreadSampler \<Rightarrow> nat option" where
  "GetWriteContext s =
     (case buffers s of
        None \<Rightarrow> None
      | Some cs \<Rightarrow>
          let index = writeIndex s in
          if requestTime (cs index) > 0 \<and> (snapshotTime (cs index) = 0 \<or> processTime (cs index) = 0) then None
          else Some index)"

definition set_context :: "nat \<Rightarrow> (ThreadUnwindContext \<Rightarrow> ThreadUnwindContext) \<Rightarrow> ThreadSampler \<Rightarrow> ThreadSampler" where
  "set_context i f s = (case buffers s of None \<Rightarrow> s | Some cs \<Rightarrow> s\<lparr>buffers := Some (cs(i := f (cs i)))\<rparr>)"

text \<open>What the handler of the signal finds: the registers, the memory of the thread, the clock, the submitter.\<close>

record signal_in =
  uc_fp :: u64
  uc_lr :: u64
  uc_sp :: u64
  uc_pc :: u64
  si_mem :: "u64 \<Rightarrow> 8 word"
  si_now :: u64
  si_submitter :: u64

definition copied :: "signal_in \<Rightarrow> u64 \<Rightarrow> 8 word list" where
  "copied si end =
     (let curStackSz = end - uc_sp si;
          cpySz = (if curStackSz > of_nat STACK_BUFFER_SIZE then STACK_BUFFER_SIZE else unat curStackSz)
      in map (\<lambda>pos. si_mem si (uc_sp si + of_nat pos)) [0..<cpySz])"

definition WriteContext :: "signal_in \<Rightarrow> ThreadSampler \<Rightarrow> ThreadSampler" where
  "WriteContext si s =
     (case buffers s of
        None \<Rightarrow> s
      | Some cs \<Rightarrow>
          if \<not> s_init s then s
          else
            let index = writeIndex s; c = cs index in
            if snapshotTime c > 0 \<and> processTime c = 0 then s
            else
              let s1 = set_context index
                    (\<lambda>c. c\<lparr>cx_fp := uc_fp si, cx_lr := uc_lr si, cx_sp := uc_sp si, cx_pc := uc_pc si\<rparr>) s in
              if uc_sp si < stackBegin s \<or> uc_sp si \<ge> stackEnd s then s1
              else
                let bytes = copied si (stackEnd s);
                    s2 = set_context index (\<lambda>c. c\<lparr>cx_buffer := bytes @ drop (length bytes) (cx_buffer c)\<rparr>) s1;
                    s3 = (if recordSubmitterStack s2 \<and> submitterStackIdIndex s2 < submitterStackIdsMaxSize s2
                          then s2\<lparr>submitterStackIds := (submitterStackIds s2)[submitterStackIdIndex s2 := si_submitter si],
                                  submitterStackIdIndex := submitterStackIdIndex s2 + 1\<rparr>
                          else s2)
                in set_context index (\<lambda>c. c\<lparr>processTime := 0, snapshotTime := si_now si\<rparr>)
                     (s3\<lparr>writeIndex := (index + 1) mod SAMPLER_MAX_BUFFER_SZ\<rparr>))"

text \<open>The delivery of a signal that is queued.\<close>

definition ThreadSamplerSignalHandler :: "signal_in \<Rightarrow> ThreadSampler \<Rightarrow> ThreadSampler" where
  "ThreadSamplerSignalHandler si s =
     (if signals s = 0 then s else WriteContext si (s\<lparr>signals := signals s - 1\<rparr>))"

text \<open>\<open>queued\<close> tells whether the signal could be queued.\<close>

definition SendSampleRequest :: "u64 \<Rightarrow> bool \<Rightarrow> ThreadSampler \<Rightarrow> ThreadSampler" where
  "SendSampleRequest ts queued s =
     (case GetWriteContext s of
        None \<Rightarrow> s
      | Some i \<Rightarrow>
          let s1 = set_context i (\<lambda>c. c\<lparr>requestTime := ts\<rparr>) s
          in if queued then s1\<lparr>signals := signals s1 + 1\<rparr> else s1)"

text \<open>One pass of the loop of \<^verbatim>\<open>ProcessStackBuffer\<close> over the context \<open>i\<close>; \<open>ts\<close> is the clock at its end.\<close>

definition process_one :: "sampler_lib \<Rightarrow> u64 \<Rightarrow> nat \<Rightarrow> ThreadSampler \<Rightarrow> ThreadSampler" where
  "process_one lb ts i s =
     (case buffers s of
        None \<Rightarrow> s
      | Some cs \<Rightarrow>
          let c = cs i; pcs = lib_unwind lb c in
          set_context i (\<lambda>c. c\<lparr>requestTime := 0, snapshotTime := 0, processTime := ts\<rparr>)
            (s\<lparr>timeStampedPcsList := timeStampedPcsList s @ [(snapshotTime c, pcs)],
               printer := map_option (\<lambda>tab. tab @ [(pcs, snapshotTime c)]) (printer s),
               processCount := processCount s + 1\<rparr>))"

lemma set_context_sel [simp]:
  "readIndex (set_context i f s) = readIndex s" "writeIndex (set_context i f s) = writeIndex s"
  "signals (set_context i f s) = signals s" "s_init (set_context i f s) = s_init s"
  "timeStampedPcsList (set_context i f s) = timeStampedPcsList s" "stackEnd (set_context i f s) = stackEnd s"
  "stackBegin (set_context i f s) = stackBegin s" "processCount (set_context i f s) = processCount s"
  "buffers (set_context i f s) = map_option (\<lambda>cs. cs(i := f (cs i))) (buffers s)"
  by (simp_all add: set_context_def split: option.split)

text \<open>Every pass empties a context, and behind the first pass the index is within the ring: the loop ends.\<close>

definition full :: "ThreadUnwindContext \<Rightarrow> bool" where
  "full c \<longleftrightarrow> requestTime c \<noteq> 0 \<and> snapshotTime c \<noteq> 0"

definition left :: "ThreadSampler \<Rightarrow> nat" where
  "left s = (case buffers s of None \<Rightarrow> 0 | Some cs \<Rightarrow>
     (if readIndex s < 2 then 0 else 1) + of_bool (full (cs 0)) + of_bool (full (cs 1)))"

function process_loop :: "sampler_lib \<Rightarrow> (nat \<Rightarrow> u64) \<Rightarrow> nat \<Rightarrow> ThreadSampler \<Rightarrow> ThreadSampler" where
  "process_loop lb clk k s =
     (case GetReadContext s of
        (None, s1) \<Rightarrow> s1
      | (Some i, s1) \<Rightarrow> process_loop lb clk (Suc k) (process_one lb (clk k) i s1))"
  by auto
termination
proof (relation "measure (\<lambda>(lb, clk, k, s). left s)", goal_cases)
  case (2 lb clk k s o1 s1 i)
  then have "GetReadContext s = (Some i, s1)" by simp
  then obtain cs where cs: "buffers s = Some cs" "i = readIndex s" "full (cs i)" "s1 = s\<lparr>readIndex := (i + 1) mod 2\<rparr>"
    by (auto simp: GetReadContext_def full_def SAMPLER_MAX_BUFFER_SZ_def Let_def split: option.splits if_splits)
  consider "i = 0" | "i = 1" | "2 \<le> i" by linarith
  then show ?case using cs by cases (auto simp: left_def process_one_def full_def Let_def)
qed simp

declare process_loop.simps [simp del]

definition ProcessStackBuffer :: "sampler_lib \<Rightarrow> (nat \<Rightarrow> u64) \<Rightarrow> ThreadSampler \<Rightarrow> ThreadSampler" where
  "ProcessStackBuffer lb clk s = (if \<not> s_init s then s else process_loop lb clk 0 s)"

record sample_in =
  sa_ts :: u64
  sa_queued :: bool
  sa_clk :: "nat \<Rightarrow> u64"
  sa_end :: u64

definition Sample :: "sampler_lib \<Rightarrow> sample_in \<Rightarrow> ThreadSampler \<Rightarrow> int \<times> ThreadSampler" where
  "Sample lb sa s =
     (if \<not> s_init s then (- 1, s)
      else (0, (ProcessStackBuffer lb (sa_clk sa) (SendSampleRequest (sa_ts sa) (sa_queued sa) s))
                 \<lparr>processFinishTime := sa_end sa\<rparr>))"


section \<open>Collecting\<close>

definition GetStackByPcs :: "sampler_lib \<Rightarrow> u64 list \<Rightarrow> ThreadSampler \<Rightarrow> u64 \<Rightarrow> string" where
  "GetStackByPcs lb pcs s time =
     (if \<not> unwinder s \<or> \<not> s_maps s then []
      else (if time \<noteq> 0 then ''SnapshotTime:'' @ lib_time lb time @ [CHR 0x0A] else []) @
           concat (map (\<lambda>i. lib_frame lb i (pcs ! i)) [0..<length pcs]))"

definition stack_text :: "sampler_lib \<Rightarrow> ThreadSampler \<Rightarrow> nat \<Rightarrow> string" where
  "stack_text lb s i =
     (case timeStampedPcsList s ! i of (time, pcs) \<Rightarrow>
       GetStackByPcs lb pcs s time @
       (if recordSubmitterStack s \<and> i < submitterStackIdsMaxSize s \<and> submitterStackIds s ! i \<noteq> 0
        then ''========SubmitterStacktrace========'' @ [CHR 0x0A] @
             GetStackByPcs lb (lib_async lb (submitterStackIds s ! i)) s 0
        else []) @ [CHR 0x0A])"

text \<open>\<open>wchan\<close> is the content of \<^verbatim>\<open>/proc/self/wchan\<close>, empty if it cannot be read.\<close>

definition CollectStack ::
  "sampler_lib \<Rightarrow> (nat \<Rightarrow> u64) \<Rightarrow> string \<Rightarrow> bool \<Rightarrow> ThreadSampler \<Rightarrow> bool \<times> string \<times> ThreadSampler" where
  "CollectStack lb clk wchan treeFormat s0 =
     (let s = (ProcessStackBuffer lb clk s0)\<lparr>heaviestStack := []\<rparr> in
      if timeStampedPcsList s = [] then (False, ''/proc/self/wchan: '' @ [CHR 0x0A] @ wchan @ [CHR 0x0A], s)
      else if \<not> treeFormat then (True, concat (map (stack_text lb s) [0..<length (timeStampedPcsList s)]), s)
      else let tab = (case printer s of Some tab \<Rightarrow> tab | None \<Rightarrow> [])
           in (True, lib_tree lb tab, s\<lparr>heaviestStack := lib_heaviest lb tab\<rparr>))"

record SamplerResult =
  samplerStartTime :: u64
  samplerFinishTime :: u64
  samplerCount :: int

definition ThreadSamplerGetResult :: "ThreadSampler \<Rightarrow> SamplerResult" where
  "ThreadSamplerGetResult s =
     \<lparr>samplerStartTime = processStartTime s div 1000000, samplerFinishTime = processFinishTime s div 1000000,
      samplerCount = sint (ucast (processCount s) :: 32 word)\<rparr>"

section \<open>The interface of the library\<close>

text \<open>\<^verbatim>\<open>strncpy_s\<close> into a buffer of \<open>destMax\<close> bytes: what it holds then, or the error for an empty buffer.\<close>

definition strncpy_s :: "nat \<Rightarrow> string \<Rightarrow> string option" where
  "strncpy_s destMax src =
     (if destMax = 0 then None
      else Some (take (if length src \<ge> destMax then destMax - 1 else length src) (takeWhile (\<lambda>c. c \<noteq> CHR 0x00) src)))"

definition ThreadSamplerInit :: "sampler_lib \<Rightarrow> init_in \<Rightarrow> nat \<Rightarrow> int \<Rightarrow> ThreadSampler \<Rightarrow> int \<times> ThreadSampler" where
  "ThreadSamplerInit lb ii collectStackCount record s =
     (case Sampler_Init lb ii collectStackCount (record = 1) s of (ok, s1) \<Rightarrow> (if ok then 0 else - 1, s1))"

definition ThreadSamplerSample :: "sampler_lib \<Rightarrow> sample_in \<Rightarrow> ThreadSampler \<Rightarrow> int \<times> ThreadSampler" where
  "ThreadSamplerSample lb sa s = Sample lb sa s"

text \<open>The result and what is written to the two buffers, if something is.\<close>

definition ThreadSamplerCollect ::
  "sampler_lib \<Rightarrow> (nat \<Rightarrow> u64) \<Rightarrow> string \<Rightarrow> nat \<Rightarrow> nat \<Rightarrow> int \<Rightarrow> ThreadSampler
     \<Rightarrow> int \<times> string option \<times> string option \<times> ThreadSampler" where
  "ThreadSamplerCollect lb clk wchan stackSize heaviestSize treeFormat s =
     (case CollectStack lb clk wchan (treeFormat = 1) s of (ok, stk, s1) \<Rightarrow>
      let success = (if ok then 0 else - 1) in
      case strncpy_s stackSize stk of
        None \<Rightarrow> (- 1, None, None, s1)
      | Some a \<Rightarrow>
          if treeFormat \<noteq> 1 then (success, Some a, None, s1)
          else (case strncpy_s heaviestSize (heaviestStack s1) of
              None \<Rightarrow> (- 1, Some a, None, s1)
            | Some b \<Rightarrow> (success, Some a, Some b, s1)))"

definition ThreadSamplerDeinit :: "sampler_lib \<Rightarrow> init_in \<Rightarrow> ThreadSampler \<Rightarrow> int \<times> ThreadSampler" where
  "ThreadSamplerDeinit lb ii s = (case Sampler_Deinit lb ii s of (ok, s1) \<Rightarrow> (if ok then 0 else - 1, s1))"

section \<open>The ring as a queue\<close>

text \<open>
  A queue with room for some items: what is put at its end comes out at its front, and other
  operations leave it alone. \<open>item_of\<close> is what is stored of an input.
\<close>

datatype ('x, 'r, 'e) fifo_op = Put 'x | Get 'r | Idle 'e

locale bounded_fifo =
  fixes inv :: "'s \<Rightarrow> bool" and items :: "'s \<Rightarrow> 'i list" and cap :: nat
    and put :: "'x \<Rightarrow> 's \<Rightarrow> 's" and legal :: "'x \<Rightarrow> 's \<Rightarrow> bool" and item_of :: "'x \<Rightarrow> 's \<Rightarrow> 'i"
    and get :: "'r \<Rightarrow> 's \<Rightarrow> 's option" and idle :: "'e \<Rightarrow> 's \<Rightarrow> 's" and calm :: "'e \<Rightarrow> bool"
  assumes put_items: "inv s \<Longrightarrow> legal x s \<Longrightarrow> inv (put x s) \<and> items (put x s) = items s @ [item_of x s]"
    and idle_items: "inv s \<Longrightarrow> calm e \<Longrightarrow> inv (idle e s) \<and> items (idle e s) = items s"
    and get_empty: "inv s \<Longrightarrow> items s = [] \<Longrightarrow> get r s = None"
    and get_item: "inv s \<Longrightarrow> items s = i # is \<Longrightarrow> \<exists>s'. get r s = Some s' \<and> inv s' \<and> items s' = is"
    and bounded: "inv s \<Longrightarrow> length (items s) \<le> cap"
begin

text \<open>The items that come out, the items that go in, and the state after a sequence of operations.\<close>

fun run :: "('x, 'r, 'e) fifo_op list \<Rightarrow> 's \<Rightarrow> 'i list \<times> 'i list \<times> 's" where
  "run [] s = ([], [], s)"
| "run (Put x # ops) s = (case run ops (put x s) of (outs, ins, s') \<Rightarrow> (outs, item_of x s # ins, s'))"
| "run (Get r # ops) s =
     (case get r s of
        None \<Rightarrow> run ops s
      | Some s1 \<Rightarrow> (case run ops s1 of (outs, ins, s') \<Rightarrow> (hd (items s) # outs, ins, s')))"
| "run (Idle e # ops) s = run ops (idle e s)"

fun legal_run :: "('x, 'r, 'e) fifo_op list \<Rightarrow> 's \<Rightarrow> bool" where
  "legal_run [] s = True"
| "legal_run (Put x # ops) s = (legal x s \<and> legal_run ops (put x s))"
| "legal_run (Get r # ops) s = (case get r s of None \<Rightarrow> legal_run ops s | Some s1 \<Rightarrow> legal_run ops s1)"
| "legal_run (Idle e # ops) s = (calm e \<and> legal_run ops (idle e s))"

lemma run_order:
  assumes "inv s" and "legal_run ops s" and "run ops s = (outs, ins, s')"
  shows "inv s' \<and> outs @ items s' = items s @ ins \<and> length ins \<le> length outs + cap"
  using assms
proof (induction ops arbitrary: s outs ins)
  case Nil
  then show ?case by simp
next
  case (Cons op ops)
  then show ?case
  proof (cases op)
    case (Put x)
    obtain outs' ins' where r: "run ops (put x s) = (outs', ins', s')" "outs = outs'" "ins = item_of x s # ins'"
      using Cons.prems(3) Put by (auto split: prod.splits)
    have p: "inv (put x s)" "items (put x s) = items s @ [item_of x s]" using put_items Cons.prems Put by auto
    have ih: "inv s' \<and> outs @ items s' = items s @ ins"
      using Cons.IH [OF p(1) _ r(1)] Cons.prems Put p(2) r by simp
    then have "length outs + length (items s') = length (items s) + length ins" by (metis length_append)
    then show ?thesis using ih bounded [of s'] by auto
  next
    case (Get r)
    show ?thesis
    proof (cases "items s")
      case Nil
      then show ?thesis using Cons Get get_empty [of s r] by simp
    next
      case c: (Cons i "is")
      then obtain s1 where g: "get r s = Some s1" "inv s1" "items s1 = is" using get_item Cons.prems by blast
      then obtain outs' where r: "run ops s1 = (outs', ins, s')" "outs = i # outs'"
        using Cons.prems(3) Get c by (auto split: prod.splits)
      have "inv s' \<and> outs' @ items s' = is @ ins \<and> length ins \<le> length outs' + cap"
        using Cons.IH [OF g(2) _ r(1)] Cons.prems(2) Get g by simp
      then show ?thesis using r c by simp
    qed
  next
    case (Idle e)
    then show ?thesis using Cons idle_items [of s e] by auto
  qed
qed

end

text \<open>
  The contexts of the ring. A free one takes a request; a requested one waits for its signal; a full one
  waits for the reader.
\<close>

definition free :: "ThreadUnwindContext \<Rightarrow> bool" where
  "free c \<longleftrightarrow> requestTime c = 0 \<and> snapshotTime c = 0"

definition requested :: "ThreadUnwindContext \<Rightarrow> bool" where
  "requested c \<longleftrightarrow> requestTime c \<noteq> 0 \<and> snapshotTime c = 0"

definition taken :: "ThreadUnwindContext \<Rightarrow> bool" where
  "taken c \<longleftrightarrow> full c \<and> processTime c = 0"

definition next_ok :: "nat \<Rightarrow> ThreadUnwindContext \<Rightarrow> bool" where
  "next_ok n c \<longleftrightarrow> n = 0 \<and> free c \<or> n = 1 \<and> requested c"

definition ring_inv :: "ThreadSampler \<Rightarrow> bool" where
  "ring_inv s \<longleftrightarrow> s_init s \<and> readIndex s < 2 \<and>
     (\<exists>cs. buffers s = Some cs \<and>
        (let c = cs (readIndex s); d = cs (1 - readIndex s) in
         writeIndex s = readIndex s \<and> next_ok (signals s) c \<and> free d \<or>
         writeIndex s = 1 - readIndex s \<and> taken c \<and> next_ok (signals s) d \<or>
         writeIndex s = readIndex s \<and> taken c \<and> taken d \<and> signals s = 0))"

text \<open>What is in the ring, the oldest first: the time, the registers and the bytes copied.\<close>

type_synonym snapshot = "u64 \<times> u64 \<times> u64 \<times> u64 \<times> u64 \<times> 8 word list"

definition copy_size :: "u64 \<Rightarrow> u64 \<Rightarrow> nat" where
  "copy_size end sp = min STACK_BUFFER_SIZE (unat (end - sp))"

definition view :: "u64 \<Rightarrow> ThreadUnwindContext \<Rightarrow> snapshot" where
  "view end c = (snapshotTime c, cx_pc c, cx_sp c, cx_fp c, cx_lr c, take (copy_size end (cx_sp c)) (cx_buffer c))"

definition pending :: "ThreadSampler \<Rightarrow> snapshot list" where
  "pending s = (case buffers s of None \<Rightarrow> [] | Some cs \<Rightarrow>
     if \<not> full (cs (readIndex s)) then []
     else view (stackEnd s) (cs (readIndex s)) #
       (if full (cs (1 - readIndex s)) then [view (stackEnd s) (cs (1 - readIndex s))] else []))"

definition snapshot_of :: "signal_in \<Rightarrow> ThreadSampler \<Rightarrow> snapshot" where
  "snapshot_of si s = (si_now si, uc_pc si, uc_sp si, uc_fp si, uc_lr si, copied si (stackEnd s))"

text \<open>
  The whole contexts that wait, as the unwinder will get them, and the stack it makes of one; the context a
  signal leaves: the registers and the bytes of the stack of the interrupted thread, the rest of the buffer as it
  was.
\<close>

definition waiting :: "ThreadSampler \<Rightarrow> ThreadUnwindContext list" where
  "waiting s = (case buffers s of None \<Rightarrow> [] | Some cs \<Rightarrow>
     if \<not> full (cs (readIndex s)) then []
     else cs (readIndex s) # (if full (cs (1 - readIndex s)) then [cs (1 - readIndex s)] else []))"

definition unwound :: "sampler_lib \<Rightarrow> ThreadUnwindContext \<Rightarrow> u64 \<times> u64 list" where
  "unwound lb c = (snapshotTime c, lib_unwind lb c)"

definition snap_ctx :: "signal_in \<Rightarrow> ThreadSampler \<Rightarrow> ThreadUnwindContext" where
  "snap_ctx si s = (let c = the (buffers s) (writeIndex s); bytes = copied si (stackEnd s) in
     \<lparr>cx_pc = uc_pc si, cx_sp = uc_sp si, cx_fp = uc_fp si, cx_lr = uc_lr si, requestTime = requestTime c,
      snapshotTime = si_now si, processTime = 0, cx_buffer = bytes @ drop (length bytes) (cx_buffer c)\<rparr>)"

lemma snap_ctx_sel [simp]:
  "cx_pc (snap_ctx si s) = uc_pc si" "cx_sp (snap_ctx si s) = uc_sp si" "cx_fp (snap_ctx si s) = uc_fp si"
  "cx_lr (snap_ctx si s) = uc_lr si" "snapshotTime (snap_ctx si s) = si_now si"
  by (simp_all add: snap_ctx_def Let_def)

lemma pending_waiting: "pending s = map (view (stackEnd s)) (waiting s)"
  by (simp add: pending_def waiting_def split: option.split)

text \<open>A signal that was asked for and finds the thread on its own stack.\<close>

definition on_stack :: "signal_in \<Rightarrow> ThreadSampler \<Rightarrow> bool" where
  "on_stack si s \<longleftrightarrow> stackBegin s \<le> uc_sp si \<and> uc_sp si < stackEnd s \<and> si_now si \<noteq> 0"

definition read_one :: "sampler_lib \<Rightarrow> u64 \<Rightarrow> ThreadSampler \<Rightarrow> ThreadSampler option" where
  "read_one lb ts s = (case GetReadContext s of (None, _) \<Rightarrow> None | (Some i, s1) \<Rightarrow> Some (process_one lb ts i s1))"

lemmas ring_defs = ring_inv_def next_ok_def free_def requested_def taken_def full_def Let_def

lemma length_copied: "length (copied si end) = copy_size end (uc_sp si)"
proof -
  have "of_nat STACK_BUFFER_SIZE < (end - uc_sp si) \<longleftrightarrow> STACK_BUFFER_SIZE < unat (end - uc_sp si)"
    by (simp add: word_less_nat_alt STACK_BUFFER_SIZE_def)
  then show ?thesis by (simp add: copied_def copy_size_def Let_def)
qed

lemma index_cases: "(n :: nat) < 2 \<Longrightarrow> n = 0 \<or> n = 1"
  by auto

lemma ring_requested:
  assumes "ring_inv s" and "signals s = 1"
  obtains cs where "buffers s = Some cs" and "s_init s" and "requested (cs (writeIndex s))" and "readIndex s < 2"
    and "writeIndex s = readIndex s \<and> free (cs (1 - readIndex s)) \<or> writeIndex s = 1 - readIndex s \<and> taken (cs (readIndex s))"
  using assms by (auto simp: ring_inv_def next_ok_def Let_def)

lemma handler_writes:
  assumes "buffers s = Some cs" and "s_init s" and "requested (cs (writeIndex s))" and "on_stack si s" and "signals s = 1"
  defines "c \<equiv> cs (writeIndex s)"
  defines "c' \<equiv> c\<lparr>cx_fp := uc_fp si, cx_lr := uc_lr si, cx_sp := uc_sp si, cx_pc := uc_pc si,
      cx_buffer := copied si (stackEnd s) @ drop (copy_size (stackEnd s) (uc_sp si)) (cx_buffer c),
      processTime := 0, snapshotTime := si_now si\<rparr>"
  shows "buffers (ThreadSamplerSignalHandler si s) = Some (cs(writeIndex s := c'))"
    and "writeIndex (ThreadSamplerSignalHandler si s) = (writeIndex s + 1) mod 2"
    and "readIndex (ThreadSamplerSignalHandler si s) = readIndex s"
    and "signals (ThreadSamplerSignalHandler si s) = 0" and "s_init (ThreadSamplerSignalHandler si s)"
    and "stackEnd (ThreadSamplerSignalHandler si s) = stackEnd s"
    and "timeStampedPcsList (ThreadSamplerSignalHandler si s) = timeStampedPcsList s"
proof -
  have sp: "\<not> uc_sp si < stackBegin s" "\<not> stackEnd s \<le> uc_sp si" and r: "snapshotTime (cs (writeIndex s)) = 0"
    using assms(3,4) by (auto simp: on_stack_def requested_def)
  note defs = ThreadSamplerSignalHandler_def WriteContext_def c'_def c_def length_copied SAMPLER_MAX_BUFFER_SZ_def
    set_context_def Let_def
  show "buffers (ThreadSamplerSignalHandler si s) = Some (cs(writeIndex s := c'))"
    "writeIndex (ThreadSamplerSignalHandler si s) = (writeIndex s + 1) mod 2"
    "readIndex (ThreadSamplerSignalHandler si s) = readIndex s"
    "signals (ThreadSamplerSignalHandler si s) = 0" "s_init (ThreadSamplerSignalHandler si s)"
    "stackEnd (ThreadSamplerSignalHandler si s) = stackEnd s"
    "timeStampedPcsList (ThreadSamplerSignalHandler si s) = timeStampedPcsList s"
    using assms(1,2,5) sp r by (simp_all add: defs)
qed

lemma view_written:
  "view end (c\<lparr>cx_fp := uc_fp si, cx_lr := uc_lr si, cx_sp := uc_sp si, cx_pc := uc_pc si,
      cx_buffer := copied si end @ rest, processTime := 0, snapshotTime := si_now si\<rparr>) =
    (si_now si, uc_pc si, uc_sp si, uc_fp si, uc_lr si, copied si end)"
  by (simp add: view_def length_copied)

lemma ring_put:
  assumes "ring_inv s" and "signals s = 1 \<and> on_stack si s"
  shows "ring_inv (ThreadSamplerSignalHandler si s) \<and>
    pending (ThreadSamplerSignalHandler si s) = pending s @ [snapshot_of si s]"
proof -
  obtain cs where cs: "buffers s = Some cs" "s_init s" "requested (cs (writeIndex s))" "readIndex s < 2"
    "writeIndex s = readIndex s \<and> free (cs (1 - readIndex s)) \<or> writeIndex s = 1 - readIndex s \<and> taken (cs (readIndex s))"
    using ring_requested [of s] assms by blast
  have now: "si_now si \<noteq> 0" using assms(2) by (simp add: on_stack_def)
  note h = handler_writes [OF cs(1-3) conjunct2 [OF assms(2)] conjunct1 [OF assms(2)]]
  from index_cases [OF cs(4)] cs(3,5) now show ?thesis
    by (elim disjE conjE)
      (simp_all add: ring_defs h cs(1) pending_def snapshot_of_def view_written view_written [simplified view_def])
qed

lemma ring_put_waiting:
  assumes "ring_inv s" and "signals s = 1 \<and> on_stack si s"
  shows "waiting (ThreadSamplerSignalHandler si s) = waiting s @ [snap_ctx si s]"
proof -
  obtain cs where cs: "buffers s = Some cs" "s_init s" "requested (cs (writeIndex s))" "readIndex s < 2"
    "writeIndex s = readIndex s \<and> free (cs (1 - readIndex s)) \<or> writeIndex s = 1 - readIndex s \<and> taken (cs (readIndex s))"
    using ring_requested [of s] assms by blast
  have now: "si_now si \<noteq> 0" using assms(2) by (simp add: on_stack_def)
  note h = handler_writes [OF cs(1-3) conjunct2 [OF assms(2)] conjunct1 [OF assms(2)]]
  from index_cases [OF cs(4)] cs(3,5) now show ?thesis
    by (elim disjE conjE) (simp_all add: ring_defs h cs(1) waiting_def snap_ctx_def length_copied)
qed

lemma request_writes:
  assumes "buffers s = Some cs"
  shows "free (cs (writeIndex s)) \<Longrightarrow> SendSampleRequest ts True s =
      s\<lparr>buffers := Some (cs(writeIndex s := (cs (writeIndex s))\<lparr>requestTime := ts\<rparr>)), signals := signals s + 1\<rparr>"
    and "requested (cs (writeIndex s)) \<or> taken (cs (writeIndex s)) \<Longrightarrow> SendSampleRequest ts q s = s"
  using assms by (auto simp: SendSampleRequest_def GetWriteContext_def free_def requested_def taken_def full_def
      set_context_def word_gt_0 Let_def)

lemma next_ok_cases: "next_ok n c \<Longrightarrow> free c \<and> n = 0 \<or> requested c \<and> n = 1"
  by (auto simp: next_ok_def)

lemma ring_idle:
  assumes "ring_inv s" and "ts \<noteq> 0"
  shows "ring_inv (SendSampleRequest ts True s) \<and> pending (SendSampleRequest ts True s) = pending s \<and>
    waiting (SendSampleRequest ts True s) = waiting s"
proof -
  obtain cs where cs: "buffers s = Some cs" "readIndex s < 2" "s_init s"
    and c: "writeIndex s = readIndex s \<and> next_ok (signals s) (cs (readIndex s)) \<and> free (cs (1 - readIndex s)) \<or>
      writeIndex s = 1 - readIndex s \<and> taken (cs (readIndex s)) \<and> next_ok (signals s) (cs (1 - readIndex s)) \<or>
      writeIndex s = readIndex s \<and> taken (cs (readIndex s)) \<and> taken (cs (1 - readIndex s)) \<and> signals s = 0"
    using assms(1) by (auto simp: ring_inv_def Let_def)
  show ?thesis
  proof (cases "free (cs (writeIndex s))")
    case True
    then have n: "signals s = 0" using c by (auto simp: next_ok_def requested_def free_def taken_def full_def)
    from index_cases [OF cs(2)] c True assms(2) n show ?thesis
      by (elim disjE conjE)
        (simp_all add: request_writes(1) [OF cs(1) True] cs ring_defs pending_def waiting_def view_def)
  next
    case False
    then have "requested (cs (writeIndex s)) \<or> taken (cs (writeIndex s))" using c by (auto dest: next_ok_cases)
    then show ?thesis using request_writes(2) [OF cs(1)] assms(1) by simp
  qed
qed

lemma read_writes:
  assumes "buffers s = Some cs" and "full (cs (readIndex s))" and "readIndex s < 2"
  defines "c \<equiv> cs (readIndex s)"
  shows "read_one lb ts s = Some (s\<lparr>readIndex := 1 - readIndex s,
      timeStampedPcsList := timeStampedPcsList s @ [(snapshotTime c, lib_unwind lb c)],
      printer := map_option (\<lambda>tab. tab @ [(lib_unwind lb c, snapshotTime c)]) (printer s),
      processCount := processCount s + 1,
      buffers := Some (cs(readIndex s := c\<lparr>requestTime := 0, snapshotTime := 0, processTime := ts\<rparr>))\<rparr>)"
proof -
  have "(readIndex s + 1) mod SAMPLER_MAX_BUFFER_SZ = 1 - readIndex s"
    using index_cases [OF assms(3)] by (auto simp: SAMPLER_MAX_BUFFER_SZ_def)
  then show ?thesis
    using assms(1,2) by (simp add: read_one_def GetReadContext_def process_one_def full_def set_context_def c_def Let_def)
qed

lemma ring_get:
  assumes "ring_inv s" and "pending s = i # is"
  shows "\<exists>s'. read_one lb ts s = Some s' \<and> ring_inv s' \<and> pending s' = is"
proof -
  obtain cs where cs: "buffers s = Some cs" "readIndex s < 2" "s_init s" "full (cs (readIndex s))"
    and c: "writeIndex s = 1 - readIndex s \<and> taken (cs (readIndex s)) \<and> next_ok (signals s) (cs (1 - readIndex s)) \<or>
      writeIndex s = readIndex s \<and> taken (cs (readIndex s)) \<and> taken (cs (1 - readIndex s)) \<and> signals s = 0"
    using assms by (auto simp: ring_defs pending_def split: if_splits)
  from index_cases [OF cs(2)] c assms(2) cs(4) show ?thesis
    unfolding read_writes [OF cs(1,4,2)]
    by (elim disjE conjE) (simp_all add: cs ring_defs pending_def view_def split: if_splits)
qed

lemma ring_get_empty: "ring_inv s \<Longrightarrow> pending s = [] \<Longrightarrow> read_one lb ts s = None"
  by (auto simp: ring_inv_def pending_def read_one_def GetReadContext_def full_def Let_def split: if_splits)

lemma ring_bounded: "length (pending s) \<le> 2"
  by (simp add: pending_def split: option.split)

interpretation ring: bounded_fifo ring_inv pending 2 ThreadSamplerSignalHandler "\<lambda>si s. signals s = 1 \<and> on_stack si s"
  snapshot_of "read_one lb" "\<lambda>ts. SendSampleRequest ts True" "\<lambda>ts. ts \<noteq> 0" for lb
  by unfold_locales (simp_all add: ring_put ring_idle ring_get ring_get_empty ring_bounded)

section \<open>Sequences of samples\<close>

text \<open>
  What happens in a session: the watchdog thread asks for a sample or works through the ring, and the main
  thread handles a signal, if one is queued.
\<close>

datatype sampler_op = Request u64 | Signal signal_in | Process "nat \<Rightarrow> u64"

fun sampler_exec :: "sampler_lib \<Rightarrow> sampler_op \<Rightarrow> ThreadSampler \<Rightarrow> ThreadSampler" where
  "sampler_exec lb (Request ts) s = SendSampleRequest ts True s"
| "sampler_exec lb (Signal si) s = ThreadSamplerSignalHandler si s"
| "sampler_exec lb (Process clk) s = ProcessStackBuffer lb clk s"

fun op_ok :: "ThreadSampler \<Rightarrow> sampler_op \<Rightarrow> bool" where
  "op_ok s (Request ts) = (ts \<noteq> 0)"
| "op_ok s (Signal si) = on_stack si s"
| "op_ok s (Process clk) = True"

text \<open>What the main thread had when it was interrupted: one context for every signal that was queued.\<close>

definition taken_by :: "sampler_op \<Rightarrow> ThreadSampler \<Rightarrow> ThreadUnwindContext list" where
  "taken_by op s = (case op of Signal si \<Rightarrow> if signals s = 0 then [] else [snap_ctx si s] | _ \<Rightarrow> [])"

lemma taken_by_sel [simp]:
  "taken_by (Request ts) s = []" "taken_by (Process clk) s = []"
  "taken_by (Signal si) s = (if signals s = 0 then [] else [snap_ctx si s])"
  by (simp_all add: taken_by_def)

fun taken_ctxs :: "sampler_lib \<Rightarrow> sampler_op list \<Rightarrow> ThreadSampler \<Rightarrow> ThreadUnwindContext list" where
  "taken_ctxs lb [] s = []"
| "taken_ctxs lb (op # ops) s = taken_by op s @ taken_ctxs lb ops (sampler_exec lb op s)"

lemma process_loop_read:
  "process_loop lb clk k s = (case read_one lb (clk k) s of None \<Rightarrow> s | Some s1 \<Rightarrow> process_loop lb clk (Suc k) s1)"
proof -
  have "s1 = s" if "GetReadContext s = (None, s1)" for s1
    using that by (auto simp: GetReadContext_def Let_def split: option.splits if_splits)
  then show ?thesis
    by (subst process_loop.simps) (auto simp: read_one_def split: option.split prod.split)
qed

text \<open>The stacks unwound so far, and behind them those the contexts that wait will give.\<close>

definition seen :: "sampler_lib \<Rightarrow> ThreadSampler \<Rightarrow> (u64 \<times> u64 list) list" where
  "seen lb s = timeStampedPcsList s @ map (unwound lb) (waiting s)"

definition bounds :: "ThreadSampler \<Rightarrow> u64 \<times> u64" where
  "bounds s = (stackBegin s, stackEnd s)"

lemma read_one_seen:
  assumes "ring_inv s" and "read_one lb ts s = Some s'"
  shows "ring_inv s'" and "pending s \<noteq> []" and "pending s' = tl (pending s)" and "seen lb s' = seen lb s"
    and "bounds s' = bounds s"
proof -
  show ne: "pending s \<noteq> []" using assms ring_get_empty by fastforce
  then obtain i "is" where p: "pending s = i # is" by (cases "pending s") auto
  then show "ring_inv s'" "pending s' = tl (pending s)" using ring_get [OF assms(1) p, of lb ts] assms(2) by auto
  obtain cs where cs: "buffers s = Some cs" "readIndex s < 2" "full (cs (readIndex s))"
    using p assms(1) by (auto simp: ring_inv_def pending_def split: if_splits)
  have w: "waiting s = cs (readIndex s) # waiting s'"
    "timeStampedPcsList s' = timeStampedPcsList s @ [unwound lb (cs (readIndex s))]" "bounds s' = bounds s"
    using assms(2) index_cases [OF cs(2)] cs(3) unfolding read_writes [OF cs(1,3,2)]
    by (auto simp: waiting_def cs(1) full_def unwound_def bounds_def)
  then show "seen lb s' = seen lb s" "bounds s' = bounds s" by (simp_all add: seen_def)
qed

lemma process_loop_ring:
  "ring_inv s \<Longrightarrow> ring_inv (process_loop lb clk k s) \<and> pending (process_loop lb clk k s) = [] \<and>
    seen lb (process_loop lb clk k s) = seen lb s \<and> bounds (process_loop lb clk k s) = bounds s"
proof (induction "length (pending s)" arbitrary: s k rule: less_induct)
  case less
  show ?case
  proof (cases "read_one lb (clk k) s")
    case None
    moreover have "pending s = []"
    proof (rule ccontr)
      assume "pending s \<noteq> []"
      then obtain i "is" where "pending s = i # is" by (cases "pending s") auto
      from ring_get [OF less.prems this, of lb "clk k"] None show False by simp
    qed
    ultimately show ?thesis using less.prems by (simp add: process_loop_read [of lb clk k s])
  next
    case (Some s1)
    note r = read_one_seen [OF less.prems Some]
    have "length (pending s1) < length (pending s)" using r(2,3) by (cases "pending s") auto
    then show ?thesis using less.hyps [OF _ r(1)] r by (simp add: process_loop_read [of lb clk k s] Some)
  qed
qed

lemma process_ring:
  assumes "ring_inv s"
  shows "ring_inv (ProcessStackBuffer lb clk s)" and "pending (ProcessStackBuffer lb clk s) = []"
    and "seen lb (ProcessStackBuffer lb clk s) = seen lb s" and "bounds (ProcessStackBuffer lb clk s) = bounds s"
proof -
  have "s_init s" using assms by (simp add: ring_inv_def)
  then show "ring_inv (ProcessStackBuffer lb clk s)" "pending (ProcessStackBuffer lb clk s) = []"
    "seen lb (ProcessStackBuffer lb clk s) = seen lb s" "bounds (ProcessStackBuffer lb clk s) = bounds s"
    using process_loop_ring [OF assms, of lb clk 0] by (simp_all add: ProcessStackBuffer_def)
qed

lemma request_seen: "seen lb (SendSampleRequest ts True s) = seen lb s" if "ring_inv s" and "ts \<noteq> 0"
  using ring_idle [OF that] by (simp add: seen_def SendSampleRequest_def Let_def split: option.split)

lemma request_bounds: "bounds (SendSampleRequest ts q s) = bounds s"
  by (simp add: bounds_def SendSampleRequest_def Let_def split: option.split)

lemma ring_signals: "ring_inv s \<Longrightarrow> signals s = 0 \<or> signals s = 1"
  by (auto simp: ring_inv_def next_ok_def Let_def)

lemma signal_ring:
  assumes "ring_inv s" and "on_stack si s"
  shows "ring_inv (ThreadSamplerSignalHandler si s)"
    and "seen lb (ThreadSamplerSignalHandler si s) = seen lb s @ map (unwound lb) (taken_by (Signal si) s)"
    and "bounds (ThreadSamplerSignalHandler si s) = bounds s"
proof -
  have "ring_inv (ThreadSamplerSignalHandler si s) \<and>
    seen lb (ThreadSamplerSignalHandler si s) = seen lb s @ map (unwound lb) (taken_by (Signal si) s) \<and>
    bounds (ThreadSamplerSignalHandler si s) = bounds s"
  proof (cases "signals s = 0")
    case True
    then show ?thesis using assms(1) by (simp add: ThreadSamplerSignalHandler_def)
  next
    case False
    then have sg: "signals s = 1" using ring_signals [OF assms(1)] by simp
    from ring_requested [OF assms(1) sg] obtain cs
      where cs: "buffers s = Some cs" "s_init s" "requested (cs (writeIndex s))" by blast
    have "stackBegin (ThreadSamplerSignalHandler si s) = stackBegin s"
      by (simp add: ThreadSamplerSignalHandler_def WriteContext_def set_context_def cs(1) Let_def)
    then show ?thesis
      using ring_put [OF assms(1), of si] ring_put_waiting [OF assms(1), of si] handler_writes [OF cs assms(2) sg] sg assms(2)
      by (simp add: seen_def bounds_def)
  qed
  then show "ring_inv (ThreadSamplerSignalHandler si s)"
    "seen lb (ThreadSamplerSignalHandler si s) = seen lb s @ map (unwound lb) (taken_by (Signal si) s)"
    "bounds (ThreadSamplerSignalHandler si s) = bounds s" by auto
qed

lemma op_ok_bounds: "bounds s' = bounds s \<Longrightarrow> op_ok s' op = op_ok s op"
  by (cases op) (simp_all add: on_stack_def bounds_def)

lemma exec_ring:
  assumes "ring_inv s" and "op_ok s op"
  shows "ring_inv (sampler_exec lb op s) \<and> bounds (sampler_exec lb op s) = bounds s \<and>
    seen lb (sampler_exec lb op s) = seen lb s @ map (unwound lb) (taken_by op s)"
  using assms by (cases op) (simp_all add: ring_idle request_seen request_bounds signal_ring process_ring del: taken_by_sel(3))


definition demo_lib :: sampler_lib where
  "demo_lib = \<lparr>CONSUME_STATISTICS = False, lib_unwind = (\<lambda>c. [cx_pc c]), lib_frame = (\<lambda>_ _. []), lib_time = (\<lambda>_. []),
     lib_async = (\<lambda>_. []), lib_tree = (\<lambda>_. []), lib_heaviest = (\<lambda>_. [])\<rparr>"

definition demo_init :: init_in where
  "demo_init = \<lparr>in_mmap = True, in_maps = True, in_range = Some (1000, 2000), in_table = True, in_now = 1,
     in_munmap = True, in_end = 2\<rparr>"

definition demo_signal :: "u64 \<Rightarrow> signal_in" where
  "demo_signal now = \<lparr>uc_fp = 0, uc_lr = 0, uc_sp = 1990, uc_pc = now, si_mem = (\<lambda>_. 7), si_now = now, si_submitter = 0\<rparr>"

lemma Init_ring:
  assumes "Sampler_Init lb ii n r s = (True, s')" and "\<not> s_init s" and "buffers s = None" and "signals s = 0"
    and "readIndex s < 2" and "writeIndex s = readIndex s"
  shows "ring_inv s'" and "pending s' = []" and "timeStampedPcsList s' = timeStampedPcsList s"
    and "in_range ii = Some (b, e) \<Longrightarrow> bounds s' = (b, e)"
  using assms index_cases [OF assms(5)]
  by (auto simp: Sampler_Init_def InitRecordBuffer_def InitUnwinder_def InitStackPrinter_def Sampler_Deinit_def ring_defs pending_def
      bounds_def ThreadUnwindContext_zero_def split: if_splits prod.splits option.splits bool.splits)

definition demo_session :: ThreadSampler where
  "demo_session = snd (Sampler_Init demo_lib demo_init 3 False ThreadSampler_init)"

lemma demo_session_ok:
  "ring_inv demo_session" "pending demo_session = []" "timeStampedPcsList demo_session = []" "bounds demo_session = (1000, 2000)"
proof -
  have "Sampler_Init demo_lib demo_init 3 False ThreadSampler_init = (True, demo_session)"
    by (simp add: demo_session_def Sampler_Init_def InitRecordBuffer_def InitUnwinder_def InitStackPrinter_def demo_init_def
        ThreadSampler_init_def)
  note i = Init_ring [OF this]
  show "ring_inv demo_session" "pending demo_session = []" "timeStampedPcsList demo_session = []"
    using i(1-3) by (simp_all add: ThreadSampler_init_def)
  show "bounds demo_session = (1000, 2000)"
    by (rule i(4)) (simp_all add: ThreadSampler_init_def demo_init_def)
qed

lemma demo_signal_ok: "now \<noteq> 0 \<Longrightarrow> on_stack (demo_signal now) demo_session"
  using demo_session_ok(4) by (simp add: on_stack_def demo_signal_def bounds_def)


section \<open>Lost requests\<close>

text \<open>A request whose signal will never be handled.\<close>

definition stuck :: "ThreadSampler \<Rightarrow> bool" where
  "stuck s \<longleftrightarrow> s_init s \<and> signals s = 0 \<and>
     (\<exists>cs. buffers s = Some cs \<and> requested (cs (writeIndex s)) \<and> \<not> full (cs (readIndex s)))"

lemma stuck_finish [simp]: "stuck (s\<lparr>processFinishTime := t\<rparr>) = stuck s"
  by (simp add: stuck_def)

lemma stuck_process: "stuck s \<Longrightarrow> ProcessStackBuffer lb clk s = s"
  by (auto simp: stuck_def ProcessStackBuffer_def process_loop_read [of lb clk 0 s] read_one_def GetReadContext_def
      full_def Let_def)

lemma stuck_sample: "stuck s \<Longrightarrow> Sample lb sa s = (0, s\<lparr>processFinishTime := sa_end sa\<rparr>)"
proof -
  assume s: "stuck s"
  then obtain cs where "buffers s = Some cs" "requested (cs (writeIndex s))" by (auto simp: stuck_def)
  then have "SendSampleRequest (sa_ts sa) (sa_queued sa) s = s" by (simp add: request_writes(2))
  with s stuck_process [OF s] show ?thesis by (simp add: Sample_def stuck_def)
qed

lemma stuck_signal: "stuck s \<Longrightarrow> ThreadSamplerSignalHandler si s = s"
  by (simp add: stuck_def ThreadSamplerSignalHandler_def)

lemma empty_ring:
  assumes "ring_inv s" and "pending s = []" and "signals s = 0"
  obtains cs where "buffers s = Some cs" and "s_init s" and "writeIndex s = readIndex s" and "readIndex s < 2"
    and "free (cs (readIndex s))" and "free (cs (1 - readIndex s))"
  using assms by (auto simp: ring_defs pending_def split: if_splits)

lemma failed_request_stuck:
  assumes "ring_inv s" and "pending s = []" and "signals s = 0" and "ts \<noteq> 0"
  shows "stuck (SendSampleRequest ts False s)"
proof -
  from empty_ring [OF assms(1-3)] obtain cs where cs: "buffers s = Some cs" "s_init s" "writeIndex s = readIndex s"
    "free (cs (readIndex s))" by blast
  then show ?thesis
    using assms(3,4) by (simp add: stuck_def SendSampleRequest_def GetWriteContext_def free_def requested_def full_def Let_def)
qed

lemma off_stack_stuck:
  assumes "ring_inv s" and "pending s = []" and "signals s = 0" and "ts \<noteq> 0"
    and "uc_sp si < stackBegin s \<or> stackEnd s \<le> uc_sp si"
  shows "stuck (ThreadSamplerSignalHandler si (SendSampleRequest ts True s))"
proof -
  from empty_ring [OF assms(1-3)] obtain cs where cs: "buffers s = Some cs" "s_init s" "writeIndex s = readIndex s"
    "free (cs (readIndex s))" by blast
  have "free (cs (writeIndex s))" using cs by simp
  from request_writes(1) [OF cs(1) this, of ts] cs assms(3-5) show ?thesis
    by (simp add: stuck_def ThreadSamplerSignalHandler_def WriteContext_def free_def requested_def full_def Let_def)
qed

text \<open>
  C33. One lost request ends the sampling. When the signal of a request cannot be queued, or finds the main
  thread on a stack other than its own, the context stays requested: from then on no call of \<^verbatim>\<open>Sample\<close>
  sends a signal or sees a stack, whatever signals come, although every one of them reports success; only a
  restart of the sampler helps.
\<close>

theorem lost_request_blocks_sampler:
  assumes "ring_inv s" and "pending s = []" and "signals s = 0" and "ts \<noteq> 0"
    and "lost = SendSampleRequest ts False s \<or>
      lost = ThreadSamplerSignalHandler si (SendSampleRequest ts True s) \<and> (uc_sp si < stackBegin s \<or> stackEnd s \<le> uc_sp si)"
    and "s' = fold (\<lambda>(sa, sg) s. ThreadSamplerSignalHandler sg (snd (Sample lb sa s))) calls lost"
  shows "timeStampedPcsList s' = timeStampedPcsList lost \<and> signals s' = 0 \<and> fst (Sample lb sa s') = 0"
proof -
  have "stuck lost" using assms(1-5) failed_request_stuck off_stack_stuck by blast
  then have "stuck s' \<and> timeStampedPcsList s' = timeStampedPcsList lost"
    unfolding assms(6)
  proof (induction calls arbitrary: lost)
    case (Cons c calls)
    obtain sa sg where c: "c = (sa, sg)" by force
    have "ThreadSamplerSignalHandler sg (snd (Sample lb sa lost)) = lost\<lparr>processFinishTime := sa_end sa\<rparr>"
      using Cons.prems by (simp add: stuck_sample stuck_signal)
    with Cons show ?case by (simp add: c)
  qed simp
  then show ?thesis by (auto simp: stuck_sample stuck_def)
qed

theorem lost_request_blocks_sampler_witness:
  "timeStampedPcsList (ThreadSamplerSignalHandler (demo_signal 8) (snd (Sample demo_lib
     \<lparr>sa_ts = 7, sa_queued = True, sa_clk = (\<lambda>_. 8), sa_end = 9\<rparr> (SendSampleRequest 5 False demo_session)))) = []"
proof -
  have sg: "signals demo_session = 0"
    by (simp add: demo_session_def Sampler_Init_def InitRecordBuffer_def InitUnwinder_def InitStackPrinter_def demo_init_def
        ThreadSampler_init_def)
  have "timeStampedPcsList (SendSampleRequest 5 False demo_session) = []"
    using demo_session_ok(3) by (simp add: SendSampleRequest_def Let_def split: option.split)
  with lost_request_blocks_sampler [where ts = 5 and lb = demo_lib and lost = "SendSampleRequest 5 False demo_session" and
      calls = "[(\<lparr>sa_ts = 7, sa_queued = True, sa_clk = (\<lambda>_. 8), sa_end = 9\<rparr>, demo_signal 8)]",
      OF demo_session_ok(1,2) sg _ disjI1 [OF refl] refl]
  show ?thesis by simp
qed

section \<open>Reads of the copied stack\<close>

lemma AccessMem_inside:
  assumes "off + 8 < STACK_BUFFER_SIZE" and "unat sp + STACK_BUFFER_SIZE < 2 ^ 64"
  shows "AccessMem sp (sp + of_nat off) = FromBuffer off"
proof -
  have lt: "off < 2 ^ 64" "unat sp + off < 2 ^ 64" "unat sp + off + 8 < 2 ^ 64" using assms by (simp_all add: STACK_BUFFER_SIZE_def)
  have o: "unat (of_nat off :: u64) = off" using lt(1) by (simp add: unsigned_of_nat take_bit_nat_eq_self)
  have 1: "unat (sp + of_nat off) = unat sp + off" using lt(2) o by (simp add: unat_word_ariths)
  have 2: "unat (sp + of_nat off + 8) = unat sp + off + 8" using lt(3) 1 by (simp add: unat_word_ariths)
  have 3: "unat (sp + of_nat STACK_BUFFER_SIZE) = unat sp + STACK_BUFFER_SIZE"
    using assms(2) by (simp add: unat_word_ariths STACK_BUFFER_SIZE_def)
  have "sp + of_nat off - sp = of_nat off" by simp
  moreover have "unat (of_nat STACK_BUFFER_SIZE :: u64) = STACK_BUFFER_SIZE" by (simp add: STACK_BUFFER_SIZE_def)
  ultimately show ?thesis using assms(1) o by (simp add: AccessMem_def word_less_nat_alt word_le_nat_alt 1 2 3 Let_def)
qed

text \<open>
  C38. Whatever address the unwinder asks for and wherever the stack pointer is, a read that is served from the
  copied stack lies within the buffer, and the addresses served so are those of the buffer except the last
  eight bytes; no sum of the code wraps around.
\<close>

theorem buffer_reads_in_bounds:
  "(AccessMem sp addr = FromBuffer off \<longrightarrow>
      off + 8 \<le> STACK_BUFFER_SIZE \<and> unat addr = unat sp + off) \<and>
   (off + 8 < STACK_BUFFER_SIZE \<and> unat sp + STACK_BUFFER_SIZE < 2 ^ 64 \<longrightarrow>
      AccessMem sp (sp + of_nat off) = FromBuffer off)"
proof (intro conjI impI)
  assume "AccessMem sp addr = FromBuffer off"
  then have c: "\<not> addr + 8 < addr" "\<not> addr < sp" "addr + 8 < sp + of_nat STACK_BUFFER_SIZE" "off = unat (addr - sp)"
    by (auto simp: AccessMem_def Let_def not_le split: if_splits)
  have le: "unat sp \<le> unat addr" using c(2) by (simp add: word_le_nat_alt not_less)
  have 8: "unat (addr + 8) = unat addr + 8" using unat_add_no_wrap [OF c(1)] by simp
  have "\<not> sp + of_nat STACK_BUFFER_SIZE < sp"
  proof
    assume "sp + of_nat STACK_BUFFER_SIZE < sp"
    then have "unat (addr + 8) < unat sp" using c(3) by (simp add: word_less_nat_alt)
    then show False using 8 le by simp
  qed
  then have "unat addr + 8 < unat sp + STACK_BUFFER_SIZE"
    using unat_add_no_wrap [of sp "of_nat STACK_BUFFER_SIZE"] c(3) 8 by (simp add: word_less_nat_alt STACK_BUFFER_SIZE_def)
  moreover show "unat addr = unat sp + off" using le c(2,4) by (simp add: word_sub_le_iff not_less)
  ultimately show "off + 8 \<le> STACK_BUFFER_SIZE" by simp
next
  assume "off + 8 < STACK_BUFFER_SIZE \<and> unat sp + STACK_BUFFER_SIZE < 2 ^ 64"
  then show "AccessMem sp (sp + of_nat off) = FromBuffer off" by (simp add: AccessMem_inside)
qed

text \<open>The first and the last offset served for a stack pointer at 4096.\<close>

theorem buffer_reads_in_bounds_witness:
  "AccessMem 4096 4096 = FromBuffer 0 \<and> AccessMem 4096 (4096 + of_nat (STACK_BUFFER_SIZE - 9)) = FromBuffer (STACK_BUFFER_SIZE - 9) \<and>
   AccessMem 4096 (4096 + of_nat (STACK_BUFFER_SIZE - 8)) = FromElf (4096 + of_nat (STACK_BUFFER_SIZE - 8)) \<and>
   STACK_BUFFER_SIZE - 9 + 8 \<le> STACK_BUFFER_SIZE"
proof -
  have 0: "AccessMem 4096 4096 = FromBuffer 0"
    using conjunct2 [OF buffer_reads_in_bounds [of 4096 4096 0], THEN mp] by (simp add: STACK_BUFFER_SIZE_def)
  have 1: "AccessMem 4096 (4096 + of_nat (STACK_BUFFER_SIZE - 9)) = FromBuffer (STACK_BUFFER_SIZE - 9)"
    using conjunct2 [OF buffer_reads_in_bounds [of 4096 4096 "STACK_BUFFER_SIZE - 9"], THEN mp]
    by (simp add: STACK_BUFFER_SIZE_def)
  show ?thesis
    using 0 1 conjunct1 [OF buffer_reads_in_bounds, THEN mp, OF 1]
    by (simp add: AccessMem_def STACK_BUFFER_SIZE_def)
qed


section \<open>A second session\<close>

text \<open>
  \<^verbatim>\<open>Deinit\<close> resets neither the indices of the ring nor, in ordinary builds, the number of samples.
\<close>

lemma restart_keeps:
  assumes "\<not> CONSUME_STATISTICS lb" and "in_munmap jj" and "Sampler_Init lb ii n r (snd (Sampler_Deinit lb jj s)) = (True, s')"
  shows "readIndex s' = readIndex s" and "writeIndex s' = writeIndex s" and "processCount s' = processCount s"
    and "timeStampedPcsList s' = []" and "buffers s' = Some (\<lambda>_. ThreadUnwindContext_zero)" and "s_init s'"
    and "signals s' = signals s"
proof -
  define d where "d = snd (Sampler_Deinit lb jj s)"
  have d: "readIndex d = readIndex s" "writeIndex d = writeIndex s" "processCount d = processCount s" "signals d = signals s"
    "timeStampedPcsList d = []" "buffers d = None" "\<not> s_init d" "printer d = None"
    using assms(1,2) by (auto simp: d_def Sampler_Deinit_def DestroyUnwinder_def ReleaseRecordBuffer_def Let_def)
  have i: "Sampler_Init lb ii n r d = (True, s')" using assms(3) by (simp add: d_def)
  obtain b e where m: "in_mmap ii" "in_maps ii" "in_range ii = Some (b, e)" "in_table ii" "n \<noteq> 0"
    using i d(6-8)
    by (auto simp: Sampler_Init_def InitRecordBuffer_def InitUnwinder_def InitStackPrinter_def Let_def
        split: if_splits option.splits bool.splits)
  then have s': "s' = d\<lparr>buffers := Some (\<lambda>_. ThreadUnwindContext_zero), unwinder := True, s_maps := True,
      stackBegin := b, stackEnd := e, printer := Some [], processStartTime := in_now ii, submitterStackIds := replicate n 0,
      submitterStackIdIndex := 0, submitterStackIdsMaxSize := n, recordSubmitterStack := r, s_init := True\<rparr>"
    using i d(6-8) by (simp add: Sampler_Init_def InitRecordBuffer_def InitUnwinder_def InitStackPrinter_def Let_def)
  show "readIndex s' = readIndex s" "writeIndex s' = writeIndex s" "processCount s' = processCount s"
    "timeStampedPcsList s' = []" "buffers s' = Some (\<lambda>_. ThreadUnwindContext_zero)" "s_init s'" "signals s' = signals s"
    using d by (simp_all add: s')
qed

lemma sample_requests:
  assumes "s_init s" and "buffers s = Some cs" and "free (cs (writeIndex s))" and "sa_queued sa" and "sa_ts sa \<noteq> 0"
    and "\<not> full ((cs(writeIndex s := (cs (writeIndex s))\<lparr>requestTime := sa_ts sa\<rparr>)) (readIndex s))"
  shows "snd (Sample lb sa s) = s\<lparr>buffers := Some (cs(writeIndex s := (cs (writeIndex s))\<lparr>requestTime := sa_ts sa\<rparr>)),
    signals := signals s + 1, processFinishTime := sa_end sa\<rparr>"
proof -
  let ?s = "SendSampleRequest (sa_ts sa) True s"
  have r: "?s = s\<lparr>buffers := Some (cs(writeIndex s := (cs (writeIndex s))\<lparr>requestTime := sa_ts sa\<rparr>)), signals := signals s + 1\<rparr>"
    by (rule request_writes(1) [OF assms(2,3)])
  have "read_one lb ts ?s = None" for ts
    unfolding r using assms(6) by (auto simp: read_one_def GetReadContext_def full_def Let_def)
  then have "ProcessStackBuffer lb clk ?s = ?s" for clk
    using assms(1) by (simp add: ProcessStackBuffer_def process_loop_read [of lb clk 0 ?s])
  then show ?thesis using assms(1,4) by (simp add: Sample_def r)
qed

text \<open>A sample whose signal is handled before the next one.\<close>

lemma sample_and_signal:
  fixes lb :: sampler_lib
  assumes "s_init s" and "buffers s = Some cs" and "free (cs (writeIndex s))" and "signals s = 0"
    and "sa_queued sa" and "sa_ts sa \<noteq> 0" and "\<not> full (cs (readIndex s))" and "on_stack a s"
  defines "s' \<equiv> ThreadSamplerSignalHandler a (snd (Sample lb sa s))"
  obtains c where "buffers s' = Some (cs(writeIndex s := c))" and "full c" and "snapshotTime c = si_now a"
    and "writeIndex s' = (writeIndex s + 1) mod 2" and "readIndex s' = readIndex s" and "signals s' = 0" and "s_init s'"
    and "timeStampedPcsList s' = timeStampedPcsList s" and "bounds s' = bounds s"
proof -
  define c0 where "c0 = (cs (writeIndex s))\<lparr>requestTime := sa_ts sa\<rparr>"
  define u where "u = s\<lparr>buffers := Some (cs(writeIndex s := c0)), signals := signals s + 1, processFinishTime := sa_end sa\<rparr>"
  have c0: "requested c0" using assms(3,6) by (simp add: c0_def requested_def free_def)
  then have "\<not> full ((cs(writeIndex s := c0)) (readIndex s))" using assms(7) by (auto simp: requested_def full_def)
  then have u: "snd (Sample lb sa s) = u"
    unfolding u_def c0_def by (intro sample_requests [OF assms(1-3,5,6)])
  have h: "buffers u = Some (cs(writeIndex u := c0))" "s_init u" "requested ((cs(writeIndex u := c0)) (writeIndex u))"
    "signals u = 1" "on_stack a u"
    using assms(1,4,8) c0 by (simp_all add: u_def on_stack_def)
  note w = handler_writes [OF h(1-3,5,4)]
  define c1 where "c1 = c0\<lparr>cx_fp := uc_fp a, cx_lr := uc_lr a, cx_sp := uc_sp a, cx_pc := uc_pc a,
    cx_buffer := copied a (stackEnd s) @ drop (copy_size (stackEnd s) (uc_sp a)) (cx_buffer c0),
    processTime := 0, snapshotTime := si_now a\<rparr>"
  have "buffers s' = Some ((cs(writeIndex s := c0))(writeIndex s := c1))"
    using w(1) unfolding s'_def u c1_def by (auto simp: u_def fun_eq_iff)
  then have bu: "buffers s' = Some (cs(writeIndex s := c1))" by simp
  have f: "full c1" "snapshotTime c1 = si_now a"
    using c0 assms(8) by (simp_all add: c1_def full_def requested_def on_stack_def)
  have b: "stackBegin s' = stackBegin u"
    by (simp add: s'_def u ThreadSamplerSignalHandler_def WriteContext_def set_context_def h(1) Let_def)
  have k: "writeIndex s' = (writeIndex s + 1) mod 2" "readIndex s' = readIndex s" "signals s' = 0" "s_init s'"
    "timeStampedPcsList s' = timeStampedPcsList s" "bounds s' = bounds s"
    using w(2-7) b by (simp_all add: s'_def u) (simp_all add: u_def bounds_def)
  show ?thesis by (rule that [OF bu f k])
qed

lemma process_two:
  assumes "s_init s" and "buffers s = Some cs" and "r < 2" and "readIndex s = r" and "full (cs r)" and "full (cs (1 - r))"
  shows "timeStampedPcsList (ProcessStackBuffer lb clk s) = timeStampedPcsList s @
    [(snapshotTime (cs r), lib_unwind lb (cs r)), (snapshotTime (cs (1 - r)), lib_unwind lb (cs (1 - r)))]"
proof -
  let ?e = "\<lambda>c t. c\<lparr>requestTime := 0, snapshotTime := 0, processTime := t\<rparr>"
  have r: "1 - r \<noteq> r" "1 - r < 2" "1 - (1 - r) = r" using index_cases [OF assms(3)] by auto
  define ds where "ds = cs(r := ?e (cs r) (clk 0))"
  have ds: "ds (1 - r) = cs (1 - r)" "\<not> full (ds r)" using r(1) by (simp_all add: ds_def full_def)
  obtain s1 where s1: "read_one lb (clk 0) s = Some s1" "buffers s1 = Some ds" "readIndex s1 = 1 - r"
    "timeStampedPcsList s1 = timeStampedPcsList s @ [(snapshotTime (cs r), lib_unwind lb (cs r))]"
    using read_writes [of s cs lb "clk 0"] assms by (auto simp: ds_def)
  have f1: "full (ds (readIndex s1))" using assms(6) ds(1) s1(3) by simp
  obtain s2 where s2: "read_one lb (clk (Suc 0)) s1 = Some s2"
    "buffers s2 = Some (ds(1 - r := ?e (ds (1 - r)) (clk (Suc 0))))" "readIndex s2 = r"
    "timeStampedPcsList s2 = timeStampedPcsList s1 @ [(snapshotTime (cs (1 - r)), lib_unwind lb (cs (1 - r)))]"
    using read_writes [OF s1(2) f1, of lb "clk (Suc 0)"] s1(3) r ds(1) by auto
  have "read_one lb t s2 = None" for t
    using s2(2,3) r(1) ds(2) by (auto simp: read_one_def GetReadContext_def full_def Let_def)
  then have "process_loop lb clk 0 s = s2"
    by (simp add: process_loop_read [of lb clk 0 s] s1(1) process_loop_read [of lb clk "Suc 0" s1] s2(1)
        process_loop_read [of lb clk "Suc (Suc 0)" s2])
  then show ?thesis using assms(1) s1(4) s2(4) by (simp add: ProcessStackBuffer_def)
qed

text \<open>
  A second session inherits the indices of the first. When a snapshot was left in the ring at the end of the
  first session, the first two stacks of the next one are unwound in the wrong order, and only when the
  second has been taken; and the count of samples that is reported goes on from the first session.
\<close>

theorem restart_reverses_order:
  assumes "\<not> CONSUME_STATISTICS lb" and "in_munmap jj" and "Sampler_Init lb ii n r (snd (Sampler_Deinit lb jj s)) = (True, s0)"
    and "readIndex s < 2" and "writeIndex s = 1 - readIndex s" and "signals s = 0"
    and "sa_queued sa" and "sa_ts sa \<noteq> 0" and "on_stack a s0" and "on_stack b s0"
    and "s1 = ThreadSamplerSignalHandler a (snd (Sample lb sa s0))"
    and "s2 = ThreadSamplerSignalHandler b (snd (Sample lb sa s1))"
  shows "timeStampedPcsList s1 = [] \<and> map fst (timeStampedPcsList (ProcessStackBuffer lb clk s2)) = [si_now b, si_now a] \<and>
    samplerCount (ThreadSamplerGetResult s0) = samplerCount (ThreadSamplerGetResult s)"
proof -
  define r where "r = readIndex s"
  have r: "1 - r \<noteq> r" "1 - (1 - r) = r" "(1 - r + 1) mod 2 = r" "r < 2"
    using index_cases [OF assms(4)] by (auto simp: r_def)
  note k = restart_keeps [OF assms(1-3)]
  have idx: "readIndex s0 = r" "writeIndex s0 = 1 - r" using k(1,2) assms(5) by (simp_all add: r_def)
  have z: "free ThreadUnwindContext_zero" "\<not> full ThreadUnwindContext_zero"
    by (simp_all add: free_def full_def ThreadUnwindContext_zero_def)
  have "\<exists>ca. buffers s1 = Some ((\<lambda>_. ThreadUnwindContext_zero)(1 - r := ca)) \<and> full ca \<and> snapshotTime ca = si_now a \<and>
      writeIndex s1 = r \<and> readIndex s1 = r \<and> signals s1 = 0 \<and> s_init s1 \<and> timeStampedPcsList s1 = [] \<and> bounds s1 = bounds s0"
    by (rule sample_and_signal [OF k(6,5), where lb = lb and sa = sa and a = a])
      (use k(4,7) assms(6-9,11) idx z r(3) in auto)
  then obtain ca where ca: "buffers s1 = Some ((\<lambda>_. ThreadUnwindContext_zero)(1 - r := ca))" "full ca" "snapshotTime ca = si_now a"
    and s1: "writeIndex s1 = r" "readIndex s1 = r" "signals s1 = 0" "s_init s1" "timeStampedPcsList s1 = []" "bounds s1 = bounds s0"
    by blast
  have on: "on_stack b s1" using assms(10) s1(6) by (simp add: on_stack_def bounds_def)
  have "\<exists>cb. buffers s2 = Some ((\<lambda>_. ThreadUnwindContext_zero)(1 - r := ca, r := cb)) \<and> full cb \<and> snapshotTime cb = si_now b \<and>
      readIndex s2 = r \<and> s_init s2 \<and> timeStampedPcsList s2 = []"
    by (rule sample_and_signal [OF s1(4) ca(1) _ s1(3) assms(7,8) _ on, where lb = lb])
      (use s1 assms(12) z r(1) in auto)
  then obtain cb where cb: "buffers s2 = Some ((\<lambda>_. ThreadUnwindContext_zero)(1 - r := ca, r := cb))" "full cb"
    "snapshotTime cb = si_now b" "readIndex s2 = r" "s_init s2" "timeStampedPcsList s2 = []" by blast
  have "map fst (timeStampedPcsList (ProcessStackBuffer lb clk s2)) = [si_now b, si_now a]"
    using process_two [OF cb(5,1) r(4) cb(4), of lb clk] ca cb r(1) by simp
  then show ?thesis using s1(5) k(3) by (simp add: ThreadSamplerGetResult_def)
qed


theorem restart_reverses_order_witness:
  "\<exists>s2. map fst (timeStampedPcsList (ProcessStackBuffer demo_lib (\<lambda>_. 99) s2)) = [16, 14]"
proof -
  define s where "s = ThreadSamplerSignalHandler (demo_signal 4) (SendSampleRequest 3 True demo_session)"
  define s0 where "s0 = snd (Sampler_Init demo_lib demo_init 3 False (snd (Sampler_Deinit demo_lib demo_init s)))"
  define sa where "sa = \<lparr>sa_ts = 11, sa_queued = True, sa_clk = (\<lambda>_. 12), sa_end = 13\<rparr>"
  have s: "readIndex s = 0" "writeIndex s = 1" "signals s = 0"
    by (simp_all add: s_def demo_session_def Sampler_Init_def InitRecordBuffer_def InitUnwinder_def InitStackPrinter_def demo_init_def
        ThreadSampler_init_def SendSampleRequest_def GetWriteContext_def set_context_def ThreadUnwindContext_zero_def
        ThreadSamplerSignalHandler_def WriteContext_def demo_signal_def SAMPLER_MAX_BUFFER_SZ_def Let_def)
  have i: "Sampler_Init demo_lib demo_init 3 False (snd (Sampler_Deinit demo_lib demo_init s)) = (True, s0)" "bounds s0 = (1000, 2000)"
    by (simp_all add: s0_def Sampler_Init_def InitRecordBuffer_def InitUnwinder_def InitStackPrinter_def demo_init_def Sampler_Deinit_def
        DestroyUnwinder_def ReleaseRecordBuffer_def ResetConsumeInfo_def demo_lib_def Let_def bounds_def)
  have on: "on_stack (demo_signal n) s0" if "n \<noteq> 0" for n
    using i(2) that by (simp add: on_stack_def demo_signal_def bounds_def)
  have "\<not> CONSUME_STATISTICS demo_lib" "in_munmap demo_init" by (simp_all add: demo_lib_def demo_init_def)
  from restart_reverses_order [OF this i(1) _ _ s(3) _ _ on on refl refl, of sa 14 16]
  show ?thesis using s by (auto simp: sa_def demo_signal_def)
qed


section \<open>No wild access\<close>

text \<open>
  What the accesses of the class rely on: the indices lie within the ring and its buffers have their full size, the array
  of submitters has the size the code believes, an initialised sampler has its pointers, and only an
  initialised one holds stacks.
\<close>

definition sampler_typed :: "ThreadSampler \<Rightarrow> bool" where
  "sampler_typed s \<longleftrightarrow>
     readIndex s < SAMPLER_MAX_BUFFER_SZ \<and> writeIndex s < SAMPLER_MAX_BUFFER_SZ \<and>
     (\<forall>cs i. buffers s = Some cs \<longrightarrow> length (cx_buffer (cs i)) = STACK_BUFFER_SIZE) \<and>
     length (submitterStackIds s) = submitterStackIdsMaxSize s \<and> submitterStackIdIndex s \<le> submitterStackIdsMaxSize s \<and>
     (s_init s \<longrightarrow> buffers s \<noteq> None \<and> unwinder s \<and> s_maps s \<and> printer s \<noteq> None) \<and>
     (timeStampedPcsList s \<noteq> [] \<longrightarrow> s_init s)"

text \<open>The calls of the C interface and the signals, in any order.\<close>

datatype sampler_call =
    CInit init_in nat int
  | CSample sample_in
  | CSignal signal_in
  | CCollect "nat \<Rightarrow> u64" string nat nat int
  | CDeinit init_in

fun call_exec :: "sampler_lib \<Rightarrow> sampler_call \<Rightarrow> ThreadSampler \<Rightarrow> ThreadSampler" where
  "call_exec lb (CInit ii n r) s = snd (ThreadSamplerInit lb ii n r s)"
| "call_exec lb (CSample sa) s = snd (ThreadSamplerSample lb sa s)"
| "call_exec lb (CSignal si) s = ThreadSamplerSignalHandler si s"
| "call_exec lb (CCollect clk wchan n m f) s = snd (snd (snd (ThreadSamplerCollect lb clk wchan n m f s)))"
| "call_exec lb (CDeinit ii) s = snd (ThreadSamplerDeinit lb ii s)"

lemma typed_init: "sampler_typed ThreadSampler_init"
  by (simp add: sampler_typed_def ThreadSampler_init_def SAMPLER_MAX_BUFFER_SZ_def)

lemma typed_set_context:
  assumes "sampler_typed s" and "\<And>c. length (cx_buffer c) = STACK_BUFFER_SIZE \<Longrightarrow> length (cx_buffer (f c)) = STACK_BUFFER_SIZE"
  shows "sampler_typed (set_context i f s)"
  using assms by (auto simp: sampler_typed_def set_context_def split: option.split)

lemma typed_Deinit: "sampler_typed s \<Longrightarrow> sampler_typed (snd (Sampler_Deinit lb ii s))"
  by (auto simp: sampler_typed_def Sampler_Deinit_def ReleaseRecordBuffer_def DestroyUnwinder_def ResetConsumeInfo_def Let_def)

lemma typed_buffer: "sampler_typed s \<Longrightarrow> sampler_typed (snd (InitRecordBuffer ii s))"
  by (auto simp: sampler_typed_def InitRecordBuffer_def ThreadUnwindContext_zero_def)

lemma typed_Init:
  assumes "sampler_typed s"
  shows "sampler_typed (snd (Sampler_Init lb ii n r s))"
proof (cases "s_init s")
  case False
  obtain b1 s1 where 1: "InitRecordBuffer ii s = (b1, s1)" by fastforce
  obtain b2 s2 where 2: "InitUnwinder ii s1 = (b2, s2)" by fastforce
  obtain b3 s3 where 3: "InitStackPrinter ii s2 = (b3, s3)" by fastforce
  have t1: "sampler_typed s1" "\<not> s_init s1" using typed_buffer [OF assms, of ii] 1 False
    by (auto simp: InitRecordBuffer_def split: if_splits)
  have t2: "sampler_typed s2" "\<not> s_init s2" using t1 2
    by (auto simp: InitUnwinder_def sampler_typed_def Let_def split: if_splits option.splits)
  have t3: "sampler_typed s3" "\<not> s_init s3" using t2 3
    by (auto simp: InitStackPrinter_def sampler_typed_def split: if_splits)
  have ok: "buffers s3 \<noteq> None \<and> unwinder s3 \<and> s_maps s3 \<and> printer s3 \<noteq> None" if "b1" "b2" "b3"
    using 1 2 3 that by (auto simp: InitRecordBuffer_def InitUnwinder_def InitStackPrinter_def Let_def
        split: if_splits option.splits)
  have "sampler_typed (s3\<lparr>processStartTime := in_now ii, submitterStackIds := replicate n 0, submitterStackIdIndex := 0,
      submitterStackIdsMaxSize := n, recordSubmitterStack := r, s_init := True\<rparr>)" if "b1" "b2" "b3"
    using t3(1) ok [OF that] by (simp add: sampler_typed_def)
  then show ?thesis
    using False 1 2 3 typed_Deinit [OF t1(1), of lb ii] typed_Deinit [OF t2(1), of lb ii] typed_Deinit [OF t3(1), of lb ii]
    by (cases b1; cases b2; cases b3; cases "n = 0") (simp_all add: Sampler_Init_def)
qed (simp add: Sampler_Init_def assms)

lemma typed_signal:
  assumes "sampler_typed s"
  shows "sampler_typed (ThreadSamplerSignalHandler si s)"
proof -
  let ?regs = "\<lambda>c. c\<lparr>cx_fp := uc_fp si, cx_lr := uc_lr si, cx_sp := uc_sp si, cx_pc := uc_pc si\<rparr>"
  define s0 where "s0 = s\<lparr>signals := signals s - 1\<rparr>"
  define i where "i = writeIndex s0"
  define bs where "bs = copied si (stackEnd s0)"
  define s2 where "s2 = set_context i (\<lambda>c. c\<lparr>cx_buffer := bs @ drop (length bs) (cx_buffer c)\<rparr>) (set_context i ?regs s0)"
  define s3 where "s3 = (if recordSubmitterStack s2 \<and> submitterStackIdIndex s2 < submitterStackIdsMaxSize s2
    then s2\<lparr>submitterStackIds := (submitterStackIds s2)[submitterStackIdIndex s2 := si_submitter si],
            submitterStackIdIndex := submitterStackIdIndex s2 + 1\<rparr> else s2)"
  have "length bs \<le> STACK_BUFFER_SIZE" by (simp add: bs_def length_copied copy_size_def word_le_nat_alt not_less STACK_BUFFER_SIZE_def)
  have t0: "sampler_typed s0" using assms by (simp add: s0_def sampler_typed_def)
  then have t1: "sampler_typed (set_context i ?regs s0)" by (rule typed_set_context) simp
  have t2: "sampler_typed s2" unfolding s2_def by (rule typed_set_context [OF t1]) (use \<open>length bs \<le> _\<close> in simp)
  then have "sampler_typed s3" by (simp add: s3_def sampler_typed_def)
  then have "sampler_typed (s3\<lparr>writeIndex := (i + 1) mod SAMPLER_MAX_BUFFER_SZ\<rparr>)"
    by (simp add: sampler_typed_def SAMPLER_MAX_BUFFER_SZ_def)
  then have t4: "sampler_typed (set_context i (\<lambda>c. c\<lparr>processTime := 0, snapshotTime := si_now si\<rparr>)
      (s3\<lparr>writeIndex := (i + 1) mod SAMPLER_MAX_BUFFER_SZ\<rparr>))" by (rule typed_set_context) simp
  have "WriteContext si s0 = (case buffers s0 of None \<Rightarrow> s0 | Some cs \<Rightarrow>
      if \<not> s_init s0 then s0
      else if snapshotTime (cs i) > 0 \<and> processTime (cs i) = 0 then s0
      else if uc_sp si < stackBegin s0 \<or> uc_sp si \<ge> stackEnd s0 then set_context i ?regs s0
      else set_context i (\<lambda>c. c\<lparr>processTime := 0, snapshotTime := si_now si\<rparr>)
        (s3\<lparr>writeIndex := (i + 1) mod SAMPLER_MAX_BUFFER_SZ\<rparr>))"
    by (simp only: WriteContext_def Let_def s3_def s2_def bs_def i_def)
  then have "sampler_typed (WriteContext si s0)" using t0 t1 t4 by (simp split: option.split)
  then show ?thesis using assms by (simp add: ThreadSamplerSignalHandler_def s0_def)
qed

lemma typed_read:
  assumes "sampler_typed s" and "s_init s" and "read_one lb ts s = Some s'"
  shows "sampler_typed s' \<and> s_init s'"
proof -
  obtain cs where cs: "buffers s = Some cs" "full (cs (readIndex s))"
    using assms(3) by (auto simp: read_one_def GetReadContext_def full_def Let_def split: option.splits if_splits)
  define i where "i = readIndex s"
  define s1 where "s1 = s\<lparr>readIndex := (i + 1) mod SAMPLER_MAX_BUFFER_SZ,
    timeStampedPcsList := timeStampedPcsList s @ [(snapshotTime (cs i), lib_unwind lb (cs i))],
    printer := map_option (\<lambda>tab. tab @ [(lib_unwind lb (cs i), snapshotTime (cs i))]) (printer s), processCount := processCount s + 1\<rparr>"
  have s': "s' = set_context i (\<lambda>c. c\<lparr>requestTime := 0, snapshotTime := 0, processTime := ts\<rparr>) s1"
    using assms(3) cs by (auto simp: read_one_def GetReadContext_def process_one_def s1_def i_def full_def Let_def)
  have "sampler_typed s1" using assms(1,2) by (simp add: s1_def sampler_typed_def SAMPLER_MAX_BUFFER_SZ_def)
  then have "sampler_typed s'" unfolding s' by (rule typed_set_context) simp
  then show ?thesis using assms(2) by (simp add: s' s1_def)
qed

lemma typed_loop:
  "sampler_typed s \<Longrightarrow> s_init s \<Longrightarrow> sampler_typed (process_loop lb clk k s) \<and> s_init (process_loop lb clk k s)"
proof (induction lb clk k s rule: process_loop.induct)
  case (1 lb clk k s)
  show ?case
  proof (cases "read_one lb (clk k) s")
    case None
    then show ?thesis using 1(2,3) by (subst (1 2) process_loop_read) simp
  next
    case (Some s1)
    obtain i s0 where g: "GetReadContext s = (Some i, s0)" "process_one lb (clk k) i s0 = s1"
      using Some by (auto simp: read_one_def split: prod.splits option.splits)
    have "sampler_typed (process_loop lb clk (Suc k) s1) \<and> s_init (process_loop lb clk (Suc k) s1)"
      using 1(1) [OF g(1) [symmetric] refl] typed_read [OF 1(2,3) Some] g(2) by simp
    then show ?thesis using Some by (subst (1 2) process_loop_read) simp
  qed
qed

lemma typed_Process: "sampler_typed s \<Longrightarrow> sampler_typed (ProcessStackBuffer lb clk s)"
  by (simp add: ProcessStackBuffer_def typed_loop)

lemma typed_Request: "sampler_typed s \<Longrightarrow> sampler_typed (SendSampleRequest ts q s)"
proof -
  assume t: "sampler_typed s"
  have "sampler_typed (set_context i (\<lambda>c. c\<lparr>requestTime := ts\<rparr>) s)" for i by (rule typed_set_context [OF t]) simp
  then show ?thesis using t by (auto simp: SendSampleRequest_def Let_def sampler_typed_def split: option.split)
qed

lemma process_loop_init: "s_init (process_loop lb clk k s) = s_init s"
proof (induction lb clk k s rule: process_loop.induct)
  case (1 lb clk k s)
  show ?case
  proof (cases "GetReadContext s")
    case (Pair o1 s0)
    have i: "s_init s0 = s_init s" using Pair by (auto simp: GetReadContext_def Let_def split: option.splits if_splits)
    have p: "s_init (process_one lb t i s0) = s_init s0" for t i by (simp add: process_one_def Let_def split: option.split)
    show ?thesis using 1 [OF Pair [symmetric]] i p
      by (subst process_loop.simps) (auto simp: Pair split: option.split)
  qed
qed

lemma init_kept: "s_init (snd (Sample lb sa s)) = s_init s"
  by (simp add: Sample_def ProcessStackBuffer_def process_loop_init SendSampleRequest_def Let_def split: option.split)

lemma typed_irrelevant [simp]:
  "sampler_typed (s\<lparr>processFinishTime := x\<rparr>) = sampler_typed s" "sampler_typed (s\<lparr>heaviestStack := h\<rparr>) = sampler_typed s"
  by (simp_all add: sampler_typed_def)

lemma typed_Collect:
  assumes "sampler_typed s"
  shows "sampler_typed (snd (snd (CollectStack lb clk wchan tf s)))"
  using typed_Process [OF assms, of lb clk] by (simp add: CollectStack_def Let_def)

lemma typed_call: "sampler_typed s \<Longrightarrow> sampler_typed (call_exec lb c s)"
proof (cases c)
  case (CCollect clk wchan n m f)
  assume t: "sampler_typed s"
  obtain ok stk s1 where c: "CollectStack lb clk wchan (f = 1) s = (ok, stk, s1)" by (metis surj_pair)
  have "snd (snd (snd (ThreadSamplerCollect lb clk wchan n m f s))) = s1"
    by (simp add: ThreadSamplerCollect_def c Let_def split: option.split)
  then show ?thesis using typed_Collect [OF t, of lb clk wchan "f = 1"] c by (simp add: CCollect)
qed (simp_all add: ThreadSamplerInit_def ThreadSamplerSample_def ThreadSamplerDeinit_def Sample_def split_beta
    typed_Init typed_Deinit typed_signal typed_Process typed_Request)

text \<open>
  C6. No wild access, after any sequence of calls and signals, whatever \<^verbatim>\<open>mmap\<close>, the maps and the clocks give: the state stays well
  typed, so the two indices lie within the ring and every copy of a stack fits its buffer, the arrays of
  submitters are read and written within their length, and whoever unwinds or prints finds the
  unwinder, the maps and the printer in place.
\<close>

theorem sampler_no_wild_access:
  fixes cs lb
  defines "s \<equiv> fold (call_exec lb) cs ThreadSampler_init"
  shows "sampler_typed s \<and> readIndex s < 2 \<and> writeIndex s < 2 \<and>
    (\<forall>si. length (copied si (stackEnd s)) \<le> STACK_BUFFER_SIZE) \<and>
    (\<forall>i. i < submitterStackIdsMaxSize s \<longrightarrow> i < length (submitterStackIds s)) \<and>
    (s_init s \<or> timeStampedPcsList s \<noteq> [] \<longrightarrow>
       buffers s \<noteq> None \<and> unwinder s \<and> s_maps s \<and> printer s \<noteq> None)"
proof -
  have "sampler_typed (fold (call_exec lb) cs u)" if "sampler_typed u" for u
    using that by (induction cs arbitrary: u) (simp_all add: typed_call)
  then have t: "sampler_typed s" by (simp add: s_def typed_init)
  moreover have "length (copied si end) \<le> STACK_BUFFER_SIZE" for si "end"
    by (simp add: length_copied copy_size_def word_le_nat_alt not_less STACK_BUFFER_SIZE_def)
  ultimately show ?thesis by (auto simp: sampler_typed_def SAMPLER_MAX_BUFFER_SZ_def)
qed

text \<open>A session that was started and has taken a sample.\<close>

theorem sampler_no_wild_access_witness:
  "let s = fold (call_exec demo_lib) [CInit demo_init 10 1, CSample \<lparr>sa_ts = 5, sa_queued = True, sa_clk = (\<lambda>_. 0), sa_end = 9\<rparr>]
     ThreadSampler_init
   in s_init s \<and> printer s \<noteq> None \<and> writeIndex s < 2"
proof -
  let ?cs = "[CInit demo_init 10 1, CSample \<lparr>sa_ts = 5, sa_queued = True, sa_clk = (\<lambda>_. 0), sa_end = 9\<rparr>]"
  have "s_init (fold (call_exec demo_lib) ?cs ThreadSampler_init)"
  proof -
    have "s_init (snd (ThreadSamplerInit demo_lib demo_init 10 1 ThreadSampler_init))"
      by (simp add: ThreadSamplerInit_def Sampler_Init_def InitRecordBuffer_def InitUnwinder_def InitStackPrinter_def
          demo_init_def ThreadSampler_init_def Let_def)
    then show ?thesis
      by (simp add: ThreadSamplerSample_def init_kept)
  qed
  then show ?thesis using sampler_no_wild_access [of demo_lib ?cs] by (simp only: Let_def) blast
qed

end
