(* ===== verification/Unwind_Memory.thy ===== *)
theory Unwind_Memory
  imports Thread_Sampler
begin

text \<open>
  What the unwinder of the sampler sees of the memory (\<^verbatim>\<open>AccessMem\<close>, \<^verbatim>\<open>AccessElfMem\<close>, \<^verbatim>\<open>FindUnwindTable\<close> and \<^verbatim>\<open>GetMapByPc\<close> of
  \<^verbatim>\<open>thread_sampler.cpp\<close>): the copied stack around the stack pointer of a snapshot and the mapped files elsewhere.
  The table of mappings and the files are those of the unwinding library and parameters here.
\<close>

section \<open>Mapped files\<close>

record elf_file =
  elf_base :: u64
  elf_read :: "u64 \<Rightarrow> u64 option"
  elf_unwind_table :: "u64 \<Rightarrow> int"

record dfx_map =
  map_begin :: u64
  map_offset :: u64
  map_elf :: "elf_file option"

text \<open>\<^verbatim>\<open>FindMapByAddr\<close>: nothing, or a mapping, whose pointer the code tests for null.\<close>

type_synonym dfx_maps = "u64 \<Rightarrow> dfx_map option option"

text \<open>\<^term>\<open>None\<close> stands for the result \<open>-1\<close>; a null argument is \<^term>\<open>None\<close> too.\<close>

definition FindUnwindTable :: "dfx_maps option \<Rightarrow> u64 \<Rightarrow> int" where
  "FindUnwindTable arg pc =
     (case arg of
        None \<Rightarrow> - 1
      | Some maps \<Rightarrow>
          (case maps pc of
             None \<Rightarrow> - 1
           | Some None \<Rightarrow> - 1
           | Some (Some m) \<Rightarrow> (case map_elf m of None \<Rightarrow> - 1 | Some elf \<Rightarrow> elf_unwind_table elf pc)))"

definition GetMapByPc :: "dfx_maps option \<Rightarrow> u64 \<Rightarrow> int" where
  "GetMapByPc arg pc = (case arg of None \<Rightarrow> - 1 | Some maps \<Rightarrow> if maps pc \<noteq> None then 0 else - 1)"

definition AccessElfMem :: "dfx_maps \<Rightarrow> u64 \<Rightarrow> u64 option" where
  "AccessElfMem maps addr =
     (case maps addr of
        None \<Rightarrow> None
      | Some None \<Rightarrow> None
      | Some (Some m) \<Rightarrow>
          (case map_elf m of
             None \<Rightarrow> None
           | Some elf \<Rightarrow> elf_read elf (addr - map_begin m + map_offset m - elf_base elf)))"

section \<open>A read of the unwinder\<close>

text \<open>Eight bytes as a number, the lowest first.\<close>

definition word_at :: "8 word list \<Rightarrow> nat \<Rightarrow> u64" where
  "word_at bytes off = word_rcat (rev (take 8 (drop off bytes)))"

definition mem_word :: "(u64 \<Rightarrow> 8 word) \<Rightarrow> u64 \<Rightarrow> u64" where
  "mem_word mem addr = word_at (map (\<lambda>k. mem (addr + of_nat k)) [0..<8]) 0"

definition read_word :: "dfx_maps \<Rightarrow> ThreadUnwindContext \<Rightarrow> u64 \<Rightarrow> u64 option" where
  "read_word maps c addr =
     (case AccessMem (cx_sp c) addr of
        Invalid \<Rightarrow> None
      | FromElf a \<Rightarrow> AccessElfMem maps a
      | FromBuffer off \<Rightarrow> Some (word_at (cx_buffer c) off))"

section \<open>The unwinder sees the stack of the signal\<close>

lemma word_at_append: "off + 8 \<le> length a \<Longrightarrow> word_at (a @ b) off = word_at a off"
  by (simp add: word_at_def)

lemma word_at_rest: "length a \<le> off \<Longrightarrow> word_at (a @ drop (length a) b) off = word_at b off"
  by (simp add: word_at_def)

lemma word_at_copied:
  assumes "off + 8 \<le> copy_size end (uc_sp si)"
  shows "word_at (copied si end) off = mem_word (si_mem si) (uc_sp si + of_nat off)"
proof -
  have "copied si end = map (\<lambda>pos. si_mem si (uc_sp si + of_nat pos)) [0..<copy_size end (uc_sp si)]"
    by (subst length_copied [symmetric]) (simp add: copied_def Let_def)
  moreover have "take 8 (drop off [0..<copy_size end (uc_sp si)]) = map ((+) off) [0..<8]"
    using assms by (intro nth_equalityI) simp_all
  ultimately show ?thesis by (simp add: word_at_def mem_word_def take_map drop_map add.assoc comp_def del: upt_conv_Cons)
qed

text \<open>The last word of the buffer is not served from it: the comparison of the end of the read is not strict.\<close>

lemma AccessMem_last:
  assumes "unat sp + STACK_BUFFER_SIZE < 2 ^ 64" and "off + 8 = STACK_BUFFER_SIZE"
  shows "AccessMem sp (sp + of_nat off) = FromElf (sp + of_nat off)"
proof -
  have k: "off = 16376" using assms(2) by (simp add: STACK_BUFFER_SIZE_def)
  have "unat (sp + 16376) = unat sp + 16376" "unat (sp + 16384) = unat sp + 16384"
    using assms(1) by (simp_all add: unat_word_ariths STACK_BUFFER_SIZE_def)
  then have "\<not> sp + 16384 < sp + 16376" "sp \<le> sp + 16376" by (simp_all add: word_less_nat_alt word_le_nat_alt)
  then show ?thesis by (simp add: AccessMem_def k STACK_BUFFER_SIZE_def add.commute [of 16384 sp])
qed


lemma word_at_zeros: "word_at (replicate n 0) off = 0"
proof -
  have "horner_sum uint (2 ^ 8) (replicate k (0 :: 8 word)) = 0" for k by (induction k) simp_all
  then show ?thesis by (simp add: word_at_def word_rcat_def)
qed

definition no_maps :: dfx_maps where "no_maps = (\<lambda>_. None)"


end
