(* ===== verification/Process_Signals.thy ===== *)
theory Process_Signals
  imports Watchdog_Inner
begin

text \<open>
  The signals of the process as \<^verbatim>\<open>watchdog_inner.cpp\<close> sets them up: the masks of the thread that creates the watchdog and of
  the watchdog thread, the handler of the sampler's signal, and the early start in one service. Signals are numbers, the
  sets of the C library are sets of them. \<^verbatim>\<open>SIGDUMP\<close> and \<^verbatim>\<open>MUSL_SIGNAL_SAMPLE_STACK\<close> come from other repositories
  and are arguments.
\<close>

section \<open>Masks\<close>

type_synonym sigset = "nat set"

text \<open>\<^verbatim>\<open>sigfillset\<close> of musl leaves out the three real-time signals the library keeps for itself.\<close>

definition INTERNAL_SIGNALS :: sigset where "INTERNAL_SIGNALS = {32, 33, 34}"
definition sigfillset :: sigset where "sigfillset = {1..64} - INTERNAL_SIGNALS"


definition SIGKILL :: nat where "SIGKILL = 9"
definition SIGSTOP :: nat where "SIGSTOP = 19"

datatype mask_how = SIG_BLOCK | SIG_UNBLOCK

text \<open>\<^verbatim>\<open>pthread_sigmask\<close>: two signals are never blocked.\<close>

fun pthread_sigmask :: "mask_how \<Rightarrow> sigset \<Rightarrow> sigset \<Rightarrow> sigset" where
  "pthread_sigmask SIG_BLOCK sigs blocked = (blocked \<union> sigs) - {SIGKILL, SIGSTOP}"
| "pthread_sigmask SIG_UNBLOCK sigs blocked = blocked - sigs"

definition SetThreadSignalMask :: "nat \<Rightarrow> bool \<Rightarrow> bool \<Rightarrow> sigset \<Rightarrow> sigset" where
  "SetThreadSignalMask signo isAddSignal isBlock blocked =
     (let sigs = (if isAddSignal then insert signo blocked else blocked - {signo})
      in pthread_sigmask (if isBlock then SIG_BLOCK else SIG_UNBLOCK) sigs blocked)"

section \<open>The handler of the sampler's signal\<close>

definition CRASH_SIGNAL_LIST :: "nat list" where
  "CRASH_SIGNAL_LIST = [4, 6, 7, 8, 11, 16, 31, 5]"

datatype sa_flag = SA_RESTART | SA_SIGINFO | SA_NODEFER

record sigaction =
  sa_mask :: sigset
  sa_sigaction :: string
  sa_flags :: "sa_flag set"

definition InstallThreadSamplerSignal ::
  "nat \<Rightarrow> bool \<Rightarrow> (nat \<rightharpoonup> sigaction) \<Rightarrow> bool \<times> (nat \<rightharpoonup> sigaction)" where
  "InstallThreadSamplerSignal sample registered acts =
     (let action = \<lparr>sa_mask = fold (\<lambda>s sigs. sigs - {s}) CRASH_SIGNAL_LIST sigfillset,
                    sa_sigaction = ''ThreadSamplerSigHandler'', sa_flags = {SA_RESTART, SA_SIGINFO}\<rparr>
      in if registered then (True, acts(sample \<mapsto> action)) else (False, acts))"

text \<open>The mask of a thread while it runs the handler of a signal.\<close>

definition handler_mask :: "sigaction \<Rightarrow> nat \<Rightarrow> sigset \<Rightarrow> sigset" where
  "handler_mask a s blocked =
     (blocked \<union> sa_mask a \<union> (if SA_NODEFER \<in> sa_flags a then {} else {s})) - {SIGKILL, SIGSTOP}"

section \<open>The thread of the watchdog\<close>

text \<open>The thread that makes the first call, and the one it creates, which starts with the mask of its creator.\<close>

record masks =
  ma_creator :: sigset
  ma_watchdog :: "sigset option"

definition Create_masks :: "nat \<Rightarrow> bool \<Rightarrow> WatchdogInner \<Rightarrow> masks \<Rightarrow> masks" where
  "Create_masks dump isMain w m =
     (if onceFlag w \<or> threadLoop w then m
      else let m1 = m\<lparr>ma_watchdog := Some (ma_creator m)\<rparr>
           in if isMain then m1\<lparr>ma_creator := SetThreadSignalMask dump True True (ma_creator m1)\<rparr> else m1)"

definition Start_masks :: "nat \<Rightarrow> masks \<Rightarrow> masks" where
  "Start_masks dump m = m\<lparr>ma_watchdog := map_option (SetThreadSignalMask dump False False) (ma_watchdog m)\<rparr>"

section \<open>The early start\<close>

text \<open>Run when the library is loaded; \<open>early\<close> is the build option \<^verbatim>\<open>FOUNDATION_FFRT_WATCHDOG_EARLY_INIT_ENABLE\<close>.\<close>

definition early_setup :: "bool \<Rightarrow> env \<Rightarrow> WatchdogInner \<Rightarrow> WatchdogInner" where
  "early_setup early e w = (if early \<and> getuid e = FOUNDATION_UID then InitFfrtWatchdog e w else w)"

section \<open>Properties\<close>

lemma mask_blocks: "SetThreadSignalMask s True True blocked = insert s blocked - {SIGKILL, SIGSTOP}"
  by (auto simp: SetThreadSignalMask_def)

lemma mask_unblocks: "SetThreadSignalMask s False False blocked = blocked \<inter> {s}"
  by (auto simp: SetThreadSignalMask_def)



text \<open>
  C31. When the main thread starts the watchdog it no longer takes the signal for a dump of the process, whenever the new thread gets to set
  its own mask. That thread meant to let the signal through lifts the block of every other signal instead: it takes all
  signals its creator had blocked, but the one for the dump only if its creator took it.
\<close>

theorem dump_signal_masks:
  fixes m :: masks
  assumes "\<not> onceFlag w" and "\<not> threadLoop w" and "dump \<notin> {SIGKILL, SIGSTOP}"
  defines "m' \<equiv> Start_masks dump (Create_masks dump True w m)"
  shows "dump \<in> ma_creator m' \<and> ma_watchdog m' = Some (ma_creator m \<inter> {dump}) \<and>
    (\<forall>s. s \<noteq> dump \<and> s \<notin> {SIGKILL, SIGSTOP} \<longrightarrow> (s \<in> ma_creator m' \<longleftrightarrow> s \<in> ma_creator m)) \<and>
    Create_masks dump True (CreateWatchdogThreadIfNeed e w) m' = m'"
proof -
  have "onceFlag (CreateWatchdogThreadIfNeed e w)"
    using assms(1,2) by (simp add: CreateWatchdogThreadIfNeed_def Let_def emit_def)
  moreover have "ma_creator m' = insert dump (ma_creator m) - {SIGKILL, SIGSTOP}" "ma_watchdog m' = Some (ma_creator m \<inter> {dump})"
    using assms(1,2) by (simp_all add: m'_def Start_masks_def Create_masks_def mask_blocks mask_unblocks)
  ultimately show ?thesis using assms(3) by (auto simp: Create_masks_def)
qed

theorem dump_signal_masks_witness:
  "ma_watchdog (Start_masks 35 (Create_masks 35 True WatchdogInner_init \<lparr>ma_creator = {10, 35}, ma_watchdog = None\<rparr>)) = Some {35}"
  using dump_signal_masks [of WatchdogInner_init 35 "\<lparr>ma_creator = {10, 35}, ma_watchdog = None\<rparr>" service_env]
  by (simp add: WatchdogInner_init_def SIGKILL_def SIGSTOP_def)

text \<open>The early start happens in one service only, and there it also starts the watchdog thread, unless that was done already.\<close>

theorem early_start:
  "early_setup early e w = w \<or> early \<and> getuid e = FOUNDATION_UID \<and> (onceFlag (early_setup early e w)) \<and>
     (\<not> onceFlag w \<longrightarrow> threadLoop (early_setup early e w))"
  by (auto simp: early_setup_def InitFfrtWatchdog_def CreateWatchdogThreadIfNeed_def Let_def emit_def)

end
