(* ===== verification/Sampler_Bridge.thy ===== *)
theory Sampler_Bridge
  imports Watchdog_Sampling Thread_Sampler
begin

text \<open>
  The watchdog on top of the sampler library: how \<^verbatim>\<open>watchdog_inner.cpp\<close> loads it, starts it, samples, collects the text
  and ends it, and the handler of the signal that stands in front of the library's. The state joins the pointers
  of the watchdog (\<^verbatim>\<open>Watchdog_Sampling\<close>) with the sampler itself (\<^verbatim>\<open>Thread_Sampler\<close>).
\<close>

definition STACK_LENGTH :: nat where "STACK_LENGTH = 128 * 1024"
definition COLLECT_STACK_COUNT :: nat where "COLLECT_STACK_COUNT = 10"

text \<open>\<open>br_result\<close> is \<^verbatim>\<open>samplerResult_\<close>.\<close>

record bridge =
  br_flags :: Sampling
  br_lib :: ThreadSampler
  br_result :: SamplerResult

definition bridge_init :: bridge where
  "bridge_init = \<lparr>br_flags = Sampling_init, br_lib = ThreadSampler_init,
     br_result = \<lparr>samplerStartTime = 0, samplerFinishTime = 0, samplerCount = 0\<rparr>\<rparr>"

section \<open>Loading and starting\<close>

text \<open>
  \<open>err\<close> is whether \<^verbatim>\<open>dlerror\<close> reports an error after \<^verbatim>\<open>dlsym\<close>; the pointers are numbers. Six functions are looked up,
  and all of them are needed.
\<close>

definition FunctionOpen :: "bool \<Rightarrow> nat option \<Rightarrow> nat option" where
  "FunctionOpen err func = (if err then None else func)"

definition sampler_symbols :: "string list" where
  "sampler_symbols = [''ThreadSamplerInit'', ''ThreadSamplerSample'', ''ThreadSamplerCollect'', ''ThreadSamplerDeinit'',
     ''ThreadSamplerSigHandler'', ''ThreadSamplerGetResult'']"

definition load_sampler :: "bool \<Rightarrow> (string \<Rightarrow> bool \<times> nat option) \<Rightarrow> dl_result" where
  "load_sampler opened dlsym =
     (if \<not> opened then DlFail
      else if list_ex (\<lambda>n. case dlsym n of (err, func) \<Rightarrow> FunctionOpen err func = None) sampler_symbols then DlPartial
      else DlOk)"

text \<open>
  \<open>has_result\<close> tells whether the function for the result is among those found in a library that lacks some: its answer is
  kept before the pointers go.
\<close>

definition Lib_InitThreadSamplerFuncs :: "dl_result \<Rightarrow> bool \<Rightarrow> bridge \<Rightarrow> bool \<times> bridge" where
  "Lib_InitThreadSamplerFuncs dl has_result b =
     (case InitThreadSamplerFuncs dl (br_flags b) of
        (ok, fl) \<Rightarrow> (ok, b\<lparr>br_flags := fl,
          br_result := if dl = DlPartial \<and> has_result then ThreadSamplerGetResult (br_lib b) else br_result b\<rparr>))"

definition Lib_CheckThreadSampler ::
  "sampler_lib \<Rightarrow> dl_result \<Rightarrow> bool \<Rightarrow> bool \<Rightarrow> init_in \<Rightarrow> bool \<Rightarrow> bridge \<Rightarrow> bool \<times> bridge" where
  "Lib_CheckThreadSampler lb dl has_result install ii rec b =
     (case Lib_InitThreadSamplerFuncs dl has_result b of
        (False, b1) \<Rightarrow> (False, b1)
      | (True, b1) \<Rightarrow>
          if \<not> install then (False, b1)
          else (case ThreadSamplerInit lb ii COLLECT_STACK_COUNT (if rec then 1 else 0) (br_lib b1) of
              (ret, l) \<Rightarrow> (ret = 0, b1\<lparr>br_lib := l\<rparr>)))"

section \<open>Sampling\<close>

text \<open>The handler in front: a signal that comes when there is no handler behind it is dropped.\<close>

definition ThreadSamplerSigHandler :: "signal_in \<Rightarrow> bridge \<Rightarrow> bridge" where
  "ThreadSamplerSigHandler si b =
     (if \<not> samplerSigHandler (br_flags b) then b\<lparr>br_lib := (br_lib b)\<lparr>signals := signals (br_lib b) - 1\<rparr>\<rparr>
      else b\<lparr>br_lib := ThreadSamplerSignalHandler si (br_lib b)\<rparr>)"

definition UninstallThreadSamplerSignal :: "bridge \<Rightarrow> bridge" where
  "UninstallThreadSamplerSignal b = b\<lparr>br_flags := (br_flags b)\<lparr>samplerSigHandler := False\<rparr>\<rparr>"

text \<open>The call the periodic tasks make, behind their check of the pointer; they do not look at what it returns.\<close>

definition Lib_Sample :: "sampler_lib \<Rightarrow> sample_in \<Rightarrow> bridge \<Rightarrow> bridge" where
  "Lib_Sample lb sa b =
     (if \<not> samplerFuncs (br_flags b) then b else b\<lparr>br_lib := snd (ThreadSamplerSample lb sa (br_lib b))\<rparr>)"

text \<open>A buffer of zeros, then of what the library copied there: its text up to the end of the string.\<close>

definition buffer_text :: "string option \<Rightarrow> string" where
  "buffer_text written = (case written of None \<Rightarrow> [] | Some s \<Rightarrow> take (STACK_LENGTH - 1) (takeWhile (\<lambda>c. c \<noteq> CHR 0x00) s))"

definition Inner_CollectStack ::
  "sampler_lib \<Rightarrow> (nat \<Rightarrow> u64) \<Rightarrow> string \<Rightarrow> int \<Rightarrow> bridge \<Rightarrow> (string \<times> string) option \<times> bridge" where
  "Inner_CollectStack lb clk wchan treeFormat b =
     (if \<not> samplerFuncs (br_flags b) then (None, b)
      else case ThreadSamplerCollect lb clk wchan STACK_LENGTH STACK_LENGTH treeFormat (br_lib b) of
          (ret, stk, heaviest, l) \<Rightarrow>
            (if ret \<noteq> 0 then None else Some (buffer_text stk, buffer_text heaviest), b\<lparr>br_lib := l\<rparr>))"

definition GetSamplerResult :: "bridge \<Rightarrow> SamplerResult \<times> bridge" where
  "GetSamplerResult b =
     (let r = (if samplerFuncs (br_flags b) then ThreadSamplerGetResult (br_lib b) else br_result b)
      in (r, b\<lparr>br_result := r\<rparr>))"

text \<open>The public class hands the three members out.\<close>

definition Watchdog_GetSamplerResult :: "bridge \<Rightarrow> (u64 \<times> u64 \<times> int) \<times> bridge" where
  "Watchdog_GetSamplerResult b =
     (case GetSamplerResult b of (r, b1) \<Rightarrow> ((samplerStartTime r, samplerFinishTime r, samplerCount r), b1))"

definition Lib_Deinit :: "sampler_lib \<Rightarrow> init_in \<Rightarrow> bridge \<Rightarrow> bool \<times> bridge" where
  "Lib_Deinit lb ii b =
     (if \<not> samplerFuncs (br_flags b) then (False, b)
      else let b1 = UninstallThreadSamplerSignal b in
        case ThreadSamplerDeinit lb ii (br_lib b1) of (ret, l) \<Rightarrow> (ret = 0, b1\<lparr>br_lib := l\<rparr>))"

section \<open>Agreement with the sampling tasks\<close>

text \<open>
  What the tasks of \<^verbatim>\<open>Watchdog_Sampling\<close> read of the outside, taken from the library instead: the two operations that change the
  pointers are the same.
\<close>

theorem bridge_refines_check:
  assumes "pr_dl pr = dl" and "pr_install pr = install"
    and "pr_init pr = fst (ThreadSamplerInit lb ii COLLECT_STACK_COUNT (if rec then 1 else 0) (br_lib b))"
  shows "CheckThreadSampler pr (br_flags b) =
    map_prod id br_flags (Lib_CheckThreadSampler lb dl has_result install ii rec b)"
  using assms
  by (auto simp: CheckThreadSampler_def Lib_CheckThreadSampler_def Lib_InitThreadSamplerFuncs_def split: bool.splits prod.splits)

theorem bridge_refines_deinit:
  assumes "pr_deinit pr = fst (ThreadSamplerDeinit lb ii (br_lib b))"
  shows "Deinit pr (br_flags b) = map_prod id br_flags (Lib_Deinit lb ii b)"
  using assms by (simp add: Deinit_def Lib_Deinit_def UninstallThreadSamplerSignal_def split: prod.split)

section \<open>Sequences of calls\<close>

text \<open>What the watchdog does with the library, in any order, and the signals that arrive in between.\<close>

datatype bridge_call =
    BCheck dl_result bool bool init_in bool
  | BSample sample_in
  | BSignal signal_in
  | BCollect "nat \<Rightarrow> u64" string int
  | BResult
  | BDeinit init_in

fun bridge_exec :: "sampler_lib \<Rightarrow> bridge_call \<Rightarrow> bridge \<Rightarrow> bridge" where
  "bridge_exec lb (BCheck dl has_result install ii rec) b = snd (Lib_CheckThreadSampler lb dl has_result install ii rec b)"
| "bridge_exec lb (BSample sa) b = Lib_Sample lb sa b"
| "bridge_exec lb (BSignal si) b = ThreadSamplerSigHandler si b"
| "bridge_exec lb (BCollect clk wchan f) b = snd (Inner_CollectStack lb clk wchan f b)"
| "bridge_exec lb BResult b = snd (GetSamplerResult b)"
| "bridge_exec lb (BDeinit ii) b = snd (Lib_Deinit lb ii b)"

text \<open>
  On the sampler every call of the watchdog is one of the C interface, or does nothing but take a signal from the queue.
\<close>

lemma is_call:
  "\<exists>d. snd (ThreadSamplerInit lb ii n r s) = call_exec lb d s"
  "\<exists>d. snd (ThreadSamplerSample lb sa s) = call_exec lb d s"
  "\<exists>d. ThreadSamplerSignalHandler si s = call_exec lb d s"
  "\<exists>d. snd (snd (snd (ThreadSamplerCollect lb clk wchan n m f s))) = call_exec lb d s"
  "\<exists>d. snd (ThreadSamplerDeinit lb ii s) = call_exec lb d s"
  by (metis call_exec.simps(1), metis call_exec.simps(2), metis call_exec.simps(3), metis call_exec.simps(4), metis call_exec.simps(5))

lemma bridge_exec_lib:
  "br_lib (bridge_exec lb c b) = br_lib b \<or> (\<exists>d. br_lib (bridge_exec lb c b) = call_exec lb d (br_lib b)) \<or>
   br_lib (bridge_exec lb c b) = (br_lib b)\<lparr>signals := signals (br_lib b) - 1\<rparr>"
proof -
  have "br_lib (snd (Lib_InitThreadSamplerFuncs dl g b)) = br_lib b" for dl g
    by (simp add: Lib_InitThreadSamplerFuncs_def split: prod.split)
  then show ?thesis
    by (cases c) (auto simp: Lib_CheckThreadSampler_def Lib_Sample_def ThreadSamplerSigHandler_def Inner_CollectStack_def
        GetSamplerResult_def Lib_Deinit_def UninstallThreadSamplerSignal_def is_call split_beta Let_def split: bool.split)
qed

lemma bridge_exec_handler:
  "(samplerSigHandler (br_flags b) \<longrightarrow> samplerFuncs (br_flags b)) \<Longrightarrow>
   samplerSigHandler (br_flags (bridge_exec lb c b)) \<longrightarrow> samplerFuncs (br_flags (bridge_exec lb c b))"
  by (cases c)
    (auto simp: Lib_CheckThreadSampler_def Lib_InitThreadSamplerFuncs_def InitThreadSamplerFuncs_def ResetThreadSamplerFuncs_def
      Lib_Sample_def ThreadSamplerSigHandler_def Inner_CollectStack_def GetSamplerResult_def Lib_Deinit_def
      UninstallThreadSamplerSignal_def Let_def split: prod.splits bool.splits dl_result.splits)

text \<open>
  At every moment the handler in front has one behind it only if the library is loaded, and the sampler is well typed, so that
  a signal finds buffers of the right size whenever it writes.
\<close>

theorem bridge_invariant:
  fixes lb :: sampler_lib and cs :: "bridge_call list"
  defines "b \<equiv> fold (bridge_exec lb) cs bridge_init"
  shows "samplerSigHandler (br_flags b) \<longrightarrow> samplerFuncs (br_flags b)" and "sampler_typed (br_lib b)"
proof -
  have "(samplerSigHandler (br_flags (fold (bridge_exec lb) cs b)) \<longrightarrow> samplerFuncs (br_flags (fold (bridge_exec lb) cs b))) \<and>
      sampler_typed (br_lib (fold (bridge_exec lb) cs b))"
    if "samplerSigHandler (br_flags b) \<longrightarrow> samplerFuncs (br_flags b)" and "sampler_typed (br_lib b)" for b
    using that
  proof (induction cs arbitrary: b)
    case (Cons c cs)
    have "sampler_typed ((br_lib b)\<lparr>signals := signals (br_lib b) - 1\<rparr>)" using Cons.prems(2) by (simp add: sampler_typed_def)
    then have "sampler_typed (br_lib (bridge_exec lb c b))"
      using bridge_exec_lib [of lb c b] Cons.prems(2) typed_call by metis
    with Cons.IH [OF bridge_exec_handler [OF Cons.prems(1)]] show ?case by simp
  qed simp
  from this [of bridge_init] show "samplerSigHandler (br_flags b) \<longrightarrow> samplerFuncs (br_flags b)" "sampler_typed (br_lib b)"
    using typed_init by (simp_all add: b_def bridge_init_def Sampling_init_def)
qed

section \<open>After the end\<close>

fun is_check :: "bridge_call \<Rightarrow> bool" where
  "is_check (BCheck dl has_result install ii rec) = True"
| "is_check _ = False"

definition quiet :: "(nat \<Rightarrow> ThreadUnwindContext) option \<Rightarrow> bridge \<Rightarrow> bool" where
  "quiet bufs b \<longleftrightarrow> \<not> samplerSigHandler (br_flags b) \<and> \<not> s_init (br_lib b) \<and> timeStampedPcsList (br_lib b) = [] \<and>
     buffers (br_lib b) \<in> {None, bufs}"

lemma quiet_collect:
  assumes "quiet bufs b"
  shows "\<exists>t h. ThreadSamplerCollect lb clk wchan STACK_LENGTH STACK_LENGTH f (br_lib b) = (- 1, t, h, (br_lib b)\<lparr>heaviestStack := []\<rparr>)"
  using assms by (simp add: quiet_def ThreadSamplerCollect_def CollectStack_def ProcessStackBuffer_def strncpy_s_def STACK_LENGTH_def Let_def)

lemma quiet_exec: "quiet bufs b \<Longrightarrow> \<not> is_check c \<Longrightarrow> quiet bufs (bridge_exec lb c b)"
proof (cases c)
  case (BCollect clk wchan f)
  assume "quiet bufs b"
  then show ?thesis
    using BCollect quiet_collect [of bufs b lb clk wchan f] by (auto simp: Inner_CollectStack_def quiet_def)
qed (auto simp: quiet_def Lib_Sample_def ThreadSamplerSample_def Sample_def ThreadSamplerSigHandler_def
      GetSamplerResult_def Lib_Deinit_def UninstallThreadSamplerSignal_def ThreadSamplerDeinit_def Sampler_Deinit_def
      ReleaseRecordBuffer_def DestroyUnwinder_def ResetConsumeInfo_def Let_def)

text \<open>
  C29. Once the watchdog has ended the sampling, nothing that still arrives, signals of requests that were on their way included,
  changes the buffers or makes a stack appear, until the sampler is started again: the sampler stays ended,
  its buffers are as they were left or released, and collecting gives no text.
\<close>

theorem late_signals_ignored:
  fixes lb :: sampler_lib and ii :: init_in
  assumes "samplerFuncs (br_flags b)" and "list_all (\<lambda>c. \<not> is_check c) late"
  defines "d \<equiv> snd (Lib_Deinit lb ii b)"
  defines "b' \<equiv> fold (bridge_exec lb) late d"
  shows "\<not> s_init (br_lib b') \<and> timeStampedPcsList (br_lib b') = [] \<and> buffers (br_lib b') \<in> {None, buffers (br_lib d)} \<and>
    \<not> samplerSigHandler (br_flags b') \<and> fst (Inner_CollectStack lb clk wchan f b') = None"
proof -
  have "quiet (buffers (br_lib d)) d"
    using assms(1) by (auto simp: d_def quiet_def Lib_Deinit_def UninstallThreadSamplerSignal_def ThreadSamplerDeinit_def
        Sampler_Deinit_def ReleaseRecordBuffer_def DestroyUnwinder_def ResetConsumeInfo_def Let_def)
  moreover have "quiet bufs (fold (bridge_exec lb) late x)" if "quiet bufs x" for bufs x
    using that assms(2) by (induction late arbitrary: x) (simp_all add: quiet_exec)
  ultimately have q: "quiet (buffers (br_lib d)) b'" by (simp add: b'_def)
  then show ?thesis using quiet_collect [OF q, of lb clk wchan f] by (auto simp: quiet_def Inner_CollectStack_def)
qed

section \<open>A session\<close>

text \<open>
  A sampler that is not running, holds no stack and has both indices of its ring at the same place; what the
  watchdog and the thread do while one runs; the stacks of the signals that are answered, each with its time and
  with what the unwinder makes of the registers and the bytes of the stack at that signal.
\<close>

definition rested :: "ThreadSampler \<Rightarrow> bool" where
  "rested s \<longleftrightarrow> \<not> s_init s \<and> buffers s = None \<and> signals s = 0 \<and> readIndex s < 2 \<and> writeIndex s = readIndex s \<and>
     timeStampedPcsList s = []"

fun session_ok :: "ThreadSampler \<Rightarrow> bridge_call \<Rightarrow> bool" where
  "session_ok s (BSample sa) = (sa_queued sa \<and> sa_ts sa \<noteq> 0)"
| "session_ok s (BSignal si) = on_stack si s"
| "session_ok s _ = False"

definition shot_by :: "sampler_lib \<Rightarrow> bridge_call \<Rightarrow> bridge \<Rightarrow> (u64 \<times> u64 list) list" where
  "shot_by lb c b = (case c of
       BSignal si \<Rightarrow> if signals (br_lib b) = 0 then [] else [(si_now si, lib_unwind lb (snap_ctx si (br_lib b)))]
     | _ \<Rightarrow> [])"

lemma shot_by_sel [simp]:
  "shot_by lb (BSample sa) b = []"
  "shot_by lb (BSignal si) b = (if signals (br_lib b) = 0 then [] else [(si_now si, lib_unwind lb (snap_ctx si (br_lib b)))])"
  by (simp_all add: shot_by_def)

fun shots :: "sampler_lib \<Rightarrow> bridge_call list \<Rightarrow> bridge \<Rightarrow> (u64 \<times> u64 list) list" where
  "shots lb [] b = []"
| "shots lb (c # cs) b = shot_by lb c b @ shots lb cs (bridge_exec lb c b)"

definition in_session :: "bridge \<Rightarrow> bool" where
  "in_session b \<longleftrightarrow> samplerFuncs (br_flags b) \<and> samplerSigHandler (br_flags b) \<and> ring_inv (br_lib b)"

lemma pending_finish_time [simp]: "pending (s\<lparr>processFinishTime := t\<rparr>) = pending s"
  by (simp add: pending_def split: option.split)

lemma finish_time_irrelevant [simp]:
  "ring_inv (s\<lparr>processFinishTime := t\<rparr>) = ring_inv s" "seen lb (s\<lparr>processFinishTime := t\<rparr>) = seen lb s"
  "bounds (s\<lparr>processFinishTime := t\<rparr>) = bounds s"
  by (simp_all add: ring_inv_def seen_def bounds_def waiting_def split: option.split)

lemma session_step:
  assumes "in_session b" and "session_ok (br_lib b) c"
  shows "in_session (bridge_exec lb c b) \<and> bounds (br_lib (bridge_exec lb c b)) = bounds (br_lib b) \<and>
    seen lb (br_lib (bridge_exec lb c b)) = seen lb (br_lib b) @ shot_by lb c b"
proof (cases c)
  case (BSample sa)
  let ?s = "SendSampleRequest (sa_ts sa) True (br_lib b)"
  have r: "ring_inv (br_lib b)" "samplerFuncs (br_flags b)" using assms(1) by (simp_all add: in_session_def)
  then have "ring_inv ?s" "seen lb ?s = seen lb (br_lib b)" using BSample assms(2) by (simp_all add: ring_idle request_seen)
  moreover have "s_init (br_lib b)" using r(1) by (simp add: ring_inv_def)
  ultimately show ?thesis
    using BSample assms(2) r process_ring [of ?s lb "sa_clk sa"] assms(1)
    by (simp add: Lib_Sample_def ThreadSamplerSample_def Sample_def request_bounds in_session_def)
next
  case (BSignal si)
  then show ?thesis using assms signal_ring [of "br_lib b" si]
    by (simp add: ThreadSamplerSigHandler_def in_session_def unwound_def)
qed (use assms(2) in simp_all)

lemma session_bounds: "bounds s' = bounds s \<Longrightarrow> session_ok s' c = session_ok s c"
  by (cases c) (simp_all add: on_stack_def bounds_def)

lemma session_run:
  "in_session b \<Longrightarrow> list_all (session_ok (br_lib b)) cs \<Longrightarrow>
   in_session (fold (bridge_exec lb) cs b) \<and> seen lb (br_lib (fold (bridge_exec lb) cs b)) = seen lb (br_lib b) @ shots lb cs b"
proof (induction cs arbitrary: b)
  case (Cons c cs)
  let ?b = "bridge_exec lb c b"
  have s: "in_session ?b" "bounds (br_lib ?b) = bounds (br_lib b)"
    "seen lb (br_lib ?b) = seen lb (br_lib b) @ shot_by lb c b"
    using session_step [OF Cons.prems(1)] Cons.prems(2) by auto
  have "list_all (session_ok (br_lib ?b)) cs" using Cons.prems(2) session_bounds [OF s(2)] by (simp add: list_all_iff)
  with Cons.IH [OF s(1)] show ?case by (simp add: s(3))
qed simp

lemma check_starts:
  assumes "rested (br_lib b)" and "Lib_CheckThreadSampler lb dl g install ii rec b = (True, b1)"
  shows "in_session b1" and "seen lb (br_lib b1) = []"
proof -
  have dl: "dl = DlOk" "install" using assms(2)
    by (auto simp: Lib_CheckThreadSampler_def Lib_InitThreadSamplerFuncs_def InitThreadSamplerFuncs_def
        split: dl_result.splits if_splits)
  obtain ok l where l: "Sampler_Init lb ii COLLECT_STACK_COUNT rec (br_lib b) = (ok, l)" by fastforce
  have b1: "ok" "br_lib b1 = l" "samplerFuncs (br_flags b1)" "samplerSigHandler (br_flags b1)"
    using assms(2) l dl
    by (auto simp: Lib_CheckThreadSampler_def Lib_InitThreadSamplerFuncs_def InitThreadSamplerFuncs_def ThreadSamplerInit_def
        split: if_splits)
  note i = Init_ring [of lb ii COLLECT_STACK_COUNT rec "br_lib b" l]
  show "in_session b1" "seen lb (br_lib b1) = []"
    using i(1-3) b1 l assms(1) by (simp_all add: in_session_def rested_def seen_def pending_waiting)
qed

lemma stack_text_heaviest [simp]: "stack_text lb (s\<lparr>heaviestStack := h\<rparr>) = stack_text lb s"
  by (simp add: stack_text_def GetStackByPcs_def fun_eq_iff split: prod.split)

text \<open>A copy into a buffer and back out of it: the text up to its first null character, cut to the buffer.\<close>

lemma buffer_text_copy: "buffer_text (strncpy_s STACK_LENGTH s) = take (STACK_LENGTH - 1) (takeWhile (\<lambda>c. c \<noteq> CHR 0x00) s)"
proof -
  have idem: "takeWhile P (take n (takeWhile P xs)) = take n (takeWhile P xs)" for P n and xs :: string
    by (auto simp: takeWhile_eq_all_conv dest: in_set_takeD set_takeWhileD)
  have "length (takeWhile (\<lambda>c. c \<noteq> CHR 0x00) s) \<le> length s" by (rule length_takeWhile_le)
  moreover have "STACK_LENGTH \<noteq> 0" by (simp add: STACK_LENGTH_def)
  ultimately show ?thesis by (simp add: buffer_text_def strncpy_s_def idem)
qed

text \<open>What collecting gives in a session.\<close>

lemma session_text:
  fixes lb :: sampler_lib and clk :: "nat \<Rightarrow> u64" and b :: bridge
  assumes "in_session b" and "f \<noteq> 1"
  defines "l \<equiv> ProcessStackBuffer lb clk (br_lib b)"
  shows "timeStampedPcsList l = seen lb (br_lib b)"
    and "fst (Inner_CollectStack lb clk wchan f b) =
      (if seen lb (br_lib b) = [] then None
       else Some (take (STACK_LENGTH - 1) (takeWhile (\<lambda>c. c \<noteq> CHR 0x00)
              (concat (map (stack_text lb l) [0..<length (seen lb (br_lib b))]))), []))"
proof -
  show m: "timeStampedPcsList l = seen lb (br_lib b)"
    using process_ring(2,3) [of "br_lib b" lb clk] assms(1) by (simp add: in_session_def l_def seen_def pending_waiting)
  then have n: "timeStampedPcsList l = [] \<longleftrightarrow> seen lb (br_lib b) = []" "length (timeStampedPcsList l) = length (seen lb (br_lib b))"
    by simp_all
  have k: "CollectStack lb clk wchan False (br_lib b) =
      (if timeStampedPcsList l = [] then (False, ''/proc/self/wchan: '' @ [CHR 0x0A] @ wchan @ [CHR 0x0A], l\<lparr>heaviestStack := []\<rparr>)
       else (True, concat (map (stack_text lb l) [0..<length (timeStampedPcsList l)]), l\<lparr>heaviestStack := []\<rparr>))"
    by (simp add: CollectStack_def l_def Let_def)
  define x where "x y = the (strncpy_s STACK_LENGTH y)" for y
  have x: "strncpy_s STACK_LENGTH y = Some (x y)" for y by (simp add: x_def strncpy_s_def STACK_LENGTH_def)
  have "buffer_text (Some (x y)) = take (STACK_LENGTH - 1) (takeWhile (\<lambda>c. c \<noteq> CHR 0x00) y)" for y
    using buffer_text_copy [of y] by (simp add: x)
  then show "fst (Inner_CollectStack lb clk wchan f b) =
      (if seen lb (br_lib b) = [] then None
       else Some (take (STACK_LENGTH - 1) (takeWhile (\<lambda>c. c \<noteq> CHR 0x00)
              (concat (map (stack_text lb l) [0..<length (seen lb (br_lib b))]))), []))"
    using n assms(1,2) by (simp add: Inner_CollectStack_def ThreadSamplerCollect_def k x in_session_def buffer_text_def [of None])
qed

text \<open>
  C11. From the start of the sampling to its text, for a sampler at rest whose ring indices agree: the stacks listed
  when the watchdog collects are exactly one for each signal answered since the start, in their order, whatever the
  interleaving of samples and signals, each with the time of its signal and with what the unwinder makes
  of the registers and the bytes of the stack the thread had then; the watchdog gets
  their texts, one behind the other, up to the first null character and cut to one less than 128 KiB,
  and no heaviest stack; without a single signal answered it gets nothing.
\<close>

theorem collected_stacks_delivered:
  fixes lb :: sampler_lib and clk :: "nat \<Rightarrow> u64"
  assumes "rested (br_lib b)" and "Lib_CheckThreadSampler lb dl g install ii rec b = (True, b1)"
    and "list_all (session_ok (br_lib b1)) cs" and "f \<noteq> 1"
  defines "b2 \<equiv> fold (bridge_exec lb) cs b1"
  defines "l \<equiv> ProcessStackBuffer lb clk (br_lib b2)"
  shows "timeStampedPcsList l = shots lb cs b1 \<and>
    fst (Inner_CollectStack lb clk wchan f b2) =
      (if shots lb cs b1 = [] then None
       else Some (take (STACK_LENGTH - 1) (takeWhile (\<lambda>c. c \<noteq> CHR 0x00)
              (concat (map (stack_text lb l) [0..<length (shots lb cs b1)]))), []))"
proof -
  note c = check_starts [OF assms(1,2)]
  have s: "in_session b2" "seen lb (br_lib b2) = shots lb cs b1"
    using session_run [OF c(1) assms(3), of lb] c(2) by (simp_all add: b2_def)
  show ?thesis using session_text [OF s(1) assms(4)] s(2) by (simp add: l_def)
qed

section \<open>A concrete session\<close>

definition demo_start :: "bool \<times> bridge" where
  "demo_start = Lib_CheckThreadSampler demo_lib DlOk False True demo_init False bridge_init"

definition demo_take :: "u64 \<Rightarrow> bridge_call" where
  "demo_take ts = BSample \<lparr>sa_ts = ts, sa_queued = True, sa_clk = (\<lambda>_. 9), sa_end = 9\<rparr>"

lemma demo_start_ok:
  "demo_start = (True, snd demo_start)" "bounds (br_lib (snd demo_start)) = (1000, 2000)" "rested (br_lib bridge_init)"
  by (simp_all add: demo_start_def Lib_CheckThreadSampler_def Lib_InitThreadSamplerFuncs_def InitThreadSamplerFuncs_def
      ThreadSamplerInit_def Sampler_Init_def InitRecordBuffer_def InitUnwinder_def InitStackPrinter_def demo_init_def
      COLLECT_STACK_COUNT_def bridge_init_def ThreadSampler_init_def bounds_def rested_def)

lemma process_nothing: "buffers s = Some cs \<Longrightarrow> snapshotTime (cs (readIndex s)) = 0 \<Longrightarrow> ProcessStackBuffer lb clk s = s"
  by (simp add: ProcessStackBuffer_def process_loop_read read_one_def GetReadContext_def Let_def)

theorem collected_stacks_delivered_witness:
  "timeStampedPcsList (ProcessStackBuffer demo_lib (\<lambda>_. 9)
     (br_lib (fold (bridge_exec demo_lib) [demo_take 3, BSignal (demo_signal 4), demo_take 5] (snd demo_start)))) = [(4, [4])] \<and>
   (\<exists>text. fst (Inner_CollectStack demo_lib (\<lambda>_. 9) [] 0
     (fold (bridge_exec demo_lib) [demo_take 3, BSignal (demo_signal 4), demo_take 5] (snd demo_start))) = Some (text, []))"
proof -
  let ?cs = "[demo_take 3, BSignal (demo_signal 4), demo_take 5]"
  have "list_all (session_ok (br_lib (snd demo_start))) ?cs"
    using demo_start_ok(2) by (simp add: demo_take_def demo_signal_def on_stack_def bounds_def)
  note c = collected_stacks_delivered [OF demo_start_ok(3) demo_start_ok(1) [unfolded demo_start_def] this [unfolded demo_start_def],
      of 0 "\<lambda>_. 9" "[]", folded demo_start_def]
  have "shots demo_lib ?cs (snd demo_start) = [(4, [4])]"
    by (simp add: demo_take_def demo_start_def Lib_CheckThreadSampler_def Lib_InitThreadSamplerFuncs_def InitThreadSamplerFuncs_def
        ThreadSamplerInit_def Sampler_Init_def InitRecordBuffer_def InitUnwinder_def InitStackPrinter_def demo_init_def
        COLLECT_STACK_COUNT_def bridge_init_def ThreadSampler_init_def Lib_Sample_def ThreadSamplerSample_def Sample_def
        SendSampleRequest_def GetWriteContext_def set_context_def ThreadUnwindContext_zero_def
        process_nothing demo_signal_def demo_lib_def)
  then show ?thesis using c by simp
qed

theorem late_signals_ignored_witness:
  "\<not> s_init (br_lib (fold (bridge_exec demo_lib) [BSignal (demo_signal 4), demo_take 5, BResult]
     (snd (Lib_Deinit demo_lib demo_init (snd demo_start)))))"
proof -
  have "samplerFuncs (br_flags (snd demo_start))"
    by (simp add: demo_start_def Lib_CheckThreadSampler_def Lib_InitThreadSamplerFuncs_def InitThreadSamplerFuncs_def split: prod.split)
  from late_signals_ignored [OF this, of "[BSignal (demo_signal 4), demo_take 5, BResult]" demo_lib demo_init]
  show ?thesis by (simp add: demo_take_def)
qed

end
