(* ===== verification/Freeze_Session.thy ===== *)
theory Freeze_Session
  imports Sampler_Bridge
begin

text \<open>
  The sampling of a freeze with the sampler behind it: the closure \<^verbatim>\<open>StartSample\<close> registers and \<^verbatim>\<open>SaveFreezeStackToFile\<close>
  (\<^verbatim>\<open>watchdog_inner.cpp\<close>) on the joined state of the watchdog and the sampler, with the file they leave. It is the closure of
  \<^verbatim>\<open>Watchdog_Sampling\<close> with its readings taken from the library, which is proved, and so the text in the file can be followed
  back to the signals.
\<close>

section \<open>Model\<close>

text \<open>What one run of the closure reads of the outside; \<open>fz_saved\<close> tells whether the file could be written.\<close>

record freeze_in =
  fz_dl :: dl_result
  fz_has_result :: bool
  fz_install :: bool
  fz_init :: init_in
  fz_sample :: sample_in
  fz_dir :: bool
  fz_clk :: "nat \<Rightarrow> u64"
  fz_wchan :: string
  fz_tick :: u64
  fz_saved :: bool

text \<open>The files written, the newest last.\<close>

record freeze_state =
  fs_bridge :: bridge
  fs_files :: "(string \<times> string) list"

definition upd_flags :: "(Sampling \<Rightarrow> Sampling) \<Rightarrow> bridge \<Rightarrow> bridge" where
  "upd_flags f b = b\<lparr>br_flags := f (br_flags b)\<rparr>"

definition freeze_info :: "int \<Rightarrow> string \<Rightarrow> bool \<Rightarrow> string \<Rightarrow> string" where
  "freeze_info pid bundle_nm reuse stack =
     ''#ThreadInfos Tid: '' @ show_int pid @ '', Name: '' @ bundle_nm @ [CHR 0x0A] @
     (if reuse
      then ''The current thread is collecting the stack, which conflicts with the main thread jank event.'' @
           '' Reuse the current stack.''
      else []) @ stack"

definition Freeze_SaveToFile :: "sampler_lib \<Rightarrow> freeze_in \<Rightarrow> int \<Rightarrow> string \<Rightarrow> freeze_state \<Rightarrow> string \<times> freeze_state" where
  "Freeze_SaveToFile lb fi pid bundle_nm fs =
     (let b1 = upd_flags ResetFreezeSampleFlags (fs_bridge fs) in
      if \<not> fz_dir fi then ([], fs\<lparr>fs_bridge := b1\<rparr>)
      else case Inner_CollectStack lb (fz_clk fi) (fz_wchan fi) 0 b1 of
          (None, b2) \<Rightarrow> ([], fs\<lparr>fs_bridge := b2\<rparr>)
        | (Some (stack, heaviest), b2) \<Rightarrow>
            let info = freeze_info pid bundle_nm (g_isReuseStack (br_flags b2)) stack;
                freezeFile = currentFile (sampleFreezeInfo (br_flags b2))
            in (freezeFile, fs\<lparr>
                  fs_bridge := upd_flags (\<lambda>s. s\<lparr>sampleFreezeInfo :=
                    \<lparr>lastSaveTime = fz_tick fi, freezeFile = freezeFile, currentFile = []\<rparr>\<rparr>) b2,
                  fs_files := fs_files fs @ (if fz_saved fi then [(freezeFile, info)] else [])\<rparr>))"

definition freeze_run :: "sampler_lib \<Rightarrow> freeze_in \<Rightarrow> int \<Rightarrow> string \<Rightarrow> int \<Rightarrow> freeze_state \<Rightarrow> freeze_state" where
  "freeze_run lb fi pid bundle_nm target fs =
     (let b0 = fs_bridge fs; n = g_freezeSampleCount (br_flags b0);
          b1 = (if n = 0 \<and> g_isDumpStack (br_flags b0) then upd_flags (\<lambda>s. s\<lparr>g_isReuseStack := True\<rparr>) b0 else b0) in
      if g_isReuseStack (br_flags b1) then
        (if \<not> g_isDumpStack (br_flags b1) then snd (Freeze_SaveToFile lb fi pid bundle_nm (fs\<lparr>fs_bridge := b1\<rparr>))
         else fs\<lparr>fs_bridge := b1\<rparr>)
      else
        let (ok, b2) = (if n = 0 then Lib_CheckThreadSampler lb (fz_dl fi) (fz_has_result fi) (fz_install fi) (fz_init fi)
                          (initAsyncStack (br_flags b1)) b1 else (True, b1)) in
        if n = 0 \<and> \<not> ok \<or> \<not> samplerFuncs (br_flags b2) then fs\<lparr>fs_bridge := upd_flags ResetFreezeSampleFlags b2\<rparr>
        else if n < target then
          fs\<lparr>fs_bridge := upd_flags (\<lambda>s. s\<lparr>g_freezeSampleCount := n + 1\<rparr>)
            (Lib_Sample lb (fz_sample fi) (upd_flags (\<lambda>s. s\<lparr>g_isDumpStack := True\<rparr>) b2))\<rparr>
        else
          (let fs' = snd (Freeze_SaveToFile lb fi pid bundle_nm
                 (fs\<lparr>fs_bridge := upd_flags (\<lambda>s. s\<lparr>g_freezeSampleCount := n + 1\<rparr>) b2\<rparr>))
           in fs'\<lparr>fs_bridge := upd_flags (\<lambda>s. s\<lparr>g_freezeSampleCount := n + 2\<rparr>) (fs_bridge fs')\<rparr>))"

section \<open>Agreement with the closure\<close>

text \<open>The readings of the closure when the library gives them.\<close>

definition freeze_probe :: "sampler_lib \<Rightarrow> freeze_in \<Rightarrow> bridge \<Rightarrow> probe \<Rightarrow> bool" where
  "freeze_probe lb fi b pr \<longleftrightarrow>
     pr_dl pr = fz_dl fi \<and> pr_install pr = fz_install fi \<and> pr_dir pr = fz_dir fi \<and> pr_tick pr = fz_tick fi \<and>
     pr_init pr = fst (ThreadSamplerInit lb (fz_init fi) COLLECT_STACK_COUNT (if initAsyncStack (br_flags b) then 1 else 0) (br_lib b)) \<and>
     (samplerFuncs (br_flags b) \<longrightarrow>
        pr_collect pr = map_option fst (fst (Inner_CollectStack lb (fz_clk fi) (fz_wchan fi) 0 b)))"

lemma upd_flags_sel [simp]: "br_flags (upd_flags f b) = f (br_flags b)" "br_lib (upd_flags f b) = br_lib b"
  by (simp_all add: upd_flags_def)

lemma Inner_CollectStack_flags:
  "samplerFuncs (f (br_flags b)) = samplerFuncs (br_flags b) \<Longrightarrow>
   Inner_CollectStack lb clk wchan tf (upd_flags f b) =
     (fst (Inner_CollectStack lb clk wchan tf b), upd_flags f (snd (Inner_CollectStack lb clk wchan tf b)))"
  by (simp add: Inner_CollectStack_def upd_flags_def split: prod.split)

lemma Inner_CollectStack_keeps: "br_flags (snd (Inner_CollectStack lb clk wchan tf b)) = br_flags b"
  by (simp add: Inner_CollectStack_def split: prod.split)

lemma Reset_sel [simp]:
  "samplerFuncs (ResetFreezeSampleFlags s) = samplerFuncs s" "sampleFreezeInfo (ResetFreezeSampleFlags s) = sampleFreezeInfo s"
  "\<not> g_isReuseStack (ResetFreezeSampleFlags s)" "g_freezeTaskFinished (ResetFreezeSampleFlags s)"
  by (simp_all add: ResetFreezeSampleFlags_def)

lemma Save_refines:
  assumes "pr_dir pr = fz_dir fi" and "pr_tick pr = fz_tick fi"
    and "samplerFuncs (br_flags (fs_bridge fs)) \<Longrightarrow>
      pr_collect pr = map_option fst (fst (Inner_CollectStack lb (fz_clk fi) (fz_wchan fi) 0 (fs_bridge fs)))"
  shows "SaveFreezeStackToFile pr (br_flags (fs_bridge fs)) =
    map_prod id (\<lambda>fs. br_flags (fs_bridge fs)) (Freeze_SaveToFile lb fi pid bundle_nm fs)"
proof -
  let ?c = "Inner_CollectStack lb (fz_clk fi) (fz_wchan fi) 0 (fs_bridge fs)"
  have c: "Inner_CollectStack lb (fz_clk fi) (fz_wchan fi) 0 (upd_flags ResetFreezeSampleFlags (fs_bridge fs)) =
      (fst ?c, upd_flags ResetFreezeSampleFlags (snd ?c))"
    by (rule Inner_CollectStack_flags) simp
  have k: "br_flags (snd ?c) = br_flags (fs_bridge fs)" by (rule Inner_CollectStack_keeps)
  have n: "\<not> samplerFuncs (br_flags (fs_bridge fs)) \<Longrightarrow> fst ?c = None" by (simp add: Inner_CollectStack_def)
  show ?thesis
    using assms n by (auto simp: Freeze_SaveToFile_def SaveFreezeStackToFile_def c k Let_def split: option.split)
qed

lemma Check_refines:
  assumes "freeze_probe lb fi b pr" and "br_lib b' = br_lib b" and "initAsyncStack (br_flags b) = initAsyncStack (br_flags b')"
  shows "CheckThreadSampler pr (br_flags b') = map_prod id br_flags
    (Lib_CheckThreadSampler lb (fz_dl fi) (fz_has_result fi) (fz_install fi) (fz_init fi) (initAsyncStack (br_flags b')) b')"
  by (rule bridge_refines_check) (use assms in \<open>simp_all add: freeze_probe_def\<close>)

lemma Lib_Sample_flags: "br_flags (Lib_Sample lb sa b) = br_flags b"
  by (simp add: Lib_Sample_def)

text \<open>
  A run of the closure is the one of the watchdog with the readings of the library, for every number of samples a client may
  ask for.
\<close>

theorem freeze_run_refines:
  assumes "freeze_probe lb fi (fs_bridge fs) pr" and "sampling w = br_flags (fs_bridge fs)" and "0 < target"
  shows "sampling (freeze_closure pr target w) = br_flags (fs_bridge (freeze_run lb fi pid bundle_nm target fs))"
proof -
  define b where "b = fs_bridge fs"
  define n where "n = g_freezeSampleCount (br_flags b)"
  have p: "freeze_probe lb fi b pr" using assms(1) by (simp add: b_def)
  have c: "fst (Inner_CollectStack lb (fz_clk fi) (fz_wchan fi) 0 b') = fst (Inner_CollectStack lb (fz_clk fi) (fz_wchan fi) 0 b)"
    if "br_lib b' = br_lib b" "samplerFuncs (br_flags b') = samplerFuncs (br_flags b)" for b'
    using that by (simp add: Inner_CollectStack_def split: prod.split)
  have save: "SaveFreezeStackToFile pr (br_flags b') =
      map_prod id (\<lambda>fs. br_flags (fs_bridge fs)) (Freeze_SaveToFile lb fi pid bundle_nm (fs\<lparr>fs_bridge := b'\<rparr>))"
    if "br_lib b' = br_lib b" "samplerFuncs (br_flags b') = samplerFuncs (br_flags b)" for b'
    using p that c [OF that] by (intro Save_refines [of pr fi "fs\<lparr>fs_bridge := b'\<rparr>", simplified]) (simp_all add: freeze_probe_def)
  note d = freeze_closure_def freeze_run_def b_def [symmetric] n_def [symmetric] assms(2) Let_def
  show ?thesis
  proof (cases "n = 0")
    case True
    obtain ok b2 where k: "Lib_CheckThreadSampler lb (fz_dl fi) (fz_has_result fi) (fz_install fi) (fz_init fi)
        (initAsyncStack (br_flags b)) b = (ok, b2)" by fastforce
    then have "CheckThreadSampler pr (br_flags b) = (ok, br_flags b2)" using Check_refines [OF p refl refl] by simp
    then show ?thesis using True k save [of b] assms(3)
      by (auto simp: d Lib_Sample_flags split: prod.splits)
  next
    case False
    have "SaveFreezeStackToFile pr ((br_flags b)\<lparr>g_freezeSampleCount := n + 1\<rparr>) = map_prod id (\<lambda>fs. br_flags (fs_bridge fs))
        (Freeze_SaveToFile lb fi pid bundle_nm (fs\<lparr>fs_bridge := upd_flags (\<lambda>s. s\<lparr>g_freezeSampleCount := n + 1\<rparr>) b\<rparr>))"
      using save [of "upd_flags (\<lambda>s. s\<lparr>g_freezeSampleCount := n + 1\<rparr>) b"] by simp
    then show ?thesis using False save [of b] by (auto simp: d Lib_Sample_flags split: prod.splits)
  qed
qed

section \<open>A sampling from its start to its file\<close>

text \<open>The runs of the closure and the signals between them; the calls of the sampler they make once the sampling goes on.\<close>

datatype freeze_event = FTick freeze_in | FSignal signal_in

fun freeze_exec :: "sampler_lib \<Rightarrow> int \<Rightarrow> string \<Rightarrow> int \<Rightarrow> freeze_event \<Rightarrow> freeze_state \<Rightarrow> freeze_state" where
  "freeze_exec lb pid bundle_nm target (FTick fi) fs = freeze_run lb fi pid bundle_nm target fs"
| "freeze_exec lb pid bundle_nm target (FSignal si) fs = fs\<lparr>fs_bridge := ThreadSamplerSigHandler si (fs_bridge fs)\<rparr>"

fun sampler_call_of :: "freeze_event \<Rightarrow> bridge_call" where
  "sampler_call_of (FTick fi) = BSample (fz_sample fi)"
| "sampler_call_of (FSignal si) = BSignal si"

fun is_tick :: "freeze_event \<Rightarrow> bool" where
  "is_tick (FTick fi) = True"
| "is_tick (FSignal si) = False"

text \<open>The freeze sampling goes on after \<open>n\<close> samples, its sampler in the state of \<open>b\<close>.\<close>

definition going_on :: "int \<Rightarrow> bridge \<Rightarrow> freeze_state \<Rightarrow> freeze_state \<Rightarrow> bool" where
  "going_on n b fs0 fs \<longleftrightarrow>
     br_lib (fs_bridge fs) = br_lib b \<and> samplerFuncs (br_flags (fs_bridge fs)) \<and> samplerSigHandler (br_flags (fs_bridge fs)) \<and>
     in_session b \<and> g_freezeSampleCount (br_flags (fs_bridge fs)) = n \<and> \<not> g_isReuseStack (br_flags (fs_bridge fs)) \<and>
     currentFile (sampleFreezeInfo (br_flags (fs_bridge fs))) = currentFile (sampleFreezeInfo (br_flags (fs_bridge fs0))) \<and>
     fs_files fs = fs_files fs0"

lemma going_on_step:
  assumes "going_on n b fs0 fs" and "0 < n" and "is_tick ev \<longrightarrow> n < target" and "session_ok (br_lib b) (sampler_call_of ev)"
  shows "going_on (n + of_bool (is_tick ev)) (bridge_exec lb (sampler_call_of ev) b) fs0 (freeze_exec lb pid bundle_nm target ev fs)"
proof -
  have i: "in_session (bridge_exec lb (sampler_call_of ev) b)"
    using session_step [of b "sampler_call_of ev" lb] assms(1,4) by (simp add: going_on_def)
  then show ?thesis
  proof (cases ev)
    case (FTick fi)
    then show ?thesis using assms i by (simp add: going_on_def freeze_run_def Lib_Sample_def in_session_def Let_def)
  next
    case (FSignal si)
    then show ?thesis using assms i by (simp add: going_on_def ThreadSamplerSigHandler_def in_session_def)
  qed
qed

lemma going_on_run:
  assumes "going_on n b fs0 fs" and "0 < n" and "n + int (length (filter is_tick evs)) \<le> target"
    and "list_all (session_ok (br_lib b)) (map sampler_call_of evs)"
  shows "going_on (n + int (length (filter is_tick evs))) (fold (bridge_exec lb) (map sampler_call_of evs) b) fs0
    (fold (freeze_exec lb pid bundle_nm target) evs fs)"
  using assms
proof (induction evs arbitrary: n b fs)
  case (Cons ev evs)
  let ?b = "bridge_exec lb (sampler_call_of ev) b"
  have bb: "bounds (br_lib ?b) = bounds (br_lib b)"
    using session_step [of b "sampler_call_of ev" lb] Cons.prems(1,4) by (simp add: going_on_def)
  have ok: "list_all (session_ok (br_lib ?b)) (map sampler_call_of evs)"
    using Cons.prems(4) by (simp add: list_all_iff session_bounds [OF bb])
  have g: "going_on (n + of_bool (is_tick ev)) ?b fs0 (freeze_exec lb pid bundle_nm target ev fs)"
    by (rule going_on_step) (use Cons.prems in \<open>auto split: if_splits\<close>)
  show ?case using Cons.IH [OF g _ _ ok] Cons.prems(2,3) by (simp add: algebra_simps split: if_splits)
qed simp

lemma first_tick:
  assumes "g_freezeSampleCount (br_flags (fs_bridge fs)) = 0" and "\<not> g_isDumpStack (br_flags (fs_bridge fs))"
    and "\<not> g_isReuseStack (br_flags (fs_bridge fs))" and "0 < target" and "in_session b1"
    and "Lib_CheckThreadSampler lb (fz_dl fi) (fz_has_result fi) (fz_install fi) (fz_init fi)
      (initAsyncStack (br_flags (fs_bridge fs))) (fs_bridge fs) = (True, b1)"
    and "session_ok (br_lib b1) (BSample (fz_sample fi))"
  shows "going_on 1 (Lib_Sample lb (fz_sample fi) b1) fs (freeze_run lb fi pid bundle_nm target fs)"
proof -
  have "in_session (Lib_Sample lb (fz_sample fi) b1)" using session_step [OF assms(5,7), of lb] by simp
  moreover have "br_flags b1 = (br_flags (fs_bridge fs))\<lparr>samplerFuncs := True, samplerSigHandler := True\<rparr>"
    using assms(6) by (auto simp: Lib_CheckThreadSampler_def Lib_InitThreadSamplerFuncs_def InitThreadSamplerFuncs_def
        split: dl_result.splits if_splits prod.splits)
  ultimately show ?thesis
    using assms by (simp add: freeze_run_def going_on_def Lib_Sample_def in_session_def Let_def)
qed

lemma last_tick:
  fixes lb :: sampler_lib
  assumes "going_on target b fs0 fs" and "0 < target" and "fz_dir fi" and "fz_saved fi"
  defines "text \<equiv> fst (Inner_CollectStack lb (fz_clk fi) (fz_wchan fi) 0 b)"
  shows "g_freezeTaskFinished (br_flags (fs_bridge (freeze_run lb fi pid bundle_nm target fs)))"
    and "fs_files (freeze_run lb fi pid bundle_nm target fs) = fs_files fs0 @
      (case text of None \<Rightarrow> [] | Some (stack, _) \<Rightarrow>
        [(currentFile (sampleFreezeInfo (br_flags (fs_bridge fs0))), freeze_info pid bundle_nm False stack)])"
proof -
  define b' where "b' = upd_flags ResetFreezeSampleFlags (upd_flags (\<lambda>s. s\<lparr>g_freezeSampleCount := target + 1\<rparr>) (fs_bridge fs))"
  have l: "br_lib b' = br_lib b" "samplerFuncs (br_flags b')" using assms(1) by (simp_all add: b'_def going_on_def)
  then have c: "fst (Inner_CollectStack lb (fz_clk fi) (fz_wchan fi) 0 b') = text"
    using assms(1) by (simp add: text_def Inner_CollectStack_def going_on_def in_session_def split: prod.split)
  have k: "br_flags (snd (Inner_CollectStack lb (fz_clk fi) (fz_wchan fi) 0 b')) = br_flags b'"
    by (rule Inner_CollectStack_keeps)
  obtain c' b2 where i: "Inner_CollectStack lb (fz_clk fi) (fz_wchan fi) 0 b' = (c', b2)" by fastforce
  have r: "freeze_run lb fi pid bundle_nm target fs =
      (let fs' = snd (Freeze_SaveToFile lb fi pid bundle_nm
                 (fs\<lparr>fs_bridge := upd_flags (\<lambda>s. s\<lparr>g_freezeSampleCount := target + 1\<rparr>) (fs_bridge fs)\<rparr>))
       in fs'\<lparr>fs_bridge := upd_flags (\<lambda>s. s\<lparr>g_freezeSampleCount := target + 2\<rparr>) (fs_bridge fs')\<rparr>)"
    using assms(1,2) by (simp add: freeze_run_def going_on_def Let_def)
  have s: "Freeze_SaveToFile lb fi pid bundle_nm
      (fs\<lparr>fs_bridge := upd_flags (\<lambda>s. s\<lparr>g_freezeSampleCount := target + 1\<rparr>) (fs_bridge fs)\<rparr>) =
    (case c' of None \<Rightarrow> ([], fs\<lparr>fs_bridge := b2\<rparr>)
     | Some (stack, heaviest) \<Rightarrow>
         (currentFile (sampleFreezeInfo (br_flags b2)), fs\<lparr>
            fs_bridge := upd_flags (\<lambda>s. s\<lparr>sampleFreezeInfo :=
              \<lparr>lastSaveTime = fz_tick fi, freezeFile = currentFile (sampleFreezeInfo (br_flags b2)), currentFile = []\<rparr>\<rparr>) b2,
            fs_files := fs_files fs @ [(currentFile (sampleFreezeInfo (br_flags b2)),
              freeze_info pid bundle_nm (g_isReuseStack (br_flags b2)) stack)]\<rparr>))"
    using i assms(3,4) by (simp add: Freeze_SaveToFile_def b'_def Let_def split: option.split)
  have c': "c' = text" "br_flags b2 = br_flags b'" using c k i by simp_all
  show "g_freezeTaskFinished (br_flags (fs_bridge (freeze_run lb fi pid bundle_nm target fs)))"
    by (simp add: r s c'(2) Let_def b'_def split: option.split)
  show "fs_files (freeze_run lb fi pid bundle_nm target fs) = fs_files fs0 @
      (case text of None \<Rightarrow> [] | Some (stack, _) \<Rightarrow>
        [(currentFile (sampleFreezeInfo (br_flags (fs_bridge fs0))), freeze_info pid bundle_nm False stack)])"
    using assms(1) by (simp add: r s c' Let_def b'_def going_on_def split: option.split)
qed

text \<open>A freeze sampling from its first run to its file, whatever the sampler holds when it begins.\<close>

lemma freeze_session_file:
  fixes lb :: sampler_lib and fs :: freeze_state and pid :: int and bundle_nm :: string
  assumes "in_session b1" and "g_freezeSampleCount (br_flags (fs_bridge fs)) = 0"
    and "\<not> g_isDumpStack (br_flags (fs_bridge fs))" and "\<not> g_isReuseStack (br_flags (fs_bridge fs))"
    and "Lib_CheckThreadSampler lb (fz_dl fi) (fz_has_result fi) (fz_install fi) (fz_init fi)
      (initAsyncStack (br_flags (fs_bridge fs))) (fs_bridge fs) = (True, b1)"
    and "target = int (length (filter is_tick (FTick fi # evs)))"
    and "list_all (session_ok (br_lib b1)) (map sampler_call_of (FTick fi # evs))" and "fz_dir fl" and "fz_saved fl"
  defines "calls \<equiv> map sampler_call_of (FTick fi # evs)"
  defines "all \<equiv> seen lb (br_lib b1) @ shots lb calls b1"
  defines "l \<equiv> ProcessStackBuffer lb (fz_clk fl) (br_lib (fold (bridge_exec lb) calls b1))"
  defines "fs' \<equiv> fold (freeze_exec lb pid bundle_nm target) (FTick fi # evs @ [FTick fl]) fs"
  shows "g_freezeTaskFinished (br_flags (fs_bridge fs'))" and "timeStampedPcsList l = all"
    and "fs_files fs' = fs_files fs @
      (if all = [] then []
       else [(currentFile (sampleFreezeInfo (br_flags (fs_bridge fs))), freeze_info pid bundle_nm False
              (take (STACK_LENGTH - 1) (takeWhile (\<lambda>c. c \<noteq> CHR 0x00) (concat (map (stack_text lb l) [0..<length all])))))])"
proof -
  let ?f1 = "freeze_run lb fi pid bundle_nm target fs" and ?b = "fold (bridge_exec lb) calls b1"
  have t: "0 < target" "1 + int (length (filter is_tick evs)) = target" using assms(6) by simp_all
  have ok: "session_ok (br_lib b1) (BSample (fz_sample fi))" using assms(7) by simp
  have 1: "going_on 1 (Lib_Sample lb (fz_sample fi) b1) fs ?f1"
    by (rule first_tick [OF assms(2-4) t(1) assms(1,5) ok])
  have bb: "bounds (br_lib (Lib_Sample lb (fz_sample fi) b1)) = bounds (br_lib b1)"
    using session_step [OF assms(1) ok, of lb] by simp
  have "list_all (session_ok (br_lib (Lib_Sample lb (fz_sample fi) b1))) (map sampler_call_of evs)"
    using assms(7) by (simp add: list_all_iff session_bounds [OF bb])
  from going_on_run [OF 1 _ _ this, of target] t(2)
  have g: "going_on target ?b fs (fold (freeze_exec lb pid bundle_nm target) evs ?f1)" by (simp add: calls_def)
  have s: "in_session ?b" "seen lb (br_lib ?b) = all"
    using session_run [OF assms(1,7), of lb] by (simp_all add: calls_def all_def)
  have z: "(0 :: int) \<noteq> 1" by simp
  have f: "fs' = freeze_run lb fl pid bundle_nm target (fold (freeze_exec lb pid bundle_nm target) evs ?f1)" by (simp add: fs'_def)
  note txts = session_text [OF s(1) z, where lb = lb and clk = "fz_clk fl", folded l_def, unfolded s(2)]
  note last = last_tick [OF g t(1) assms(8,9), where lb = lb and pid = pid and bundle_nm = bundle_nm, folded f]
  show "g_freezeTaskFinished (br_flags (fs_bridge fs'))" by (rule last(1))
  show "timeStampedPcsList l = all" by (rule txts(1))
  show "fs_files fs' = fs_files fs @
      (if all = [] then []
       else [(currentFile (sampleFreezeInfo (br_flags (fs_bridge fs))), freeze_info pid bundle_nm False
              (take (STACK_LENGTH - 1) (takeWhile (\<lambda>c. c \<noteq> CHR 0x00) (concat (map (stack_text lb l) [0..<length all])))))])"
    using last(2) txts(2) by simp
qed

lemma ReadAppStartConfig_flags:
  "g_freezeSampleCount (ReadAppStartConfig e s) = g_freezeSampleCount s" "sampleFreezeInfo (ReadAppStartConfig e s) = sampleFreezeInfo s"
  "g_isDumpStack (ReadAppStartConfig e s) = g_isDumpStack s" "g_isReuseStack (ReadAppStartConfig e s) = g_isReuseStack s"
proof -
  obtain a b where "ReadAppStartConfig e s = s\<lparr>startSlowContent := a, scrollSlowContent := b\<rparr>" using config_frame by blast
  then show "g_freezeSampleCount (ReadAppStartConfig e s) = g_freezeSampleCount s"
    "sampleFreezeInfo (ReadAppStartConfig e s) = sampleFreezeInfo s"
    "g_isDumpStack (ReadAppStartConfig e s) = g_isDumpStack s" "g_isReuseStack (ReadAppStartConfig e s) = g_isReuseStack s"
    by simp_all
qed

text \<open>
  What the start of a sampling leaves when it gives a name: the task in the queue, the count at zero and the name
  of the file.
\<close>

lemma StartSample_gives:
  assumes "StartSample e st date d i w = (f, w1)" and "f \<noteq> []" and "\<not> IsTaskExistLocked FREEZE_SAMPLE w"
  shows "f = ''freeze_'' @ date @ ''_'' @ show_int (getprocpid e) @ ''.txt''"
    and "\<exists>t\<in>set (checkerQueue w1). task_name t = FREEZE_SAMPLE \<and>
      task_task t = Some (FreezeSampleTask (getprocpid e) (d div i)) \<and> \<not> isOneshotTask t"
    and "g_freezeSampleCount (sampling w1) = 0" and "currentFile (sampleFreezeInfo (sampling w1)) = f"
    and "g_isDumpStack (sampling w1) = g_isDumpStack (sampling w)" and "g_isReuseStack (sampling w1) = g_isReuseStack (sampling w)"
  using assms
  by (auto simp: StartSample_def CheckTaskValid_def insert_task_def InsertWatchdogTaskLocked_def CreateWatchdogThreadIfNeed_def
      emit_def upd_sampling_def new_id_def to_int32_def task_constructors ReadAppStartConfig_flags Let_def split: if_splits prod.splits)

text \<open>
  C13. A freeze sampling from the call of the client to its file, for a sampler at rest whose ring indices agree and no other
  feature that is dumping: when \<^verbatim>\<open>StartSample\<close> gives a name, it has queued a task for \<open>duration div interval\<close>
  samples. After so many runs of its closure, with any signals between them, the next run ends the sampling and saves
  one file under just that name. It holds, behind the line with the thread and cut to one less than 128 KiB, the texts of the
  stacks of the signals answered, each one what the unwinder makes of the registers and the bytes of the stack
  at its signal, in the order of the signals; when no signal was answered no file is written. The
  note that a stack of another sampling was reused is never in it.
\<close>

theorem freeze_file_holds_samples:
  fixes lb :: sampler_lib and fs :: freeze_state and bundle_nm :: string
  assumes "StartSample e st date d i w = (f, w1)" and "f \<noteq> []" and "\<not> IsTaskExistLocked FREEZE_SAMPLE w"
    and "\<not> g_isDumpStack (sampling w)" and "\<not> g_isReuseStack (sampling w)"
    and "br_flags (fs_bridge fs) = sampling w1" and "rested (br_lib (fs_bridge fs))"
    and "Lib_CheckThreadSampler lb (fz_dl fi) (fz_has_result fi) (fz_install fi) (fz_init fi)
      (initAsyncStack (sampling w1)) (fs_bridge fs) = (True, b1)"
    and "d div i = int (length (filter is_tick (FTick fi # evs)))"
    and "list_all (session_ok (br_lib b1)) (map sampler_call_of (FTick fi # evs))" and "fz_dir fl" and "fz_saved fl"
  defines "calls \<equiv> map sampler_call_of (FTick fi # evs)"
  defines "l \<equiv> ProcessStackBuffer lb (fz_clk fl) (br_lib (fold (bridge_exec lb) calls b1))"
  defines "fs' \<equiv> fold (freeze_exec lb (getprocpid e) bundle_nm (d div i)) (FTick fi # evs @ [FTick fl]) fs"
  shows "(\<exists>t\<in>set (checkerQueue w1). task_name t = FREEZE_SAMPLE \<and>
      task_task t = Some (FreezeSampleTask (getprocpid e) (d div i)) \<and> \<not> isOneshotTask t) \<and>
    g_freezeTaskFinished (br_flags (fs_bridge fs')) \<and>
    timeStampedPcsList l = shots lb calls b1 \<and>
    fs_files fs' = fs_files fs @
      (if shots lb calls b1 = [] then []
       else [(f, freeze_info (getprocpid e) bundle_nm False
              (take (STACK_LENGTH - 1) (takeWhile (\<lambda>c. c \<noteq> CHR 0x00)
                (concat (map (stack_text lb l) [0..<length (shots lb calls b1)])))))])"
proof -
  note g = StartSample_gives [OF assms(1-3)]
  have z: "g_freezeSampleCount (br_flags (fs_bridge fs)) = 0" "\<not> g_isDumpStack (br_flags (fs_bridge fs))"
    "\<not> g_isReuseStack (br_flags (fs_bridge fs))" "currentFile (sampleFreezeInfo (br_flags (fs_bridge fs))) = f"
    using g(3-6) assms(4-6) by simp_all
  have k: "Lib_CheckThreadSampler lb (fz_dl fi) (fz_has_result fi) (fz_install fi) (fz_init fi)
      (initAsyncStack (br_flags (fs_bridge fs))) (fs_bridge fs) = (True, b1)" using assms(6,8) by simp
  note c = check_starts [OF assms(7,8)]
  show ?thesis
    using freeze_session_file [OF c(1) z(1-3) k assms(9-12)] c(2) g(2) z(4)
    by (simp add: calls_def l_def fs'_def)
qed

definition demo_freeze_in :: freeze_in where
  "demo_freeze_in = \<lparr>fz_dl = DlOk, fz_has_result = False, fz_install = True, fz_init = demo_init,
     fz_sample = \<lparr>sa_ts = 3, sa_queued = True, sa_clk = (\<lambda>_. 9), sa_end = 9\<rparr>, fz_dir = True, fz_clk = (\<lambda>_. 9),
     fz_wchan = [], fz_tick = 5, fz_saved = True\<rparr>"

definition demo_freeze :: freeze_state where
  "demo_freeze = \<lparr>fs_bridge = upd_flags (\<lambda>s. s\<lparr>sampleFreezeInfo := \<lparr>lastSaveTime = 0, freezeFile = [], currentFile = ''f.txt''\<rparr>\<rparr>)
     bridge_init, fs_files = []\<rparr>"

lemma demo_freeze_start:
  defines "b1 \<equiv> snd (Lib_CheckThreadSampler demo_lib DlOk False True demo_init False (fs_bridge demo_freeze))"
  shows "Lib_CheckThreadSampler demo_lib DlOk False True demo_init False (fs_bridge demo_freeze) = (True, b1)"
    and "bounds (br_lib b1) = (1000, 2000)" and "rested (br_lib (fs_bridge demo_freeze))"
    and "shots demo_lib [BSample (fz_sample demo_freeze_in), BSignal (demo_signal 4)] b1 = [(4, [4])]"
    and "br_flags b1 = (br_flags (fs_bridge demo_freeze))\<lparr>samplerFuncs := True, samplerSigHandler := True\<rparr>"
  by (simp_all add: b1_def demo_freeze_def demo_freeze_in_def Lib_CheckThreadSampler_def Lib_InitThreadSamplerFuncs_def
      InitThreadSamplerFuncs_def ThreadSamplerInit_def Sampler_Init_def InitRecordBuffer_def InitUnwinder_def InitStackPrinter_def
      demo_init_def COLLECT_STACK_COUNT_def bridge_init_def ThreadSampler_init_def bounds_def rested_def Sampling_init_def
      Lib_Sample_def ThreadSamplerSample_def Sample_def SendSampleRequest_def GetWriteContext_def set_context_def
      ThreadUnwindContext_zero_def process_nothing demo_signal_def demo_lib_def)

text \<open>The client asks for one sample in 200 ms; the signal comes at 4.\<close>

definition demo_asked :: "string \<times> WatchdogInner" where
  "demo_asked = StartSample service_env demo_stamp ''d'' 200 200 WatchdogInner_init"

definition demo_asked_state :: freeze_state where
  "demo_asked_state = demo_freeze\<lparr>fs_bridge := upd_flags (\<lambda>_. sampling (snd demo_asked)) bridge_init\<rparr>"

lemma demo_asked_ok:
  "demo_asked = (fst demo_asked, snd demo_asked)" "fst demo_asked \<noteq> []" "fs_files demo_asked_state = []"
  "br_flags (fs_bridge demo_asked_state) = sampling (snd demo_asked)" "br_lib (fs_bridge demo_asked_state) = ThreadSampler_init"
  by (simp_all add: demo_asked_def demo_asked_state_def demo_freeze_def StartSample_def CheckTaskValid_def insert_task_def new_id_def
      InsertWatchdogTaskLocked_def IsTaskExistLocked_def IsExceedMaxTaskLocked_def MAX_WATCH_NUM_def WatchdogInner_init_def
      to_int32_def task_constructors CreateWatchdogThreadIfNeed_def emit_def upd_sampling_def bridge_init_def Let_def)

theorem freeze_file_holds_samples_witness:
  "\<exists>text. fs_files (fold (freeze_exec demo_lib (getprocpid service_env) ''app'' (200 div 200))
      [FTick demo_freeze_in, FSignal (demo_signal 4), FTick demo_freeze_in] demo_asked_state) = [(fst demo_asked, text)]"
proof -
  define b1 where "b1 = snd (Lib_CheckThreadSampler demo_lib DlOk False True demo_init (initAsyncStack (sampling (snd demo_asked)))
    (fs_bridge demo_asked_state))"
  have b: "Lib_CheckThreadSampler demo_lib (fz_dl demo_freeze_in) (fz_has_result demo_freeze_in) (fz_install demo_freeze_in)
      (fz_init demo_freeze_in) (initAsyncStack (sampling (snd demo_asked))) (fs_bridge demo_asked_state) = (True, b1)"
    "bounds (br_lib b1) = (1000, 2000)" "rested (br_lib (fs_bridge demo_asked_state))"
    "shots demo_lib [BSample (fz_sample demo_freeze_in), BSignal (demo_signal 4)] b1 = [(4, [4])]"
    by (simp_all add: b1_def demo_freeze_in_def Lib_CheckThreadSampler_def Lib_InitThreadSamplerFuncs_def
        InitThreadSamplerFuncs_def ThreadSamplerInit_def Sampler_Init_def InitRecordBuffer_def InitUnwinder_def InitStackPrinter_def
        demo_init_def COLLECT_STACK_COUNT_def demo_asked_ok(5) ThreadSampler_init_def bounds_def rested_def
        Lib_Sample_def ThreadSamplerSample_def Sample_def SendSampleRequest_def GetWriteContext_def set_context_def
        ThreadUnwindContext_zero_def process_nothing demo_signal_def demo_lib_def)
  have ok: "list_all (session_ok (br_lib b1)) (map sampler_call_of [FTick demo_freeze_in, FSignal (demo_signal 4)])"
    using b(2) by (simp add: demo_freeze_in_def demo_signal_def on_stack_def bounds_def)
  have z: "\<not> IsTaskExistLocked FREEZE_SAMPLE WatchdogInner_init" "\<not> g_isDumpStack (sampling WatchdogInner_init)"
    "\<not> g_isReuseStack (sampling WatchdogInner_init)" "fz_dir demo_freeze_in" "fz_saved demo_freeze_in"
    by (simp_all add: IsTaskExistLocked_def WatchdogInner_init_def Sampling_init_def demo_freeze_in_def)
  show ?thesis
    using freeze_file_holds_samples [OF demo_asked_ok(1) [unfolded demo_asked_def] demo_asked_ok(2) [unfolded demo_asked_def] z(1-3)
      demo_asked_ok(4) [unfolded demo_asked_def] b(3) b(1) [unfolded demo_asked_def] _ ok z(4,5), of "''app''"] b(4) demo_asked_ok(3)
    by (auto simp: demo_asked_def [symmetric])
qed

theorem freeze_run_refines_witness:
  "sampling (freeze_closure demo_probe 1 (WatchdogInner_init\<lparr>sampling := br_flags (fs_bridge demo_freeze)\<rparr>)) =
     br_flags (fs_bridge (freeze_run demo_lib demo_freeze_in 7 ''app'' 1 demo_freeze))"
proof -
  have "freeze_probe demo_lib demo_freeze_in (fs_bridge demo_freeze) demo_probe"
    by (simp add: freeze_probe_def demo_freeze_def demo_freeze_in_def demo_probe_def bridge_init_def Sampling_init_def
        ThreadSamplerInit_def Sampler_Init_def InitRecordBuffer_def InitUnwinder_def InitStackPrinter_def demo_init_def
        COLLECT_STACK_COUNT_def ThreadSampler_init_def)
  then show ?thesis by (rule freeze_run_refines) simp_all
qed

section \<open>A sampler that another feature has left loaded\<close>

lemma check_again:
  assumes "in_session b" and "Lib_CheckThreadSampler lb dl g install ii rec b = (True, b1)"
  shows "in_session b1" and "br_lib b1 = br_lib b"
proof -
  have "s_init (br_lib b)" using assms(1) by (simp add: in_session_def ring_inv_def)
  then show l: "br_lib b1 = br_lib b" using assms(2)
    by (auto simp: Lib_CheckThreadSampler_def Lib_InitThreadSamplerFuncs_def InitThreadSamplerFuncs_def ThreadSamplerInit_def Sampler_Init_def
        split: dl_result.splits if_splits)
  have "samplerFuncs (br_flags b1)" "samplerSigHandler (br_flags b1)" using assms(2)
    by (auto simp: Lib_CheckThreadSampler_def Lib_InitThreadSamplerFuncs_def InitThreadSamplerFuncs_def
        split: dl_result.splits if_splits prod.splits)
  then show "in_session b1" using assms(1) l by (simp add: in_session_def)
qed

text \<open>
  C30. A freeze sampling that begins between the report of another feature and the removal of its task finds the flag clear and the sampler
  still loaded. Its initialisation succeeds and changes nothing, so the file of the freeze holds the stacks of the other
  feature in front of its own; when no signal of its own is handled the file holds only the others.
\<close>

theorem freeze_file_keeps_earlier_stacks:
  fixes lb :: sampler_lib and fs :: freeze_state and pid :: int and bundle_nm :: string
  assumes "in_session (fs_bridge fs)" and "g_freezeSampleCount (br_flags (fs_bridge fs)) = 0"
    and "\<not> g_isDumpStack (br_flags (fs_bridge fs))" and "\<not> g_isReuseStack (br_flags (fs_bridge fs))"
    and "Lib_CheckThreadSampler lb (fz_dl fi) (fz_has_result fi) (fz_install fi) (fz_init fi)
      (initAsyncStack (br_flags (fs_bridge fs))) (fs_bridge fs) = (True, b1)"
    and "target = int (length (filter is_tick (FTick fi # evs)))"
    and "list_all (session_ok (br_lib b1)) (map sampler_call_of (FTick fi # evs))" and "fz_dir fl" and "fz_saved fl"
  defines "calls \<equiv> map sampler_call_of (FTick fi # evs)"
  defines "stacks_in_file \<equiv> seen lb (br_lib (fs_bridge fs)) @ shots lb calls b1"
  defines "l \<equiv> ProcessStackBuffer lb (fz_clk fl) (br_lib (fold (bridge_exec lb) calls b1))"
  defines "fs' \<equiv> fold (freeze_exec lb pid bundle_nm target) (FTick fi # evs @ [FTick fl]) fs"
  shows "g_freezeTaskFinished (br_flags (fs_bridge fs')) \<and> timeStampedPcsList l = stacks_in_file \<and>
    fs_files fs' = fs_files fs @
      (if stacks_in_file = [] then []
       else [(currentFile (sampleFreezeInfo (br_flags (fs_bridge fs))), freeze_info pid bundle_nm False
              (take (STACK_LENGTH - 1) (takeWhile (\<lambda>c. c \<noteq> CHR 0x00)
                (concat (map (stack_text lb l) [0..<length stacks_in_file])))))])"
proof -
  note c = check_again [OF assms(1,5)]
  show ?thesis
    using freeze_session_file [OF c(1) assms(2-9)] c(2) by (simp add: calls_def l_def fs'_def stacks_in_file_def)
qed

text \<open>A freeze whose only request is not answered; the sampler still holds the stack another feature took at 4.\<close>

theorem freeze_file_keeps_earlier_stacks_witness:
  "\<exists>b text. seen demo_lib (br_lib b) = [(4, [4])] \<and>
     fs_files (fold (freeze_exec demo_lib 7 ''app'' 1) [FTick demo_freeze_in, FTick demo_freeze_in] (demo_freeze\<lparr>fs_bridge := b\<rparr>))
     = [(''f.txt'', text)]"
proof -
  define b1 where "b1 = snd (Lib_CheckThreadSampler demo_lib DlOk False True demo_init False (fs_bridge demo_freeze))"
  note b1 = demo_freeze_start [folded b1_def]
  define b where "b = fold (bridge_exec demo_lib) [BSample (fz_sample demo_freeze_in), BSignal (demo_signal 4)] b1"
  note c = check_starts [OF b1(3,1)]
  have ok: "list_all (session_ok (br_lib b1)) [BSample (fz_sample demo_freeze_in), BSignal (demo_signal 4)]"
    using b1(2) by (simp add: demo_freeze_in_def demo_signal_def on_stack_def bounds_def)
  have s: "in_session b" "seen demo_lib (br_lib b) = [(4, [4])]" using session_run [OF c(1) ok, of demo_lib] c(2) b1(4) by (simp_all add: b_def)
  define fs where "fs = demo_freeze\<lparr>fs_bridge := b\<rparr>"
  have fl: "br_flags b = br_flags b1" by (simp add: b_def Lib_Sample_def ThreadSamplerSigHandler_def)
  have z: "in_session (fs_bridge fs)" "g_freezeSampleCount (br_flags (fs_bridge fs)) = 0" "\<not> g_isDumpStack (br_flags (fs_bridge fs))"
    "\<not> g_isReuseStack (br_flags (fs_bridge fs))" "fz_dir demo_freeze_in" "fz_saved demo_freeze_in"
    "currentFile (sampleFreezeInfo (br_flags (fs_bridge fs))) = ''f.txt''" "fs_files fs = []"
    using s(1) by (simp_all add: fs_def fl b1(5)) (simp_all add: demo_freeze_def demo_freeze_in_def bridge_init_def Sampling_init_def)
  obtain b2 where b2: "Lib_CheckThreadSampler demo_lib (fz_dl demo_freeze_in) (fz_has_result demo_freeze_in) (fz_install demo_freeze_in)
      (fz_init demo_freeze_in) (initAsyncStack (br_flags (fs_bridge fs))) (fs_bridge fs) = (True, b2)"
    using s(1) by (simp add: fs_def Lib_CheckThreadSampler_def Lib_InitThreadSamplerFuncs_def InitThreadSamplerFuncs_def ThreadSamplerInit_def
        Sampler_Init_def demo_freeze_in_def in_session_def ring_inv_def)
  have "list_all (session_ok (br_lib b2)) (map sampler_call_of [FTick demo_freeze_in])" by (simp add: demo_freeze_in_def)
  from freeze_file_keeps_earlier_stacks [OF z(1-4) b2 _ this z(5,6), of 1 7 "''app''"] s(2) z(7,8)
  show ?thesis by (intro exI [of _ b]) (auto simp: fs_def)
qed

section \<open>Stopping twice\<close>

text \<open>
  The first request to stop a running sampling saves the file and gives its name; a second one, before the next sampling is started, gives no
  name, whether the sampler is still there or has been ended by the thread of the watchdog meanwhile, because the count of
  samples that sends it to the saving of a file is not reset and the name of the file has been cleared.
\<close>

theorem second_stop_gives_no_file:
  assumes "0 < g_freezeSampleCount (sampling w)" and "g_freezeSampleCount (sampling w) \<le> n"
    and "samplerFuncs (sampling w)" and "pr_dir pr" and "pr_collect pr \<noteq> None"
  defines "w1 \<equiv> snd (StopSample pr n w)"
  shows "fst (StopSample pr n w) = currentFile (sampleFreezeInfo (sampling w)) \<and>
    freezeFile (sampleFreezeInfo (sampling w1)) = currentFile (sampleFreezeInfo (sampling w)) \<and>
    fst (StopSample pr' n w1) = [] \<and>
    fst (StopSample pr' n (snd (CheckCurrentTaskLocked pr'' (WatchdogTask_default\<lparr>task_name := FREEZE_SAMPLE\<rparr>) w1))) = []"
proof -
  let ?s = "sampling w"
  have s: "SaveFreezeStackToFile pr ?s = (currentFile (sampleFreezeInfo ?s), (ResetFreezeSampleFlags ?s)\<lparr>sampleFreezeInfo :=
      \<lparr>lastSaveTime = pr_tick pr, freezeFile = currentFile (sampleFreezeInfo ?s), currentFile = []\<rparr>\<rparr>)"
    using assms(3-5) by (auto simp: SaveFreezeStackToFile_def Let_def)
  have w1: "w1 = w\<lparr>sampling := (ResetFreezeSampleFlags ?s)\<lparr>sampleFreezeInfo :=
      \<lparr>lastSaveTime = pr_tick pr, freezeFile = currentFile (sampleFreezeInfo ?s), currentFile = []\<rparr>\<rparr>\<rparr>"
    and r: "fst (StopSample pr n w) = currentFile (sampleFreezeInfo ?s)"
    using assms(1,2) s by (simp_all add: w1_def StopSample_def Let_def)
  have again: "fst (StopSample pr' n v) = []"
    if "currentFile (sampleFreezeInfo (sampling v)) = []" "g_freezeSampleCount (sampling v) = g_freezeSampleCount ?s" for v
    using assms(1,2) that by (simp add: StopSample_def SaveFreezeStackToFile_def Let_def)
  have c: "g_freezeSampleCount (sampling w1) = g_freezeSampleCount ?s" "currentFile (sampleFreezeInfo (sampling w1)) = []"
    by (simp_all add: w1 ResetFreezeSampleFlags_def)
  have "sampleFreezeInfo (sampling (snd (CheckCurrentTaskLocked pr'' t w1))) = sampleFreezeInfo (sampling w1)"
    "g_freezeSampleCount (sampling (snd (CheckCurrentTaskLocked pr'' t w1))) = g_freezeSampleCount (sampling w1)" for t
    by (simp_all add: CheckCurrentTaskLocked_def deinit_if_def Deinit_def ResetThreadSamplerFuncs_def pop_queue_def erase_name_def
        upd_sampling_def Let_def split: prod.split bool.split)
  then show ?thesis using again [of w1] again c r w1 by simp
qed

end
