(* ===== verification/Binder_Info.thy ===== *)
theory Binder_Info
  imports Xcollie_Strings
begin

text \<open>
  The analysis of the binder transactions of the kernel (\<^verbatim>\<open>xcollie_utils.cpp\<close>): the parser of the
  transaction file, the processes that a blocked process waits for, the thread at the end of the
  chain of calls, the text that goes into an event, and the killing of the peer. The file contents
  are arguments. The map from a client process to its calls is the list of all calls in the order of
  the file; what it holds for a client is the sublist of that client.
\<close>

section \<open>The transaction file\<close>

record BinderInfo =
  clientPid :: int
  clientTid :: int
  serverPid :: int
  serverTid :: int
  bi_wait :: int

definition calls_of :: "BinderInfo list \<Rightarrow> int \<Rightarrow> BinderInfo list" where
  "calls_of manager pid = filter (\<lambda>b. clientPid b = pid) manager"

text \<open>\<^verbatim>\<open>asyncBinderMap[k]++\<close> on a map of 32-bit numbers, kept in the order of the keys.\<close>

fun bump :: "u32 \<Rightarrow> (u32 \<times> u32) list \<Rightarrow> (u32 \<times> u32) list" where
  "bump k [] = [(k, 1)]"
| "bump k ((x, n) # m) = (if k = x then (x, n + 1) # m else if k < x then (k, 1) # (x, n) # m else (x, n) # bump k m)"

record parsed =
  pa_manager :: "BinderInfo list"
  pa_async :: "(u32 \<times> u32) list"
  pa_free :: "(u32 \<times> u64) list"
  pa_matchup :: bool

definition ARR_SIZE :: nat where "ARR_SIZE = 7"
definition FREE_ASYNC_INDEX :: nat where "FREE_ASYNC_INDEX = 6"
definition FREE_ASYNC_MAX :: int where "FREE_ASYNC_MAX = 1000"

definition atoi :: "string \<Rightarrow> int" where "atoi s = strtol_int s"
definition atoll :: "string \<Rightarrow> int" where "atoll s = fst (strtoll s)"

abbreviation (input) async_tab :: string where "async_tab \<equiv> ''async'' @ [CHR 0x09]"

definition parse_binder_line :: "string \<Rightarrow> parsed \<Rightarrow> parsed" where
  "parse_binder_line line p0 =
     (let p = (if str_contains line ''context'' then p0\<lparr>pa_matchup := True\<rparr> else p0);
          strList = GetFileToList line in
      if pa_matchup p then
        (if \<not> str_contains line ''free_async_space'' \<and> length strList = ARR_SIZE \<and>
            atoll (strList ! FREE_ASYNC_INDEX) < FREE_ASYNC_MAX
         then p\<lparr>pa_free := pa_free p @
                [(word_of_int (atoi (strList ! 0)), word_of_int (atoll (strList ! FREE_ASYNC_INDEX)))]\<rparr>
         else p)
      else if str_contains line async_tab \<and> length strList > ARR_SIZE then
        (let serverPid = StrSplit (strList ! 3) 0; serverTid = StrSplit (strList ! 3) 1 in
         if serverPid \<noteq> [] \<and> serverTid \<noteq> [] \<and> atoi serverTid = 0
         then p\<lparr>pa_async := bump (word_of_int (atoi serverPid)) (pa_async p)\<rparr> else p)
      else if length strList \<ge> ARR_SIZE then
        (let cp = StrSplit (strList ! 0) 0; ct = StrSplit (strList ! 0) 1;
             sp = StrSplit (strList ! 2) 0; st = StrSplit (strList ! 2) 1; wt = StrSplit (strList ! 5) 1 in
         if cp = [] \<or> ct = [] \<or> sp = [] \<or> st = [] \<or> wt = [] then p
         else p\<lparr>pa_manager := pa_manager p @
                [\<lparr>clientPid = strtol_int cp, clientTid = strtol_int ct, serverPid = strtol_int sp,
                  serverTid = strtol_int st, bi_wait = strtol_int wt\<rparr>]\<rparr>)
      else p)"

definition parsed_init :: parsed where
  "parsed_init = \<lparr>pa_manager = [], pa_async = [], pa_free = [], pa_matchup = False\<rparr>"

definition BinderInfoLineParser :: "string \<Rightarrow> parsed" where
  "BinderInfoLineParser rawBinderInfo = fold parse_binder_line (cut_lines (CHR 0x0A) [] rawBinderInfo) parsed_init"

text \<open>
  \<^verbatim>\<open>std::sort\<close> leaves the order of equal keys open; the stable order is one of those it may produce.
\<close>

definition BinderInfoParser :: "string \<Rightarrow> BinderInfo list \<times> int set" where
  "BinderInfoParser rawBinderInfo =
     (let p = BinderInfoLineParser rawBinderInfo;
          free = sort_key snd (pa_free p);
          async = rev (sort_key snd (rev (pa_async p)))
      in (pa_manager p, set (map (\<lambda>x. to_int32 (uint (fst x))) (take 2 free)) \<union>
            set (map (\<lambda>x. to_int32 (uint (fst x))) (take 2 async))))"

section \<open>The chain of calls\<close>

record chain =
  ch_pids :: "int set"
  ch_pid :: int
  ch_tid :: int

definition is_terminal :: "int \<times> int \<Rightarrow> BinderInfo \<Rightarrow> chain \<Rightarrow> bool" where
  "is_terminal ev b c \<longleftrightarrow> clientPid b = fst ev \<and> clientTid b = snd ev \<or> clientPid b = ch_pid c \<and> clientTid b = ch_tid c"

text \<open>
  The loop of \<^verbatim>\<open>ParseBinderCallChain\<close> over the calls of one process; the recursive calls run it on
  the calls of the server.
\<close>

function chain_loop :: "BinderInfo list \<Rightarrow> int \<times> int \<Rightarrow> bool \<Rightarrow> BinderInfo list \<Rightarrow> chain \<Rightarrow> chain" where
  "chain_loop manager ev getTerminal [] c = c"
| "chain_loop manager ev getTerminal (b # bs) c =
     (if serverPid b \<in> ch_pids c then chain_loop manager ev getTerminal bs c
      else
        let c1 = c\<lparr>ch_pids := insert (serverPid b) (ch_pids c)\<rparr>;
            c2 = (if getTerminal \<and> is_terminal ev b c1
                  then chain_loop manager ev True (calls_of manager (serverPid b))
                         (c1\<lparr>ch_pid := serverPid b, ch_tid := serverTid b\<rparr>)
                  else c1);
            c3 = chain_loop manager ev False (calls_of manager (serverPid b)) c2
        in chain_loop manager ev getTerminal bs c3)"
  by pat_completeness auto

lemma chain_loop_grows:
  "chain_loop_dom (manager, ev, g, bs, c) \<Longrightarrow> ch_pids c \<subseteq> ch_pids (chain_loop manager ev g bs c)"
proof (induction manager ev g bs c rule: chain_loop.pinduct)
  case (2 manager ev g b bs c)
  let ?c1 = "c\<lparr>ch_pids := insert (serverPid b) (ch_pids c)\<rparr>"
  let ?c2 = "if g \<and> is_terminal ev b ?c1
     then chain_loop manager ev True (calls_of manager (serverPid b)) (?c1\<lparr>ch_pid := serverPid b, ch_tid := serverTid b\<rparr>)
     else ?c1"
  let ?c3 = "chain_loop manager ev False (calls_of manager (serverPid b)) ?c2"
  show ?case
  proof (cases "serverPid b \<in> ch_pids c")
    case True
    then show ?thesis using 2 by (simp add: chain_loop.psimps)
  next
    case False
    have "ch_pids c \<subseteq> ch_pids ?c2" using "2.IH"(2) [OF False refl] by auto
    also have "\<dots> \<subseteq> ch_pids ?c3" using "2.IH"(3) [OF False refl refl] by blast
    also have "\<dots> \<subseteq> ch_pids (chain_loop manager ev g bs ?c3)" using "2.IH"(4) [OF False refl refl refl] by blast
    finally show ?thesis using 2(1) False by (simp add: chain_loop.psimps Let_def)
  qed
qed (simp add: chain_loop.psimps)

text \<open>Every call into a server adds its process to a finite set: the search ends.\<close>

definition servers :: "BinderInfo list \<Rightarrow> int set" where
  "servers bs = serverPid ` set bs"

lemma servers_calls_of: "servers (calls_of m p) \<subseteq> servers m"
  by (auto simp: servers_def calls_of_def)

lemma servers_Cons [simp]: "servers (b # bs) = insert (serverPid b) (servers bs)" "servers [] = {}"
  by (simp_all add: servers_def)

lemma finite_servers [simp]: "finite (servers bs)"
  by (simp add: servers_def)

definition open_servers :: "BinderInfo list \<Rightarrow> BinderInfo list \<Rightarrow> chain \<Rightarrow> int set" where
  "open_servers m bs c = (servers m \<union> servers bs) - ch_pids c"

lemma open_servers_less:
  assumes "serverPid b \<notin> ch_pids c" and "insert (serverPid b) (ch_pids c) \<subseteq> ch_pids d"
  shows "card (open_servers m (calls_of m p) d) < card (open_servers m (b # bs) c)"
proof (rule psubset_card_mono)
  show "open_servers m (calls_of m p) d \<subset> open_servers m (b # bs) c"
    using assms servers_calls_of [of m p] by (auto simp: open_servers_def)
qed (simp add: open_servers_def)

lemma open_servers_le:
  assumes "ch_pids c \<subseteq> ch_pids d"
  shows "card (open_servers m bs d) \<le> card (open_servers m (b # bs) c)"
  by (rule card_mono) (use assms in \<open>auto simp: open_servers_def\<close>)

termination chain_loop
proof (relation "measures [\<lambda>(m, ev, g, bs, c). card (open_servers m bs c), \<lambda>(m, ev, g, bs, c). length bs]", goal_cases)
  case (2 manager ev g b bs c)
  then show ?case using open_servers_le [of c c manager bs b] by auto
next
  case (3 manager ev g b bs c c1)
  then show ?case using open_servers_less [of b c "c1\<lparr>ch_pid := serverPid b, ch_tid := serverTid b\<rparr>"] by simp
next
  case (4 manager ev g b bs c c1 c2)
  have "insert (serverPid b) (ch_pids c) \<subseteq> ch_pids c2"
    using 4 by (auto dest!: chain_loop_grows split: if_splits)
  then show ?case using 4(1) by (simp add: open_servers_less)
next
  case (5 manager ev g b bs c c1 c2 c3)
  have "ch_pids c \<subseteq> ch_pids c3"
    using 5 by (auto dest!: chain_loop_grows split: if_splits)
  then show ?case using open_servers_le [of c c3 manager bs b] by auto
qed simp

definition ParseBinderCallChain :: "BinderInfo list \<Rightarrow> int \<Rightarrow> int \<times> int \<Rightarrow> bool \<Rightarrow> chain \<Rightarrow> chain" where
  "ParseBinderCallChain manager pid ev getTerminal c = chain_loop manager ev getTerminal (calls_of manager pid) c"

text \<open>\<open>file\<close> is the content of the transaction file, if it could be read.\<close>

definition GetBinderPeerPids :: "string option \<Rightarrow> int \<Rightarrow> int \<Rightarrow> string \<times> int set \<times> chain" where
  "GetBinderPeerPids file pid tid =
     (let c0 = \<lparr>ch_pids = {}, ch_pid = - 1, ch_tid = - 1\<rparr> in
      case file of
        None \<Rightarrow> ([], {}, c0)
      | Some raw \<Rightarrow>
          (case BinderInfoParser raw of (manager, asyncPids) \<Rightarrow>
             if pid \<le> 0 \<or> calls_of manager pid = [] then (raw, asyncPids, c0)
             else (raw, asyncPids, ParseBinderCallChain manager pid (pid, if tid > 0 then tid else pid) True c0)))"

fun join :: "string \<Rightarrow> string list \<Rightarrow> string" where
  "join sep [] = []"
| "join sep [x] = x"
| "join sep (x # y # ys) = x @ sep @ join sep (y # ys)"

definition GetBinderInfoString :: "bool \<Rightarrow> (int \<Rightarrow> string) \<Rightarrow> string option \<Rightarrow> int \<Rightarrow> int \<Rightarrow> string \<times> string" where
  "GetBinderInfoString oversea procName file pid tid =
     (if oversea then ([], [])
      else case GetBinderPeerPids file pid tid of (raw, asyncPids, c) \<Rightarrow>
        if ch_pids c = {} \<and> asyncPids = {} \<and> ch_pid c \<le> 0 then ([], raw)
        else
          let b1 = (if ch_pids c = {} then []
                    else ''syncPids:'' @ join '';'' (map (\<lambda>p. show_int p @ ''('' @ procName p @ '')'') (sorted_list_of_set (ch_pids c))));
              b2 = (if asyncPids = {} then b1
                    else b1 @ (if b1 = [] then [] else '' '') @ ''asyncPids:'' @ join '','' (map show_int (sorted_list_of_set asyncPids)));
              b3 = (if ch_pid c \<le> 0 then b2
                    else b2 @ (if b2 = [] then [] else '' '') @ ''terminalBinder:'' @ show_int (ch_pid c) @ '','' @ show_int (ch_tid c))
          in (b3, raw))"

section \<open>Killing the peer\<close>

definition MIN_WAIT_NUM :: int where "MIN_WAIT_NUM = 3"
definition INIT_PID :: int where "INIT_PID = 1"
definition APP_MIN_UID :: int where "APP_MIN_UID = 20000"
definition UID_PREFIX_LEN :: nat where "UID_PREFIX_LEN = 4"

definition splitPhase :: "string \<Rightarrow> nat \<Rightarrow> string" where
  "splitPhase str index =
     (let strings = SplitStr str '':'' False True in if index < length strings then strings ! index else [])"

fun peer_scan :: "int \<Rightarrow> bool \<Rightarrow> string list \<Rightarrow> int" where
  "peer_scan pid isBinderMatchup [] = - 1"
| "peer_scan pid isBinderMatchup (line # ls) =
     (if isBinderMatchup then - 1
      else if str_contains line async_tab then peer_scan pid isBinderMatchup ls
      else
        let strList = GetFileToList line in
        if length strList \<ge> 7 then
          (let server = splitPhase (strList ! 2) 0; client = splitPhase (strList ! 0) 0; wait = splitPhase (strList ! 5) 1 in
           if server = [] \<or> client = [] \<or> wait = [] then peer_scan pid isBinderMatchup ls
           else if strtol_int client \<noteq> pid \<or> strtol_int wait < MIN_WAIT_NUM then peer_scan pid isBinderMatchup ls
           else strtol_int server)
        else peer_scan pid (str_contains line ''context'') ls)"

definition ParsePeerBinderPid :: "string \<Rightarrow> int \<Rightarrow> int" where
  "ParsePeerBinderPid rawBinderInfo pid = peer_scan pid False (cut_lines (CHR 0x0A) [] rawBinderInfo)"

fun uid_scan :: "string list \<Rightarrow> int" where
  "uid_scan [] = - 1"
| "uid_scan (line # ls) =
     (if take UID_PREFIX_LEN line \<noteq> ''Uid:'' then uid_scan ls
      else case str_find line '':'' UID_PREFIX_LEN of
          Some colonPos \<Rightarrow> strtol_int (drop (colonPos + 1) line)
        | None \<Rightarrow> - 1)"

text \<open>\<open>status p\<close> is the status file of the process \<open>p\<close>, if it could be read.\<close>

definition GetUidByPid :: "(int \<Rightarrow> string option) \<Rightarrow> int \<Rightarrow> int" where
  "GetUidByPid status pid = (case status pid of None \<Rightarrow> - 1 | Some content \<Rightarrow> uid_scan (cut_lines (CHR 0x0A) [] content))"

text \<open>The process that gets the signal, if one does, and the result; \<open>killed p\<close> is the result of \<^verbatim>\<open>kill\<close>.\<close>

definition KillProcessByPid ::
  "string option \<Rightarrow> (int \<Rightarrow> string option) \<Rightarrow> (int \<Rightarrow> int) \<Rightarrow> int \<Rightarrow> int option \<times> bool" where
  "KillProcessByPid file status killed pid =
     (case file of
        None \<Rightarrow> (None, False)
      | Some raw \<Rightarrow>
          let peer = ParsePeerBinderPid raw pid in
          if peer \<le> INIT_PID \<or> peer = pid then (None, False)
          else if GetUidByPid status peer < APP_MIN_UID then (None, False)
          else (Some peer, killed peer \<ge> 0))"

section \<open>What the search finds\<close>

definition edges :: "BinderInfo list \<Rightarrow> (int \<times> int) set" where
  "edges m = (\<lambda>b. (clientPid b, serverPid b)) ` set m"

definition visit :: "BinderInfo \<Rightarrow> chain \<Rightarrow> chain" where
  "visit b c = c\<lparr>ch_pids := insert (serverPid b) (ch_pids c)\<rparr>"

definition advance :: "BinderInfo \<Rightarrow> chain \<Rightarrow> chain" where
  "advance b c = (visit b c)\<lparr>ch_pid := serverPid b, ch_tid := serverTid b\<rparr>"

lemma visit_sel [simp]:
  "ch_pids (visit b c) = insert (serverPid b) (ch_pids c)" "ch_pid (visit b c) = ch_pid c" "ch_tid (visit b c) = ch_tid c"
  "ch_pids (advance b c) = insert (serverPid b) (ch_pids c)" "ch_pid (advance b c) = serverPid b"
  "ch_tid (advance b c) = serverTid b"
  by (simp_all add: visit_def advance_def)

text \<open>A proof rule for the search: a relation between the states before and after its loop.\<close>

lemma chain_rule [case_names empty skip visit]:
  assumes "\<And>g c. P g [] c c"
    and "\<And>g b bs c c'. serverPid b \<in> ch_pids c \<Longrightarrow> P g bs c c' \<Longrightarrow> P g (b # bs) c c'"
    and "\<And>g b bs c c2 c3 c4. serverPid b \<notin> ch_pids c \<Longrightarrow>
      c2 = visit b c \<or> g \<and> is_terminal ev b c \<and> P True (calls_of m (serverPid b)) (advance b c) c2 \<Longrightarrow>
      P False (calls_of m (serverPid b)) c2 c3 \<Longrightarrow> P g bs c3 c4 \<Longrightarrow> P g (b # bs) c c4"
  shows "P g bs c (chain_loop m ev g bs c)"
  using assms
proof (induction m ev g bs c rule: chain_loop.induct)
  case (1 m ev g c)
  then show ?case by simp
next
  case (2 m ev g b bs c)
  let ?L = "\<lambda>g bs c. chain_loop m ev g bs c"
  note rules = "2.prems"
  show ?case
  proof (cases "serverPid b \<in> ch_pids c")
    case True
    then show ?thesis using "2.IH"(1) [OF True rules] rules(2) by simp
  next
    case False
    define c2 where "c2 = (if g \<and> is_terminal ev b (visit b c)
      then ?L True (calls_of m (serverPid b)) (advance b c) else visit b c)"
    have eq: "?L g (b # bs) c = ?L g bs (?L False (calls_of m (serverPid b)) c2)"
      using False by (simp add: c2_def Let_def visit_def advance_def)
    have t: "is_terminal ev b (visit b c) = is_terminal ev b c" by (simp add: is_terminal_def)
    have "c2 = visit b c \<or> g \<and> is_terminal ev b c \<and> P True (calls_of m (serverPid b)) (advance b c) c2"
    proof (cases "g \<and> is_terminal ev b c")
      case yes: True
      then show ?thesis
        using "2.IH"(2) [OF False refl _ rules] t by (simp add: c2_def visit_def advance_def)
    qed (auto simp: c2_def t)
    moreover have "P False (calls_of m (serverPid b)) c2 (?L False (calls_of m (serverPid b)) c2)"
      by (rule "2.IH"(3) [OF False refl _ rules]) (simp_all add: c2_def visit_def advance_def)
    moreover have "P g bs (?L False (calls_of m (serverPid b)) c2) (?L g (b # bs) c)"
      unfolding eq by (rule "2.IH"(4) [OF False refl _ refl rules]) (simp_all add: c2_def visit_def advance_def)
    ultimately show ?thesis by (rule rules(3) [OF False])
  qed
qed

text \<open>The servers in the list, and those reached from what the search adds, end up in the set.\<close>

definition finds :: "BinderInfo list \<Rightarrow> BinderInfo list \<Rightarrow> int set \<Rightarrow> int set \<Rightarrow> bool" where
  "finds m bs X Y \<longleftrightarrow> X \<subseteq> Y \<and> servers bs \<subseteq> Y \<and> (\<forall>n \<in> Y - X. servers (calls_of m n) \<subseteq> Y)"

lemma finds_visit:
  assumes "s \<notin> X" and "finds m [] (insert s X) A"
    and "finds m (calls_of m s) A B" and "finds m bs B Y" and "serverPid b = s"
  shows "finds m (b # bs) X Y"
proof -
  have le: "insert s X \<subseteq> A" "A \<subseteq> B" "B \<subseteq> Y" using assms(2-4) by (simp_all add: finds_def)
  have "servers (calls_of m n) \<subseteq> Y" if n: "n \<in> Y - X" for n
  proof -
    consider "n = s" | "n \<in> A - insert s X" | "n \<in> B - A" | "n \<in> Y - B" using n by blast
    then show ?thesis
    proof cases
      case 1
      then have "servers (calls_of m n) \<subseteq> B" using assms(3) by (simp add: finds_def)
      then show ?thesis using le(3) by (rule subset_trans)
    next
      case 2
      then have "servers (calls_of m n) \<subseteq> A" using assms(2) by (simp add: finds_def)
      then show ?thesis using subset_trans [OF le(2,3)] by (rule subset_trans)
    next
      case 3
      then have "servers (calls_of m n) \<subseteq> B" using assms(3) by (simp add: finds_def)
      then show ?thesis using le(3) by (rule subset_trans)
    next
      case 4
      then show ?thesis using assms(4) by (simp add: finds_def)
    qed
  qed
  moreover have "servers (b # bs) \<subseteq> Y" "X \<subseteq> Y" using le assms(4,5) by (auto simp: finds_def)
  ultimately show ?thesis by (simp add: finds_def)
qed

lemma chain_loop_finds: "finds m bs (ch_pids c) (ch_pids (chain_loop m ev g bs c))"
proof (rule chain_rule [where P = "\<lambda>g bs c c'. finds m bs (ch_pids c) (ch_pids c')"])
  fix g and b :: BinderInfo and bs c c2 c3 c4
  assume "serverPid b \<notin> ch_pids c"
    and c2: "c2 = visit b c \<or> g \<and> is_terminal ev b c \<and> finds m (calls_of m (serverPid b)) (ch_pids (advance b c)) (ch_pids c2)"
    and "finds m (calls_of m (serverPid b)) (ch_pids c2) (ch_pids c3)" "finds m bs (ch_pids c3) (ch_pids c4)"
  moreover have "finds m [] (insert (serverPid b) (ch_pids c)) (ch_pids c2)"
    using c2 by (elim disjE conjE) (simp_all add: finds_def)
  ultimately show "finds m (b # bs) (ch_pids c) (ch_pids c4)" by (intro finds_visit) auto
next
  fix g and b :: BinderInfo and bs c c'
  assume "serverPid b \<in> ch_pids c" and "finds m bs (ch_pids c) (ch_pids c')"
  then show "finds m (b # bs) (ch_pids c) (ch_pids c')" by (simp add: finds_def subset_iff)
qed (simp add: finds_def)

lemma servers_calls_edges: "servers (calls_of m n) = edges m `` {n}"
  by (auto simp: servers_def calls_of_def edges_def)

lemma subset_visits:
  "C2 \<subseteq> insert s C \<union> S \<Longrightarrow> s \<in> R \<Longrightarrow> C3 \<subseteq> C2 \<union> S \<Longrightarrow> S \<subseteq> R \<Longrightarrow> C4 \<subseteq> C3 \<union> T \<Longrightarrow> C4 \<subseteq> C \<union> (R \<union> T)"
  by blast

lemma chain_loop_sound: "ch_pids (chain_loop m ev g bs c) \<subseteq> ch_pids c \<union> (edges m)\<^sup>* `` servers bs"
proof (rule chain_rule [where P = "\<lambda>g bs c c'. ch_pids c' \<subseteq> ch_pids c \<union> (edges m)\<^sup>* `` servers bs"])
  fix g and b :: BinderInfo and bs c c2 c3 c4
  let ?s = "serverPid b"
  let ?R = "(edges m)\<^sup>* `` {?s}"
  let ?S = "(edges m)\<^sup>* `` servers (calls_of m ?s)"
  assume c2: "c2 = visit b c \<or> g \<and> is_terminal ev b c \<and> ch_pids c2 \<subseteq> ch_pids (advance b c) \<union> ?S"
    and c3: "ch_pids c3 \<subseteq> ch_pids c2 \<union> ?S" and c4: "ch_pids c4 \<subseteq> ch_pids c3 \<union> (edges m)\<^sup>* `` servers bs"
  have S: "?S \<subseteq> ?R"
    by (auto simp: servers_calls_edges intro: converse_rtrancl_into_rtrancl)
  have s: "?s \<in> ?R" by simp
  have "ch_pids c2 \<subseteq> insert ?s (ch_pids c) \<union> ?S" using c2 by (elim disjE conjE) (simp_all add: subset_insertI2)
  from subset_visits [OF this s c3 S c4]
  show "ch_pids c4 \<subseteq> ch_pids c \<union> (edges m)\<^sup>* `` servers (b # bs)"
    by (metis Image_Un insert_is_Un servers_Cons(1))
qed auto

text \<open>Threads that wait for each other, from the blocked one.\<close>

inductive on_chain :: "BinderInfo list \<Rightarrow> int \<times> int \<Rightarrow> int \<times> int \<Rightarrow> bool" for m ev where
  first: "b \<in> set m \<Longrightarrow> (clientPid b, clientTid b) = ev \<Longrightarrow> on_chain m ev (serverPid b, serverTid b)"
| further: "on_chain m ev (clientPid b, clientTid b) \<Longrightarrow> b \<in> set m \<Longrightarrow> on_chain m ev (serverPid b, serverTid b)"

lemma chain_loop_terminal:
  assumes "set bs \<subseteq> set m" and "(ch_pid c, ch_tid c) = (- 1, - 1) \<or> on_chain m ev (ch_pid c, ch_tid c)"
    and "\<forall>b \<in> set m. clientPid b \<noteq> - 1 \<or> clientTid b \<noteq> - 1"
  shows "(ch_pid (chain_loop m ev g bs c), ch_tid (chain_loop m ev g bs c)) = (- 1, - 1) \<or>
    on_chain m ev (ch_pid (chain_loop m ev g bs c), ch_tid (chain_loop m ev g bs c))"
proof -
  let ?ok = "\<lambda>c. (ch_pid c, ch_tid c) = (- 1, - 1) \<or> on_chain m ev (ch_pid c, ch_tid c)"
  have "set bs \<subseteq> set m \<longrightarrow> ?ok c \<longrightarrow> ?ok (chain_loop m ev g bs c)"
  proof (rule chain_rule [where P = "\<lambda>g bs c c'. set bs \<subseteq> set m \<longrightarrow> ?ok c \<longrightarrow> ?ok c'"])
    fix g and b :: BinderInfo and bs c c2 c3 c4
    assume c2: "c2 = visit b c \<or> g \<and> is_terminal ev b c \<and>
        (set (calls_of m (serverPid b)) \<subseteq> set m \<longrightarrow> ?ok (advance b c) \<longrightarrow> ?ok c2)"
      and c3: "set (calls_of m (serverPid b)) \<subseteq> set m \<longrightarrow> ?ok c2 \<longrightarrow> ?ok c3"
      and c4: "set bs \<subseteq> set m \<longrightarrow> ?ok c3 \<longrightarrow> ?ok c4"
    have sub: "set (calls_of m (serverPid b)) \<subseteq> set m" by (auto simp: calls_of_def)
    have "?ok (advance b c)" if "is_terminal ev b c" "b \<in> set m" "?ok c"
    proof -
      have "on_chain m ev (serverPid b, serverTid b)"
        using that assms(3) by (auto simp: is_terminal_def prod_eq_iff intro: on_chain.first on_chain.further)
      then show ?thesis by simp
    qed
    with c2 c3 c4 sub show "set (b # bs) \<subseteq> set m \<longrightarrow> ?ok c \<longrightarrow> ?ok c4" by auto
  qed auto
  with assms show ?thesis by blast
qed

lemma parse_chain_pids:
  assumes "ch_pids c = {}"
  shows "ch_pids (ParseBinderCallChain m pid ev g c) = (edges m)\<^sup>+ `` {pid}"
proof
  let ?Y = "ch_pids (chain_loop m ev g (calls_of m pid) c)"
  have "finds m (calls_of m pid) {} ?Y" using chain_loop_finds [of m "calls_of m pid" c ev g] assms by simp
  then have Y: "edges m `` {pid} \<subseteq> ?Y" "\<And>n. n \<in> ?Y \<Longrightarrow> edges m `` {n} \<subseteq> ?Y"
    by (simp_all add: finds_def servers_calls_edges)
  have "n \<in> ?Y" if "(pid, n) \<in> (edges m)\<^sup>+" for n
    using that by (induction rule: trancl_induct) (use Y in auto)
  then show "(edges m)\<^sup>+ `` {pid} \<subseteq> ch_pids (ParseBinderCallChain m pid ev g c)"
    by (auto simp: ParseBinderCallChain_def)
  show "ch_pids (ParseBinderCallChain m pid ev g c) \<subseteq> (edges m)\<^sup>+ `` {pid}"
    using chain_loop_sound [of m ev g "calls_of m pid" c] assms
    by (auto simp: ParseBinderCallChain_def servers_calls_edges intro: rtrancl_into_trancl2)
qed

lemma no_call_no_reach: "calls_of m pid = [] \<Longrightarrow> (edges m)\<^sup>+ `` {pid} = {}"
  by (auto simp: calls_of_def edges_def filter_empty_conv dest: tranclD)

text \<open>
  C10. The processes reported for a blocked process are exactly those it waits for, directly or
  through other processes, in the transactions of the file, whatever cycles the calls form, and the
  thread reported as the last one of the chain, if there is one, is reached by following calls from
  thread to thread from the blocked thread (the process's main thread if none is given).
\<close>

theorem binder_peers_exact:
  assumes "0 < pid" and "GetBinderPeerPids (Some raw) pid tid = (out, async, c)"
    and "\<forall>b \<in> set (fst (BinderInfoParser raw)). clientPid b \<noteq> - 1 \<or> clientTid b \<noteq> - 1"
  shows "ch_pids c = (edges (fst (BinderInfoParser raw)))\<^sup>+ `` {pid} \<and>
    ((ch_pid c, ch_tid c) = (- 1, - 1) \<or>
     on_chain (fst (BinderInfoParser raw)) (pid, if tid > 0 then tid else pid) (ch_pid c, ch_tid c))"
proof -
  obtain m a where m: "BinderInfoParser raw = (m, a)" by force
  define ev where "ev = (pid, if tid > 0 then tid else pid)"
  define c0 where "c0 = \<lparr>ch_pids = {}, ch_pid = - 1, ch_tid = - 1 :: int\<rparr>"
  note ids = ev_def [symmetric] c0_def [symmetric]
  show ?thesis
  proof (cases "calls_of m pid = []")
    case True
    then show ?thesis using assms m no_call_no_reach [OF True] by (auto simp: GetBinderPeerPids_def)
  next
    case False
    then have c: "c = chain_loop m ev True (calls_of m pid) c0"
      using assms m by (simp add: GetBinderPeerPids_def ParseBinderCallChain_def Let_def ids)
    moreover have "ch_pids (chain_loop m ev True (calls_of m pid) c0) = (edges m)\<^sup>+ `` {pid}"
      using parse_chain_pids [of c0 m pid ev True] by (simp add: c0_def ParseBinderCallChain_def)
    moreover have "(ch_pid c, ch_tid c) = (- 1, - 1) \<or> on_chain m ev (ch_pid c, ch_tid c)"
      unfolding c by (rule chain_loop_terminal) (use assms(3) m in \<open>auto simp: c0_def calls_of_def\<close>)
    ultimately show ?thesis by (simp only: m fst_conv ids)
  qed
qed

text \<open>Four lines in the format of the file: a cycle of two processes, and a third one behind it.\<close>

definition transactions :: string where
  "transactions = ''10:11 to 20:21 code 9 wait:4 s'' @ [CHR 0x0A] @ ''20:21 to 30:31 code 9 wait:5 s'' @ [CHR 0x0A] @
     ''30:31 to 10:11 code 9 wait:1 s'' @ [CHR 0x0A] @ ''40:41 to 10:12 code 9 wait:8 s'' @ [CHR 0x0A]"


lemma transactions_parsed:
  "BinderInfoParser transactions =
     ([\<lparr>clientPid = 10, clientTid = 11, serverPid = 20, serverTid = 21, bi_wait = 4\<rparr>,
       \<lparr>clientPid = 20, clientTid = 21, serverPid = 30, serverTid = 31, bi_wait = 5\<rparr>,
       \<lparr>clientPid = 30, clientTid = 31, serverPid = 10, serverTid = 11, bi_wait = 1\<rparr>,
       \<lparr>clientPid = 40, clientTid = 41, serverPid = 10, serverTid = 12, bi_wait = 8\<rparr>], {})"
  by code_simp

lemma transactions_peers:
  "GetBinderPeerPids (Some transactions) 10 11 = (transactions, {}, \<lparr>ch_pids = {10, 20, 30}, ch_pid = 10, ch_tid = 11\<rparr>)"
  "\<forall>b \<in> set (fst (BinderInfoParser transactions)). clientPid b \<noteq> - 1 \<or> clientTid b \<noteq> - 1"
  by (auto simp: GetBinderPeerPids_def ParseBinderCallChain_def transactions_parsed calls_of_def is_terminal_def Let_def)

theorem binder_peers_exact_witness:
  "(edges (fst (BinderInfoParser transactions)))\<^sup>+ `` {10} = {10, 20, 30} \<and>
   on_chain (fst (BinderInfoParser transactions)) (10, 11) (10, 11)"
  using binder_peers_exact [OF _ transactions_peers(1,2)] by simp

definition waits_for :: "int \<Rightarrow> int \<Rightarrow> string \<Rightarrow> bool" where
  "waits_for pid peer line \<longleftrightarrow> (let strList = GetFileToList line in length strList \<ge> 7 \<and>
     strtol_int (splitPhase (strList ! 0) 0) = pid \<and> strtol_int (splitPhase (strList ! 2) 0) = peer \<and>
     MIN_WAIT_NUM \<le> strtol_int (splitPhase (strList ! 5) 1))"

lemma peer_scan_waits: "peer_scan pid b ls = peer \<Longrightarrow> peer \<noteq> - 1 \<Longrightarrow> \<exists>line \<in> set ls. waits_for pid peer line"
  by (induction pid b ls rule: peer_scan.induct) (auto simp: Let_def waits_for_def split: if_splits)

definition single_colon :: "string \<Rightarrow> bool" where
  "single_colon content \<longleftrightarrow>
     (\<forall>line \<in> set (cut_lines (CHR 0x0A) [] content). take UID_PREFIX_LEN line = ''Uid:'' \<longrightarrow>
        CHR '':'' \<notin> set (drop UID_PREFIX_LEN line))"

lemma uid_lines_single:
  assumes "\<forall>line \<in> set ls. take UID_PREFIX_LEN line = ''Uid:'' \<longrightarrow> CHR '':'' \<notin> set (drop UID_PREFIX_LEN line)"
  shows "uid_scan ls = - 1"
  using assms
proof (induction ls rule: uid_scan.induct)
  case (2 line ls)
  have "str_find line '':'' UID_PREFIX_LEN = None" if "take UID_PREFIX_LEN line = ''Uid:''"
  proof -
    have "UID_PREFIX_LEN \<le> length line" using arg_cong [OF that, of length] by (simp add: UID_PREFIX_LEN_def)
    then show ?thesis using 2(2) that by (simp add: str_find_char_None)
  qed
  then show ?case using 2 by auto
qed simp

lemma no_kill_single_colon:
  assumes "\<forall>p content. status p = Some content \<longrightarrow> single_colon content"
  shows "KillProcessByPid file status killed pid = (None, False)"
proof -
  have "GetUidByPid status p = - 1" for p
    using assms by (auto simp: GetUidByPid_def single_colon_def intro!: uid_lines_single split: option.splits)
  then show ?thesis by (simp add: KillProcessByPid_def APP_MIN_UID_def Let_def split: option.splits)
qed

text \<open>
  The peer is killed only if the file shows a call of the process to it that has waited for at
  least three seconds, and it is neither the process itself nor the first process nor below the
  user range of applications; and as long as the \<^verbatim>\<open>Uid\<close> line of the status file has the single colon
  that the kernel writes, no process is ever killed: the code looks for a second colon.
\<close>

theorem peer_kill_guard:
  "(fst (KillProcessByPid file status killed pid) = Some peer \<longrightarrow>
      (\<exists>raw. file = Some raw \<and> (\<exists>line \<in> set (cut_lines (CHR 0x0A) [] raw). waits_for pid peer line)) \<and>
      1 < peer \<and> peer \<noteq> pid \<and> 20000 \<le> GetUidByPid status peer) \<and>
   ((\<forall>p content. status p = Some content \<longrightarrow> single_colon content) \<longrightarrow>
      KillProcessByPid file status killed pid = (None, False))"
proof (intro conjI impI)
  assume "fst (KillProcessByPid file status killed pid) = Some peer"
  then obtain raw where raw: "file = Some raw" "peer = ParsePeerBinderPid raw pid" "INIT_PID < peer" "peer \<noteq> pid"
      "APP_MIN_UID \<le> GetUidByPid status peer"
    by (auto simp: KillProcessByPid_def Let_def not_le not_less split: option.splits if_splits)
  then have "\<exists>line \<in> set (cut_lines (CHR 0x0A) [] raw). waits_for pid peer line"
    by (intro peer_scan_waits [of _ False]) (auto simp: ParsePeerBinderPid_def INIT_PID_def)
  with raw show "\<exists>raw. file = Some raw \<and> (\<exists>line \<in> set (cut_lines (CHR 0x0A) [] raw). waits_for pid peer line)"
    "1 < peer" "peer \<noteq> pid" "20000 \<le> GetUidByPid status peer"
    by (simp_all add: INIT_PID_def APP_MIN_UID_def)
next
  assume "\<forall>p content. status p = Some content \<longrightarrow> single_colon content"
  then show "KillProcessByPid file status killed pid = (None, False)" by (rule no_kill_single_colon)
qed

definition status_of_app :: string where
  "status_of_app = ''Name:'' @ [CHR 0x09] @ ''app'' @ [CHR 0x0A] @ ''Uid:'' @ [CHR 0x09] @ ''20010043'' @ [CHR 0x0A]"

lemma status_of_app_single: "single_colon status_of_app" "ParsePeerBinderPid transactions 10 = 20"
  by code_simp+

text \<open>
  The first process waits for process 20 for four seconds, whose user is an application, and still
  nothing is killed; with a second colon in the \<^verbatim>\<open>Uid\<close> line it would be.
\<close>

theorem peer_kill_guard_witness:
  "KillProcessByPid (Some transactions) (\<lambda>_. Some status_of_app) (\<lambda>_. 0) 10 = (None, False) \<and>
   (\<exists>line \<in> set (cut_lines (CHR 0x0A) [] transactions). waits_for 10 20 line)"
proof -
  have two: "fst (KillProcessByPid (Some transactions) (\<lambda>_. Some ''Uid: :20010043'') (\<lambda>_. 0) 10) = Some 20"
  proof -
    have "uid_scan (cut_lines (CHR 0x0A) [] ''Uid: :20010043'') = 20010043"
      by (simp add: UID_PREFIX_LEN_def str_find_def strtol_int_def strtoll_def strto_parse_def to_int32_def isspace_def isdigit_def
        digit_val_def Let_def)
    then have "GetUidByPid (\<lambda>_. Some ''Uid: :20010043'') 20 = 20010043" unfolding GetUidByPid_def by (simp only: option.case)
    then show ?thesis by (simp add: KillProcessByPid_def status_of_app_single INIT_PID_def APP_MIN_UID_def)
  qed
  have "\<forall>p content. Some status_of_app = Some content \<longrightarrow> single_colon content"
    using status_of_app_single(1) by simp
  from conjunct2 [OF peer_kill_guard, THEN mp, OF this] conjunct1 [OF peer_kill_guard, THEN mp, OF two]
  show ?thesis by (intro conjI) (blast, metis option.inject)
qed

end
