(* ===== verification/Process_Files.thy ===== *)
theory Process_Files
  imports Binder_Info
begin

text \<open>
  What the watchdog reads and writes around a process (\<^verbatim>\<open>xcollie_utils.cpp\<close>): the start time of a thread from
  its status line, the switches read from system parameters, and the directory of freeze logs that
  is kept below a size. Files, parameters and the listing of directories are arguments.
\<close>

section \<open>Start time\<close>

record start_cache =
  sc_startTime :: int
  sc_lastTid :: int

definition start_cache_init :: start_cache where "start_cache_init = \<lparr>sc_startTime = - 1, sc_lastTid = - 1\<rparr>"

definition START_TIME_INDEX :: nat where "START_TIME_INDEX = 21"
definition DEFAULT_CLOCK_TICKS :: int where "DEFAULT_CLOCK_TICKS = 100"

text \<open>\<open>stat\<close> is the content of the status line, \<^term>\<open>None\<close> if the path cannot be resolved.\<close>

definition GetAppStartTime :: "string option \<Rightarrow> int \<Rightarrow> start_cache \<Rightarrow> std_exception + int \<times> start_cache" where
  "GetAppStartTime stat tid g =
     (if sc_startTime g > 0 \<and> sc_lastTid g = tid then Inr (sc_startTime g, g)
      else case stat of
          None \<Rightarrow> Inr (sc_startTime g, g)
        | Some content0 \<Rightarrow>
            if content0 = [] then Inr (sc_startTime g, g)
            else let strings = SplitStr content0 '' '' False True in
              if length strings \<le> START_TIME_INDEX then Inr (sc_startTime g, g)
              else let content = strings ! START_TIME_INDEX in
                if \<not> IsNum content then Inr (sc_startTime g, g)
                else (case stoll content of
                    Inl ex \<Rightarrow> Inl ex
                  | Inr v \<Rightarrow> Inr (v, g\<lparr>sc_startTime := v, sc_lastTid := to_int32 tid\<rparr>)))"

definition GetProcessLifeTime :: "int \<Rightarrow> string option \<Rightarrow> int \<Rightarrow> start_cache \<Rightarrow> std_exception + int \<times> start_cache" where
  "GetProcessLifeTime sysTicks stat tid g =
     (let clockTicks = (if sysTicks \<le> 0 then DEFAULT_CLOCK_TICKS else sysTicks) in
      case GetAppStartTime stat tid g of
        Inl ex \<Rightarrow> Inl ex
      | Inr (startTime, g') \<Rightarrow> if startTime \<le> 0 then Inr (startTime, g') else Inr (startTime div clockTicks, g'))"

section \<open>Switches\<close>

text \<open>
  A parameter that is read once and kept: \<open>cached\<close> is the static string, \<open>param\<close> what the system returns now.
\<close>

definition cached_flag :: "string \<Rightarrow> string \<Rightarrow> string \<Rightarrow> bool \<times> string" where
  "cached_flag mark param cached =
     (if cached \<noteq> [] then (str_contains cached mark, cached) else (str_contains param mark, param))"

definition IsDeveloperOpen :: "string \<Rightarrow> string \<Rightarrow> bool \<times> string" where
  "IsDeveloperOpen param cached = cached_flag ''true'' param cached"

definition IsBetaVersion :: "string \<Rightarrow> string \<Rightarrow> bool \<times> string" where
  "IsBetaVersion param cached = cached_flag ''beta'' param cached"

definition IsAsyncStackBlockBundle :: "string \<Rightarrow> string \<Rightarrow> bool" where
  "IsAsyncStackBlockBundle param bundleName = str_contains param bundleName"

definition NeedOpenAsyncStack :: "string \<Rightarrow> string \<Rightarrow> string \<Rightarrow> bool \<Rightarrow> bool \<Rightarrow> bool" where
  "NeedOpenAsyncStack stackSwitchRes blocked bundleName isHapDebuggable isSystemApp =
     (if stackSwitchRes = ''force'' then True
      else if stackSwitchRes \<noteq> ''enable'' then False
      else if IsAsyncStackBlockBundle blocked bundleName then False
      else if isHapDebuggable then True
      else if isSystemApp then False
      else True)"

text \<open>
  \<open>as_once\<close> is the flag of \<^verbatim>\<open>std::call_once\<close>; the library is given by whether it can be opened, whether it has the
  function, and what the function returns.
\<close>

record async_state =
  as_once :: bool
  initAsyncStack :: bool

record async_lib =
  al_open :: bool
  al_func :: "bool option"

definition InitAsyncStackIfNeed ::
  "string \<Rightarrow> string \<Rightarrow> string \<Rightarrow> bool \<Rightarrow> bool \<Rightarrow> async_lib \<Rightarrow> async_state \<Rightarrow> async_state" where
  "InitAsyncStackIfNeed stackSwitchRes blocked bundleName isHapDebuggable isSystemApp al st =
     (if bundleName = [] then st
      else if as_once st then st
      else let st1 = st\<lparr>as_once := True\<rparr> in
        if \<not> NeedOpenAsyncStack stackSwitchRes blocked bundleName isHapDebuggable isSystemApp then st1
        else if al_open al \<and> al_func al = Some True then st1\<lparr>initAsyncStack := True\<rparr>
        else st1)"

text \<open>\<open>param\<close> is the value of the filter, \<^term>\<open>None\<close> if it cannot be read; \<open>name\<close> the name of the process.\<close>

definition IsProcessDebug :: "string option \<Rightarrow> string \<Rightarrow> bool" where
  "IsProcessDebug param name = (case param of None \<Rightarrow> False | Some debugBundle \<Rightarrow> name = debugBundle)"

definition GetFirstLine :: "string option \<Rightarrow> string" where
  "GetFirstLine file =
     (case file of
        None \<Rightarrow> []
      | Some content \<Rightarrow> (case str_find content [CHR 0x0A] 0 of Some p \<Rightarrow> str_substr content 0 p | None \<Rightarrow> content))"

section \<open>Freeze logs\<close>

record FileInfo =
  filePath :: string
  mtime :: int

definition DEFAULT_LOGSTORE_MIN_KEEP_FILE_COUNT :: nat where "DEFAULT_LOGSTORE_MIN_KEEP_FILE_COUNT = 100"
definition TOTAL_HALF :: nat where "TOTAL_HALF = 2"
definition MAX_FILE_SIZE :: u64 where "MAX_FILE_SIZE = 10 * 1024 * 1024"

text \<open>
  The files removed. \<^verbatim>\<open>std::ceil(fileSize / 2.0)\<close> is exact for the sizes it is reached with, below a hundred.
\<close>

definition ClearOldFiles :: "FileInfo list \<Rightarrow> FileInfo list" where
  "ClearOldFiles fileList =
     (let fileSize = length fileList in
      if fileSize > 0 then
        let n = int fileSize - int DEFAULT_LOGSTORE_MIN_KEEP_FILE_COUNT;
            removeFileNumber = (if n < 0 then int ((fileSize + TOTAL_HALF - 1) div TOTAL_HALF) else n)
        in take (nat removeFileNumber) fileList
      else [])"

text \<open>
  A directory as it is listed: its entries with their kind and time, \<^term>\<open>None\<close> for an entry that cannot be
  examined and for a directory that does not exist.
\<close>

record dir_entry =
  de_path :: string
  de_regular :: bool
  de_mtime :: "int option"

definition entry_file :: "dir_entry \<Rightarrow> FileInfo list" where
  "entry_file d =
     (if \<not> de_regular d then []
      else case de_mtime d of None \<Rightarrow> [] | Some t \<Rightarrow> [\<lparr>filePath = de_path d, mtime = t\<rparr>])"

definition GetFilesByDir :: "dir_entry list option \<Rightarrow> FileInfo list \<Rightarrow> FileInfo list" where
  "GetFilesByDir dir fileList = (case dir of None \<Rightarrow> fileList | Some es \<Rightarrow> fileList @ concat (map entry_file es))"

text \<open>
  \<open>folderSize\<close> is the size of the directory. \<^verbatim>\<open>std::sort\<close> leaves the order of files of the same second open; the
  stable order is one it may produce.
\<close>

definition ClearFreezeFileIfNeed ::
  "u64 \<Rightarrow> dir_entry list option \<Rightarrow> dir_entry list option \<Rightarrow> u64 \<Rightarrow> bool \<times> FileInfo list" where
  "ClearFreezeFileIfNeed folderSize freezeDir watchdogDir stackSize =
     (let fileSize = folderSize + stackSize in
      if fileSize < MAX_FILE_SIZE then (False, [])
      else (True, ClearOldFiles (sort_key mtime (GetFilesByDir watchdogDir (GetFilesByDir freezeDir [])))))"

text \<open>
  Writing a file: whether it can be opened, which truncates it, whether a stream is given for it, and whether
  the text is written. The last result is not looked at. The file afterwards is the second component.
\<close>

record save_in =
  sv_open :: bool
  sv_fdopen :: bool
  sv_written :: bool

definition SaveStringToFile :: "save_in \<Rightarrow> string \<Rightarrow> string \<Rightarrow> bool \<times> (string \<times> string) option" where
  "SaveStringToFile sv path content =
     (if \<not> sv_open sv then (False, None)
      else if \<not> sv_fdopen sv then (False, Some (path, []))
      else (True, Some (path, if sv_written sv then content else [])))"

text \<open>The directory is created when it is missing; the result is that of the access list. The second component tells whether it was created.\<close>

definition CreateDir :: "bool \<Rightarrow> bool \<Rightarrow> bool \<times> bool" where
  "CreateDir dirExists aclSet = (aclSet, \<not> dirExists)"

record log_in =
  li_exists :: bool
  li_acl :: bool
  li_folderSize :: u64
  li_freeze :: "dir_entry list option"
  li_watchdog :: "dir_entry list option"
  li_date :: string
  li_realPath :: "string option"
  li_save :: save_in

text \<open>
  The result; the path and the flag, where they are assigned; the files removed; and the file written.
\<close>

definition WriteStackToFd ::
  "log_in \<Rightarrow> int \<Rightarrow> string \<Rightarrow> string \<Rightarrow> bool \<times> string option \<times> bool option \<times> FileInfo list \<times> (string \<times> string) option" where
  "WriteStackToFd li pid stack eventName =
     (if \<not> fst (CreateDir (li_exists li) (li_acl li)) then (False, None, None, [], None)
      else case ClearFreezeFileIfNeed (li_folderSize li) (li_freeze li) (li_watchdog li) (of_nat (length stack)) of
        (isOverLimit, removed) \<Rightarrow>
          (case li_realPath li of
             None \<Rightarrow> (False, None, Some isOverLimit, removed, None)
           | Some realPath \<Rightarrow>
               let path = realPath @ ''/'' @ eventName @ ''_'' @ li_date li @ ''_'' @ show_int pid @ ''.txt'';
                   (saved, file) = SaveStringToFile (li_save li) path stack
               in (saved, Some path, Some isOverLimit, removed, file)))"

section \<open>Properties\<close>

lemma length_ClearOldFiles:
  "length (ClearOldFiles fs) = (if length fs < 100 then (length fs + 1) div 2 else length fs - 100)"
  by (auto simp: ClearOldFiles_def DEFAULT_LOGSTORE_MIN_KEEP_FILE_COUNT_def TOTAL_HALF_def Let_def min_def nat_diff_distrib)

lemma ClearOldFiles_take: "ClearOldFiles fs = take (length (ClearOldFiles fs)) fs"
  by (auto simp: ClearOldFiles_def Let_def min_def)

text \<open>
  When the logs outgrow their limit, the files removed are the oldest ones, each listed once, and at most a hundred
  remain; of fewer than a hundred the older half goes, but of exactly a hundred none, and of a hundred and one
  a single file.
\<close>

theorem oldest_logs_removed:
  fixes freeze watchdog
  defines "files \<equiv> GetFilesByDir watchdog (GetFilesByDir freeze [])"
  assumes "ClearFreezeFileIfNeed folderSize freeze watchdog stackSize = (over, removed)"
  shows "(over \<longleftrightarrow> MAX_FILE_SIZE \<le> folderSize + stackSize) \<and> (\<not> over \<longrightarrow> removed = []) \<and>
    (\<exists>kept. mset files = mset removed + mset kept \<and>
       (\<forall>x \<in> set removed. \<forall>y \<in> set kept. mtime x \<le> mtime y) \<and> (over \<longrightarrow> length kept \<le> 100 \<and>
       length removed = (if length files < 100 then (length files + 1) div 2 else length files - 100)))"
proof -
  define fs where "fs = sort_key mtime files"
  define n where "n = length (ClearOldFiles fs)"
  have r: "over = (MAX_FILE_SIZE \<le> folderSize + stackSize)" "removed = (if over then take n fs else [])"
    using assms(2) ClearOldFiles_take [of fs]
    by (auto simp: ClearFreezeFileIfNeed_def fs_def n_def files_def Let_def not_less split: if_splits)
  define kept where "kept = (if over then drop n fs else files)"
  have m: "mset files = mset fs" "length fs = length files" by (simp_all add: fs_def)
  have "sorted (map mtime fs)" by (simp add: fs_def)
  then have "sorted (map mtime (take n fs @ drop n fs))" by simp
  then have o: "\<forall>x \<in> set removed. \<forall>y \<in> set kept. mtime x \<le> mtime y"
    unfolding map_append sorted_append by (auto simp: r(2) kept_def)
  have p: "mset files = mset removed + mset kept"
    unfolding m(1) using m(1) by (simp add: r(2) kept_def flip: mset_append)
  have nl: "n = (if length fs < 100 then (length fs + 1) div 2 else length fs - 100)" unfolding n_def by (rule length_ClearOldFiles)
  have "over \<Longrightarrow> length kept \<le> 100 \<and> length removed = n" using nl by (auto simp: kept_def r(2))
  then show ?thesis using r o p nl m(2) by auto
qed

text \<open>A hundred files over the limit: nothing is removed.\<close>

theorem oldest_logs_removed_witness:
  "let dir = Some (replicate 100 \<lparr>de_path = ''a'', de_regular = True, de_mtime = Some 1\<rparr>)
   in fst (ClearFreezeFileIfNeed 11000000 dir None 5) \<and> snd (ClearFreezeFileIfNeed 11000000 dir None 5) = []"
proof -
  let ?dir = "Some (replicate 100 \<lparr>de_path = ''a'', de_regular = True, de_mtime = Some 1\<rparr>)"
  have "length (GetFilesByDir None (GetFilesByDir ?dir [])) = 100"
    by (simp add: GetFilesByDir_def entry_file_def length_concat sum_list_triv)
  then show ?thesis
    using oldest_logs_removed [of 11000000 ?dir None 5, OF prod.collapse [symmetric]]
    by (simp add: MAX_FILE_SIZE_def) (metis length_0_conv)
qed

text \<open>
  A log whose text could not be written is reported as saved, with its path: the result of the writing is not looked at.
\<close>

theorem lost_log_reported_saved:
  assumes "li_acl li" and "li_realPath li = Some p" and "sv_open (li_save li)" and "sv_fdopen (li_save li)"
    and "\<not> sv_written (li_save li)"
  shows "\<exists>path over removed. WriteStackToFd li pid stack eventName = (True, Some path, Some over, removed, Some (path, []))"
  using assms by (simp add: WriteStackToFd_def CreateDir_def SaveStringToFile_def Let_def split_beta)

section \<open>The field of the start time\<close>

lemma fields_join:
  assumes "ps \<noteq> []" and "\<forall>p \<in> set ps. c \<notin> set p"
  shows "str_fields c (join [c] ps) = ps"
  using assms
proof (induction "[c]" ps rule: join.induct)
  case (3 x y ys)
  then show ?case by (simp add: fields_append)
qed (simp_all add: fields_no_sep)

lemma dropWhile_hd: "s \<noteq> [] \<Longrightarrow> \<not> P (hd s) \<Longrightarrow> dropWhile P s = s"
  by (cases s) auto

lemma TrimStr_id: "s \<noteq> [] \<Longrightarrow> hd s \<noteq> c \<Longrightarrow> last s \<noteq> c \<Longrightarrow> TrimStr s c = s"
  by (simp add: TrimStr_def dropWhile_hd hd_rev)

lemma TrimStr_no: "s \<noteq> [] \<Longrightarrow> c \<notin> set s \<Longrightarrow> TrimStr s c = s"
  by (metis TrimStr_id hd_in_set last_in_set)

definition pieces_ok :: "string list \<Rightarrow> bool" where
  "pieces_ok ps \<longleftrightarrow> ps \<noteq> [] \<and> (\<forall>p \<in> set ps. p \<noteq> [] \<and> CHR '' '' \<notin> set p)"

lemma join_ends:
  assumes "pieces_ok ps"
  shows "join '' '' ps \<noteq> []" and "hd (join '' '' ps) \<noteq> CHR '' ''" and "last (join '' '' ps) \<noteq> CHR '' ''"
proof -
  have "join '' '' ps \<noteq> [] \<and> hd (join '' '' ps) \<noteq> CHR '' '' \<and> last (join '' '' ps) \<noteq> CHR '' ''"
    using assms
  proof (induction "'' ''" ps rule: join.induct)
    case (2 x)
    then show ?case by (simp add: pieces_ok_def) (metis hd_in_set last_in_set)
  next
    case (3 x y ys)
    then have "x \<noteq> []" "hd x \<noteq> CHR '' ''" by (auto simp: pieces_ok_def) (metis hd_in_set)
    moreover have "pieces_ok (y # ys)" using 3(2) by (simp add: pieces_ok_def)
    ultimately show ?case using 3(1) by simp
  qed (simp add: pieces_ok_def)
  then show "join '' '' ps \<noteq> []" "hd (join '' '' ps) \<noteq> CHR '' ''" "last (join '' '' ps) \<noteq> CHR '' ''" by auto
qed

lemma SplitStr_join:
  assumes "pieces_ok ps"
  shows "SplitStr (join '' '' ps) '' '' False True = ps"
proof -
  have f: "str_fields (CHR '' '') (join '' '' ps) = ps" using assms by (intro fields_join) (auto simp: pieces_ok_def)
  have e: "concat (map (emit_part False True) qs) = qs" if "\<forall>q \<in> set qs. q \<noteq> [] \<and> CHR '' '' \<notin> set q" for qs
    using that by (induction qs) (auto simp: emit_part_def TrimStr_no)
  have "SplitStr (join '' '' ps) '' '' False True = concat (map (emit_part False True) (str_fields (CHR '' '') (join '' '' ps)))"
    using SplitStr_loop_fields [of 0 "join '' '' ps" "CHR '' ''" False True] TrimStr_id [OF join_ends [OF assms]]
    by (simp add: SplitStr_def)
  then show ?thesis using e [of ps] assms by (simp add: f pieces_ok_def)
qed

text \<open>
  The status line of a thread holds its id, the name of its command in brackets and further fields, of which the
  twentieth is the start time. The code takes the piece with index 21 between spaces: the start time if
  the name is a single word, and an earlier field for every space in it.
\<close>

theorem start_time_field:
  assumes "pieces_ok (tidStr # name @ rest)" and "name \<noteq> []" and "length name \<le> 20" and "20 \<le> length rest"
    and "IsNum (rest ! (20 - length name))" and "stoll (rest ! (20 - length name)) = Inr v"
    and "sc_startTime g \<le> 0 \<or> sc_lastTid g \<noteq> tid"
  shows "GetAppStartTime (Some (join '' '' (tidStr # name @ rest))) tid g =
    Inr (v, g\<lparr>sc_startTime := v, sc_lastTid := to_int32 tid\<rparr>)"
proof -
  have "(tidStr # name @ rest) ! START_TIME_INDEX = rest ! (20 - length name)"
    using assms(2,3) by (simp add: START_TIME_INDEX_def nth_append)
  moreover have "\<not> length (tidStr # name @ rest) \<le> START_TIME_INDEX"
    using assms(2,4) by (cases name) (simp_all add: START_TIME_INDEX_def)
  ultimately show ?thesis
    using assms(5-7) join_ends(1) [OF assms(1)] SplitStr_join [OF assms(1)]
    by (auto simp: GetAppStartTime_def Let_def)
qed

text \<open>A thread that started at tick 9000; with a space in its name the field before is read, which is always zero.\<close>

definition stat_fields :: "string list" where
  "stat_fields = replicate 18 ''1'' @ [''0'', ''9000'', ''2'']"

theorem start_time_field_witness:
  "GetAppStartTime (Some (join '' '' (''77'' # [''(main)''] @ stat_fields))) 77 start_cache_init =
     Inr (9000, \<lparr>sc_startTime = 9000, sc_lastTid = 77\<rparr>) \<and>
   GetAppStartTime (Some (join '' '' (''77'' # [''(my'', ''app)''] @ stat_fields))) 77 start_cache_init =
     Inr (0, \<lparr>sc_startTime = 0, sc_lastTid = 77\<rparr>)"
proof
  have ok: "pieces_ok (''77'' # [''(main)''] @ stat_fields)" "pieces_ok (''77'' # [''(my'', ''app)''] @ stat_fields)"
    by (simp_all add: pieces_ok_def stat_fields_def)
  have v: "stoll ''9000'' = Inr 9000" "stoll ''0'' = Inr 0" "IsNum ''9000''" "IsNum ''0''"
    by (simp_all add: stoll_def strtoll_def strto_parse_def isspace_def isdigit_def digit_val_def IsNum_def)
  have n: "stat_fields ! 19 = ''9000''" "stat_fields ! 18 = ''0''" by (simp_all add: stat_fields_def nth_append)
  have len: "20 \<le> length stat_fields" by (simp add: stat_fields_def)
  show "GetAppStartTime (Some (join '' '' (''77'' # [''(main)''] @ stat_fields))) 77 start_cache_init =
     Inr (9000, \<lparr>sc_startTime = 9000, sc_lastTid = 77\<rparr>)"
    using start_time_field [OF ok(1) _ _ len, of 9000 start_cache_init 77] v n
    by (simp add: start_cache_init_def to_int32_def)
  show "GetAppStartTime (Some (join '' '' (''77'' # [''(my'', ''app)''] @ stat_fields))) 77 start_cache_init =
     Inr (0, \<lparr>sc_startTime = 0, sc_lastTid = 77\<rparr>)"
    using start_time_field [OF ok(2) _ _ len, of 0 start_cache_init 77] v n
    by (simp add: start_cache_init_def to_int32_def)
qed

end
