(* ===== verification/Jank_Session.thy ===== *)
theory Jank_Session
  imports Freeze_Session Process_Files
begin

text \<open>
  The sampling of a slow main thread, of a slow start-up and of slow scrolling with the sampler behind it: the closures of
  \<^verbatim>\<open>watchdog_inner.cpp\<close> on the joined state of the watchdog and the sampler, with the events they report and the logs
  they leave. They do to the watchdog what the closures of \<^verbatim>\<open>Watchdog_Sampling\<close> do with the readings of the library,
  and so the stacks in an event can be followed back to the signals.
\<close>

section \<open>State\<close>

text \<open>The parameters of the event \<^verbatim>\<open>MAIN_THREAD_JANK\<close>, in the order they are written in.\<close>

record main_jank =
  mj_version :: string
  mj_bundle :: string
  mj_begin :: int
  mj_end :: int
  mj_log :: string
  mj_stack :: string
  mj_level :: int
  mj_thread :: string
  mj_foreground :: bool
  mj_logTime :: int
  mj_appStart :: int
  mj_heaviest :: string
  mj_over :: bool

datatype jank_event =
    AppStartJank string string string
  | MainThreadJank main_jank
  | ScrollTimeout string string bool

text \<open>\<open>js_files\<close> are the logs written, the newest last.\<close>

record jank_state =
  js_wd :: WatchdogInner
  js_lib :: ThreadSampler
  js_result :: SamplerResult
  js_files :: "(string \<times> string) list"
  js_events :: "jank_event list"

definition bridge_of :: "jank_state \<Rightarrow> bridge" where
  "bridge_of js = \<lparr>br_flags = sampling (js_wd js), br_lib = js_lib js, br_result = js_result js\<rparr>"

definition set_bridge :: "bridge \<Rightarrow> jank_state \<Rightarrow> jank_state" where
  "set_bridge b js = js\<lparr>js_wd := (js_wd js)\<lparr>sampling := br_flags b\<rparr>, js_lib := br_lib b, js_result := br_result b\<rparr>"

definition upd_wd :: "(WatchdogInner \<Rightarrow> WatchdogInner) \<Rightarrow> jank_state \<Rightarrow> jank_state" where
  "upd_wd f js = js\<lparr>js_wd := f (js_wd js)\<rparr>"

text \<open>What one run of a closure reads of the outside; \<open>jk_ns\<close> and \<open>jk_log_ns\<close> are wall clock readings.\<close>

record jank_in =
  jk_dl :: dl_result
  jk_has_result :: bool
  jk_install :: bool
  jk_init :: init_in
  jk_sample :: sample_in
  jk_ns :: int
  jk_clk :: "nat \<Rightarrow> u64"
  jk_wchan :: string
  jk_log :: log_in
  jk_log_ns :: int
  jk_appStart :: int

section \<open>The event\<close>

definition Jank_Report ::
  "env \<Rightarrow> sampler_lib \<Rightarrow> jank_in \<Rightarrow> string \<Rightarrow> bool \<Rightarrow> bool \<Rightarrow> jank_state \<Rightarrow> jank_state" where
  "Jank_Report e lb jk eventName scroll appStart js =
     (case Inner_CollectStack lb (jk_clk jk) (jk_wchan jk) 1 (bridge_of js) of (collected, b1) \<Rightarrow>
      case (case collected of Some texts \<Rightarrow> texts | None \<Rightarrow> ([], [])) of (stack, heaviest) \<Rightarrow>
      case WriteStackToFd (jk_log jk) (getprocpid e) stack eventName of (ok, path, over, removed, file) \<Rightarrow>
        let js1 = set_bridge b1 js;
            js2 = js1\<lparr>js_files := js_files js1 @ (case file of Some f \<Rightarrow> [f] | None \<Rightarrow> [])\<rparr>;
            w = js_wd js2; c = stackContent (sampling w);
            log = (case path of Some p \<Rightarrow> p | None \<Rightarrow> []); isOverLimit = (case over of Some v \<Rightarrow> v | None \<Rightarrow> False) in
        if \<not> ok then js2
        else if \<not> HISYSEVENT_ENABLE e then js2
        else if appStart then
          upd_wd (emit (EReport eventName scroll))
            (upd_wd (upd_sampling (upd_content scroll (\<lambda>c. c\<lparr>as_reportTimes := as_reportTimes c - 1\<rparr>)))
              (js2\<lparr>js_events := js_events js2 @ [AppStartJank eventName (selfProcName e) stack]\<rparr>))
        else if \<not> scroll then
          upd_wd (emit (EReport ''MAIN_THREAD_JANK'' scroll)) (js2\<lparr>js_events := js_events js2 @ [MainThreadJank
            \<lparr>mj_version = bundleVersion w, mj_bundle = bundleName w,
             mj_begin = to_ms (reportBegin c), mj_end = to_ms (reportEnd c),
             mj_log = log, mj_stack = stack, mj_level = 0, mj_thread = selfProcName e, mj_foreground = isForeground w,
             mj_logTime = to_ms (jk_log_ns jk), mj_appStart = jk_appStart jk,
             mj_heaviest = heaviest, mj_over = isOverLimit\<rparr>]\<rparr>)
        else
          upd_wd (emit (EReport ''SCROLL_TIMEOUT'' scroll))
            (js2\<lparr>js_events := js_events js2 @ [ScrollTimeout (selfProcName e) log isOverLimit]\<rparr>))"

section \<open>The closures\<close>

definition jank_check :: "sampler_lib \<Rightarrow> jank_in \<Rightarrow> jank_state \<Rightarrow> bool \<times> jank_state" where
  "jank_check lb jk js =
     (case Lib_CheckThreadSampler lb (jk_dl jk) (jk_has_result jk) (jk_install jk) (jk_init jk) False (bridge_of js) of
        (ok, b1) \<Rightarrow> (ok, set_bridge b1 js))"

definition jank_sample :: "sampler_lib \<Rightarrow> jank_in \<Rightarrow> jank_state \<Rightarrow> jank_state" where
  "jank_sample lb jk js = upd_wd (emit ESample) (set_bridge (Lib_Sample lb (jk_sample jk) (bridge_of js)) js)"

definition app_start_run :: "env \<Rightarrow> sampler_lib \<Rightarrow> jank_in \<Rightarrow> bool \<Rightarrow> jank_state \<Rightarrow> jank_state" where
  "app_start_run e lb jk scroll js =
     (let s = sampling (js_wd js); n = as_collectCount (start_content scroll s);
          finish = upd_wd (upd_sampling (upd_content scroll (\<lambda>c. c\<lparr>isFinishStartSample := True\<rparr>)));
          dump = (\<lambda>b. upd_wd (upd_sampling (\<lambda>s. s\<lparr>g_isDumpStack := b\<rparr>))) in
      if n = 0 \<and> g_isDumpStack s then finish js
      else let (ok, js1) = (if n = 0 then jank_check lb jk js else (True, js)) in
        if n = 0 \<and> \<not> ok \<or> \<not> samplerFuncs (sampling (js_wd js1)) then finish (dump False js1)
        else if n < targetCount (start_content scroll s) then
          upd_wd (upd_sampling (upd_content scroll (\<lambda>c. c\<lparr>as_collectCount := as_collectCount c + 1\<rparr>)))
            (jank_sample lb jk (dump True js1))
        else finish (dump False (Jank_Report e lb jk
            (if scroll then ''APP_START_SCROLL_JANK'' else ''APP_START_JANK'') scroll True js1)))"

definition scroll_run :: "env \<Rightarrow> sampler_lib \<Rightarrow> jank_in \<Rightarrow> jank_state \<Rightarrow> jank_state" where
  "scroll_run e lb jk js =
     (let s = sampling (js_wd js); n = g_scrollSampleCount s;
          enable = upd_wd (upd_sampling (\<lambda>s. s\<lparr>isMainThreadStackEnabled := True\<rparr>)) in
      if n = 0 \<and> g_isDumpStack s then enable js
      else let (ok, js1) = (if n = 0 then jank_check lb jk js else (True, js)) in
        if n = 0 \<and> \<not> ok then enable js1
        else if \<not> samplerFuncs (sampling (js_wd js1)) then enable js1
        else if n = 0 then
          upd_wd (upd_sampling (\<lambda>s. s\<lparr>g_scrollSampleCount := g_scrollSampleCount s + 1\<rparr>))
            (jank_sample lb jk (upd_wd (upd_sampling (\<lambda>s. s\<lparr>g_isDumpStack := True\<rparr>)) js1))
        else upd_wd (upd_sampling (\<lambda>s. s\<lparr>stackContent := (stackContent s)\<lparr>scrollTimes := scrollTimes (stackContent s) - 1\<rparr>,
                 g_isDumpStack := False, isMainThreadStackEnabled := True\<rparr>))
               (Jank_Report e lb jk ''SCROLL_JANK'' True False js1))"

definition main_thread_run :: "env \<Rightarrow> sampler_lib \<Rightarrow> jank_in \<Rightarrow> int \<Rightarrow> int \<Rightarrow> jank_state \<Rightarrow> jank_state" where
  "main_thread_run e lb jk sampleInterval sampleCount js =
     (let s = sampling (js_wd js); c = stackContent s;
          first = (detectorCount c = 0 \<and> collectCount c = 0);
          enable = upd_wd (upd_sampling (\<lambda>s. s\<lparr>isMainThreadStackEnabled := True\<rparr>));
          timer = (\<lambda>js. CheckEventTimer (jk_ns jk) (reportBegin c) (reportEnd c) sampleInterval (sampling (js_wd js)));
          more = upd_wd (upd_stack (\<lambda>c. c\<lparr>collectCount := collectCount c + 1\<rparr>)) in
      if first \<and> g_isDumpStack s then enable js
      else let (ok, js1) = (if first then jank_check lb jk js else (True, js)) in
        if first \<and> \<not> ok \<or> \<not> samplerFuncs (sampling (js_wd js1)) then enable js1
        else if 0 < collectCount c \<and> collectCount c < sampleCount then
          if jank KEY_AUTO_STOP_SAMPLING (sampling (js_wd js1)) \<noteq> 0 \<and> \<not> timer js1
          then upd_wd (upd_stack (\<lambda>c. c\<lparr>collectCount := sampleCount\<rparr>)) js1
          else upd_wd main_thread_tail (more (jank_sample lb jk (upd_wd (upd_sampling (\<lambda>s. s\<lparr>g_isDumpStack := True\<rparr>)) js1)))
        else if collectCount c = sampleCount then
          let js2 = upd_wd (upd_sampling (\<lambda>s. s\<lparr>g_isDumpStack := False\<rparr>)) js1;
              eventName = (if CheckBusinessEmpty (js_wd js2) then ''MAIN_THREAD_JANK'' else ''BUSSINESS_THREAD_JANK'')
          in enable (upd_wd (upd_stack (\<lambda>c. c\<lparr>reportTimes := reportTimes c - 1\<rparr>)) (Jank_Report e lb jk eventName False False js2))
        else if timer js1 then upd_wd main_thread_tail (more (jank_sample lb jk js1))
        else upd_wd main_thread_tail (upd_wd (upd_stack (\<lambda>c. c\<lparr>detectorCount := detectorCount c + 1\<rparr>)) js1))"

section \<open>Agreement with the closures of the watchdog\<close>

text \<open>Whether a log could be written does not depend on what it holds.\<close>

definition log_ok :: "log_in \<Rightarrow> bool" where
  "log_ok li = fst (WriteStackToFd li 0 [] [])"

text \<open>The readings of a closure when the library and the disk give them.\<close>

definition jank_probe :: "sampler_lib \<Rightarrow> jank_in \<Rightarrow> jank_state \<Rightarrow> probe" where
  "jank_probe lb jk js = \<lparr>pr_dl = jk_dl jk, pr_install = jk_install jk,
     pr_init = fst (ThreadSamplerInit lb (jk_init jk) COLLECT_STACK_COUNT 0 (js_lib js)), pr_deinit = 0, pr_collect = None,
     pr_write = log_ok (jk_log jk), pr_dir = False, pr_ns = jk_ns jk, pr_tick = 0, pr_tick2 = 0, pr_tick3 = 0, pr_time = [],
     pr_backtrace = None, pr_open1 = 0, pr_open2 = 0, pr_sent = False, pr_pid = 0, pr_config_exists = False,
     pr_collector = False\<rparr>"

lemma jank_sel [simp]:
  "br_flags (bridge_of js) = sampling (js_wd js)" "br_lib (bridge_of js) = js_lib js"
  "bridge_of (set_bridge b js) = b" "js_wd (upd_wd f js) = f (js_wd js)" "js_lib (upd_wd f js) = js_lib js"
  "js_files (upd_wd f js) = js_files js" "js_events (upd_wd f js) = js_events js"
  "js_wd (set_bridge b js) = (js_wd js)\<lparr>sampling := br_flags b\<rparr>" "js_lib (set_bridge b js) = br_lib b"
  "js_files (set_bridge b js) = js_files js" "js_events (set_bridge b js) = js_events js"
  by (simp_all add: bridge_of_def set_bridge_def upd_wd_def)

lemma upd_sampling_twice: "upd_sampling f (upd_sampling g w) = upd_sampling (\<lambda>s. f (g s)) w"
  by (simp add: upd_sampling_def)

lemma Write_ok: "fst (WriteStackToFd li pid stack nm) = log_ok li"
  by (simp add: log_ok_def WriteStackToFd_def SaveStringToFile_def Let_def split: prod.split option.split)

lemma Report_refines:
  assumes "pr_write pr = log_ok (jk_log jk)"
  shows "js_wd (Jank_Report e lb jk nm scroll appStart js) = ReportMainThreadEvent e pr nm scroll appStart (js_wd js)"
proof -
  obtain c b1 where c: "Inner_CollectStack lb (jk_clk jk) (jk_wchan jk) 1 (bridge_of js) = (c, b1)" by fastforce
  then have f: "br_flags b1 = sampling (js_wd js)"
    using Inner_CollectStack_keeps [of lb "jk_clk jk" "jk_wchan jk" 1 "bridge_of js"] by simp
  obtain stack heaviest where t: "(case c of Some texts \<Rightarrow> texts | None \<Rightarrow> ([], [])) = (stack, heaviest)" by fastforce
  obtain ok path over removed saved
    where wr: "WriteStackToFd (jk_log jk) (getprocpid e) stack nm = (ok, path, over, removed, saved)" by (metis prod_cases5)
  then have "ok = pr_write pr" using Write_ok [of "jk_log jk" "getprocpid e" stack nm] assms by simp
  then show ?thesis
    by (cases appStart; cases scroll)
      (simp_all add: Jank_Report_def ReportMainThreadEvent_def c t wr f upd_content_def upd_sampling_def Let_def)
qed

lemma jank_check_refines:
  "CheckThreadSampler (jank_probe lb jk js) (sampling (js_wd js)) =
     (fst (jank_check lb jk js), sampling (js_wd (snd (jank_check lb jk js))))"
  "js_wd (snd (jank_check lb jk js)) = (js_wd js)\<lparr>sampling := sampling (js_wd (snd (jank_check lb jk js)))\<rparr>"
  using bridge_refines_check [of "jank_probe lb jk js" "jk_dl jk" "jk_install jk" lb "jk_init jk" False "bridge_of js" "jk_has_result jk"]
  by (simp_all add: jank_check_def jank_probe_def split_beta prod_eq_iff)

lemma jank_sample_wd: "js_wd (jank_sample lb jk js) = emit ESample (js_wd js)"
  using Lib_Sample_flags [of lb "jk_sample jk" "bridge_of js"] by (simp add: jank_sample_def)

lemma probe_write: "pr_write (jank_probe lb jk js) = log_ok (jk_log jk)" "pr_ns (jank_probe lb jk js) = jk_ns jk"
  by (simp_all add: jank_probe_def)


section \<open>What the event holds\<close>

text \<open>The table of the printer has the stacks listed, each with its time, in their order.\<close>

definition table_ok :: "ThreadSampler \<Rightarrow> bool" where
  "table_ok s \<longleftrightarrow> printer s = Some (map prod.swap (timeStampedPcsList s))"

lemma printer_set_context [simp]: "printer (set_context i f s) = printer s"
  by (simp add: set_context_def split: option.split)

lemma table_cong: "printer s' = printer s \<Longrightarrow> timeStampedPcsList s' = timeStampedPcsList s \<Longrightarrow> table_ok s' = table_ok s"
  by (simp add: table_ok_def)

lemma table_process_one: "table_ok s \<Longrightarrow> table_ok (process_one lb ts i s)"
  by (simp add: table_ok_def process_one_def Let_def split: option.split)

lemma table_process_loop: "table_ok s \<Longrightarrow> table_ok (process_loop lb clk k s)"
proof (induction lb clk k s rule: process_loop.induct)
  case (1 lb clk k s)
  obtain o1 s1 where g: "GetReadContext s = (o1, s1)" by fastforce
  then have t: "table_ok s1" using 1 (2)
    by (auto simp: GetReadContext_def table_ok_def Let_def split: option.splits if_splits)
  show ?case
  proof (cases o1)
    case None
    then show ?thesis using g t by (subst process_loop.simps) simp
  next
    case (Some i)
    then show ?thesis using 1 (1) [OF g [symmetric] Some table_process_one [OF t]] g by (subst process_loop.simps) simp
  qed
qed

lemma table_Process: "table_ok s \<Longrightarrow> table_ok (ProcessStackBuffer lb clk s)"
  by (simp add: ProcessStackBuffer_def table_process_loop)

lemma table_Signal: "table_ok (ThreadSamplerSignalHandler si s) = table_ok s"
  by (rule table_cong) (simp_all add: ThreadSamplerSignalHandler_def WriteContext_def Let_def split: option.split)

lemma table_Request: "table_ok (SendSampleRequest ts q s) = table_ok s"
  by (rule table_cong) (simp_all add: SendSampleRequest_def Let_def split: option.split)

lemma table_call:
  assumes "table_ok (br_lib b)" and "session_ok (br_lib b) c"
  shows "table_ok (br_lib (bridge_exec lb c b))"
proof (cases c)
  case (BSample sa)
  let ?p = "ProcessStackBuffer lb (sa_clk sa) (SendSampleRequest (sa_ts sa) (sa_queued sa) (br_lib b))"
  have "table_ok ?p" by (rule table_Process) (simp add: table_Request assms(1))
  moreover have "table_ok (?p\<lparr>processFinishTime := sa_end sa\<rparr>) = table_ok ?p" by (rule table_cong) simp_all
  ultimately show ?thesis using BSample assms(1) by (simp add: Lib_Sample_def ThreadSamplerSample_def Sample_def)
next
  case (BSignal si)
  have "table_ok ((br_lib b)\<lparr>signals := signals (br_lib b) - 1\<rparr>) = table_ok (br_lib b)" by (rule table_cong) simp_all
  then show ?thesis using BSignal assms(1) by (simp add: ThreadSamplerSigHandler_def table_Signal)
qed (use assms(2) in simp_all)

lemma table_run:
  "in_session b \<Longrightarrow> table_ok (br_lib b) \<Longrightarrow> list_all (session_ok (br_lib b)) cs \<Longrightarrow>
   table_ok (br_lib (fold (bridge_exec lb) cs b))"
proof (induction cs arbitrary: b)
  case (Cons c cs)
  have s: "in_session (bridge_exec lb c b)" "bounds (br_lib (bridge_exec lb c b)) = bounds (br_lib b)"
    using session_step [OF Cons.prems(1)] Cons.prems(3) by auto
  have "table_ok (br_lib (bridge_exec lb c b))" using table_call Cons.prems(2,3) by simp
  moreover have "list_all (session_ok (br_lib (bridge_exec lb c b))) cs"
    using Cons.prems(3) session_bounds [OF s(2)] by (simp add: list_all_iff)
  ultimately show ?case using Cons.IH [OF s(1)] by simp
qed simp

lemma table_Init:
  assumes "Sampler_Init lb ii n rec s = (True, s')" and "\<not> s_init s" and "printer s = None" and "timeStampedPcsList s = []"
  shows "table_ok s'"
  using assms
  by (auto simp: Sampler_Init_def InitRecordBuffer_def InitUnwinder_def InitStackPrinter_def table_ok_def Let_def
      split: if_splits option.splits bool.splits prod.splits)

lemma table_start:
  assumes "rested (br_lib b)" and "printer (br_lib b) = None"
    and "Lib_CheckThreadSampler lb dl g install ii rec b = (True, b1)"
  shows "table_ok (br_lib b1)"
proof -
  obtain ok l where l: "Sampler_Init lb ii COLLECT_STACK_COUNT rec (br_lib b) = (ok, l)" by fastforce
  then have "ok" "br_lib b1 = l"
    using assms(3) by (auto simp: Lib_CheckThreadSampler_def Lib_InitThreadSamplerFuncs_def InitThreadSamplerFuncs_def
        ThreadSamplerInit_def split: dl_result.splits if_splits)
  then show ?thesis using table_Init [of lb ii COLLECT_STACK_COUNT rec "br_lib b" l] l assms(1,2) by (simp add: rested_def)
qed

text \<open>A text of the library as it comes out of the buffer it was copied to.\<close>

definition delivered :: "string \<Rightarrow> string" where
  "delivered s = take (STACK_LENGTH - 1) (takeWhile (\<lambda>c. c \<noteq> CHR 0x00) s)"

definition tree_texts :: "sampler_lib \<Rightarrow> (u64 \<times> u64 list) list \<Rightarrow> string \<times> string" where
  "tree_texts lb snaps =
     (if snaps = [] then ([], [])
      else (delivered (lib_tree lb (map prod.swap snaps)), delivered (lib_heaviest lb (map prod.swap snaps))))"

lemma session_tree:
  assumes "in_session b" and "table_ok (br_lib b)"
  shows "(case fst (Inner_CollectStack lb clk wchan 1 b) of Some texts \<Rightarrow> texts | None \<Rightarrow> ([], [])) =
    tree_texts lb (timeStampedPcsList (ProcessStackBuffer lb clk (br_lib b)))"
proof -
  let ?l = "ProcessStackBuffer lb clk (br_lib b)"
  have p: "printer ?l = Some (map prod.swap (timeStampedPcsList ?l))"
    using table_Process [OF assms(2)] by (simp add: table_ok_def)
  have k: "CollectStack lb clk wchan True (br_lib b) =
      (if timeStampedPcsList ?l = [] then (False, ''/proc/self/wchan: '' @ [CHR 0x0A] @ wchan @ [CHR 0x0A], ?l\<lparr>heaviestStack := []\<rparr>)
       else (True, lib_tree lb (map prod.swap (timeStampedPcsList ?l)),
             ?l\<lparr>heaviestStack := lib_heaviest lb (map prod.swap (timeStampedPcsList ?l))\<rparr>))"
    by (simp add: CollectStack_def p Let_def)
  define x where "x y = the (strncpy_s STACK_LENGTH y)" for y
  have x: "strncpy_s STACK_LENGTH y = Some (x y)" for y by (simp add: x_def strncpy_s_def STACK_LENGTH_def)
  have "buffer_text (Some (x y)) = delivered y" for y using buffer_text_copy [of y] by (simp add: x delivered_def)
  then show ?thesis
    using assms(1) by (simp add: Inner_CollectStack_def ThreadSamplerCollect_def k x in_session_def tree_texts_def)
qed

section \<open>A profile of the main thread from its start to its event\<close>

text \<open>The runs of the closure and the signals between them.\<close>

datatype jank_step = JTick jank_in | JSignal signal_in

fun jank_exec :: "env \<Rightarrow> sampler_lib \<Rightarrow> int \<Rightarrow> int \<Rightarrow> jank_step \<Rightarrow> jank_state \<Rightarrow> jank_state" where
  "jank_exec e lb i n (JTick jk) js = main_thread_run e lb jk i n js"
| "jank_exec e lb i n (JSignal si) js = set_bridge (ThreadSamplerSigHandler si (bridge_of js)) js"

fun jank_call_of :: "jank_step \<Rightarrow> bridge_call" where
  "jank_call_of (JTick jk) = BSample (jk_sample jk)"
| "jank_call_of (JSignal si) = BSignal si"

fun tick_ns :: "jank_step \<Rightarrow> int list" where
  "tick_ns (JTick jk) = [jk_ns jk]"
| "tick_ns (JSignal si) = []"

text \<open>What of the watchdog goes into the event or decides about the samples, and is not changed by them.\<close>

definition jank_frame :: "WatchdogInner \<Rightarrow> (string \<times> string \<times> bool \<times> int set) \<times> (int \<times> int \<times> TimeContent \<times> (string \<rightharpoonup> int))" where
  "jank_frame w = ((bundleVersion w, bundleName w, isForeground w, buissnessThreadInfo w),
     (reportBegin (stackContent (sampling w)), reportEnd (stackContent (sampling w)), timeContent (sampling w),
      jankParamsMap (sampling w)))"

text \<open>The event that is looked at still lasts, or has lasted long enough, at the time \<open>ns\<close>.\<close>

definition still_slow :: "int \<Rightarrow> WatchdogInner \<Rightarrow> int \<Rightarrow> bool" where
  "still_slow i w ns \<longleftrightarrow> CheckEventTimer ns (reportBegin (stackContent (sampling w))) (reportEnd (stackContent (sampling w))) i (sampling w)"

lemma still_slow_frame: "jank_frame w' = jank_frame w \<Longrightarrow> still_slow i w' ns = still_slow i w ns"
  by (simp add: jank_frame_def still_slow_def CheckEventTimer_def Let_def)

text \<open>The profile goes on after \<open>k\<close> samples, its sampler in the state of \<open>b\<close>.\<close>

definition profiling :: "int \<Rightarrow> bridge \<Rightarrow> jank_state \<Rightarrow> jank_state \<Rightarrow> bool" where
  "profiling k b js0 js \<longleftrightarrow>
     js_lib js = br_lib b \<and> in_session b \<and> samplerFuncs (sampling (js_wd js)) \<and> samplerSigHandler (sampling (js_wd js)) \<and>
     collectCount (stackContent (sampling (js_wd js))) = k \<and> detectorCount (stackContent (sampling (js_wd js))) = 0 \<and>
     jank_frame (js_wd js) = jank_frame (js_wd js0) \<and> js_files js = js_files js0 \<and> js_events js = js_events js0"

lemma sample_wd_sel [simp]: "js_files (jank_sample lb jk js) = js_files js" "js_events (jank_sample lb jk js) = js_events js"
  "js_lib (jank_sample lb jk js) = br_lib (Lib_Sample lb (jk_sample jk) (bridge_of js))"
  by (simp_all add: jank_sample_def)

lemma profiling_step:
  assumes "profiling k b js0 js" and "0 < k" and "tick_ns ev \<noteq> [] \<longrightarrow> k < n"
    and "list_all (still_slow i (js_wd js0)) (tick_ns ev)" and "session_ok (br_lib b) (jank_call_of ev)"
  shows "profiling (k + int (length (tick_ns ev))) (bridge_exec lb (jank_call_of ev) b) js0 (jank_exec e lb i n ev js)"
proof -
  have s: "in_session (bridge_exec lb (jank_call_of ev) b)"
    using session_step [of b "jank_call_of ev" lb] assms(1,5) by (simp add: profiling_def)
  show ?thesis
  proof (cases ev)
    case (JTick jk)
    have "still_slow i (js_wd js) (jk_ns jk)"
      using assms(1,4) JTick still_slow_frame [of "js_wd js" "js_wd js0"] by (simp add: profiling_def)
    then have t: "CheckEventTimer (jk_ns jk) (reportBegin (stackContent (sampling (js_wd js))))
        (reportEnd (stackContent (sampling (js_wd js)))) i (sampling (js_wd js))" by (simp add: still_slow_def)
    have "main_thread_run e lb jk i n js = upd_wd main_thread_tail (upd_wd (upd_stack (\<lambda>c. c\<lparr>collectCount := collectCount c + 1\<rparr>))
        (jank_sample lb jk (upd_wd (upd_sampling (\<lambda>s. s\<lparr>g_isDumpStack := True\<rparr>)) js)))"
      using assms(1,2,3) JTick t by (simp add: main_thread_run_def profiling_def Let_def)
    then show ?thesis
      using assms(1) JTick s
      by (simp add: profiling_def jank_sample_wd main_thread_tail_def DETECT_STACK_COUNT_def upd_stack_def jank_frame_def
          Lib_Sample_def in_session_def emit_def upd_sampling_def)
  next
    case (JSignal si)
    then show ?thesis
      using assms(1) s by (simp add: profiling_def ThreadSamplerSigHandler_def in_session_def jank_frame_def)
  qed
qed

lemma profiling_run:
  assumes "profiling k b js0 js" and "0 < k" and "k + int (length (concat (map tick_ns evs))) \<le> n"
    and "list_all (still_slow i (js_wd js0)) (concat (map tick_ns evs))"
    and "list_all (session_ok (br_lib b)) (map jank_call_of evs)"
  shows "profiling (k + int (length (concat (map tick_ns evs)))) (fold (bridge_exec lb) (map jank_call_of evs) b) js0
    (fold (jank_exec e lb i n) evs js)"
  using assms
proof (induction evs arbitrary: k b js)
  case (Cons ev evs)
  let ?b = "bridge_exec lb (jank_call_of ev) b"
  have bb: "bounds (br_lib ?b) = bounds (br_lib b)"
    using session_step [of b "jank_call_of ev" lb] Cons.prems(1,5) by (simp add: profiling_def)
  have ok: "list_all (session_ok (br_lib ?b)) (map jank_call_of evs)"
    using Cons.prems(5) by (simp add: list_all_iff session_bounds [OF bb])
  have g: "profiling (k + int (length (tick_ns ev))) ?b js0 (jank_exec e lb i n ev js)"
    by (rule profiling_step) (use Cons.prems in \<open>cases ev; auto\<close>)+
  show ?case using Cons.IH [OF g _ _ _ ok] Cons.prems(2,3,4) by (simp add: algebra_simps)
qed simp

lemma profile_starts:
  assumes "rested (js_lib js)" and "printer (js_lib js) = None" and "jank_check lb jk js = (True, js1)"
  shows "in_session (bridge_of js1)" and "table_ok (js_lib js1)" and "seen lb (js_lib js1) = []"
    and "js_wd js1 = (js_wd js)\<lparr>sampling := (sampling (js_wd js))\<lparr>samplerFuncs := True, samplerSigHandler := True\<rparr>\<rparr>"
    and "js_files js1 = js_files js" and "js_events js1 = js_events js"
proof -
  obtain b1 where b1: "Lib_CheckThreadSampler lb (jk_dl jk) (jk_has_result jk) (jk_install jk) (jk_init jk) False (bridge_of js) = (True, b1)"
    "js1 = set_bridge b1 js" using assms(3) by (auto simp: jank_check_def split: prod.splits)
  then have "br_flags b1 = (sampling (js_wd js))\<lparr>samplerFuncs := True, samplerSigHandler := True\<rparr>"
    by (auto simp: Lib_CheckThreadSampler_def Lib_InitThreadSamplerFuncs_def InitThreadSamplerFuncs_def
        split: dl_result.splits if_splits prod.splits)
  then show "js_wd js1 = (js_wd js)\<lparr>sampling := (sampling (js_wd js))\<lparr>samplerFuncs := True, samplerSigHandler := True\<rparr>\<rparr>"
    "js_files js1 = js_files js" "js_events js1 = js_events js" using b1 by simp_all
  show "in_session (bridge_of js1)" "table_ok (js_lib js1)" "seen lb (js_lib js1) = []"
    using check_starts [OF _ b1(1)] table_start [OF _ _ b1(1)] assms(1,2) b1(2) by simp_all
qed

lemma profile_first:
  assumes "detectorCount (stackContent (sampling (js_wd js))) = 0" and "collectCount (stackContent (sampling (js_wd js))) = 0"
    and "\<not> g_isDumpStack (sampling (js_wd js))" and "0 < n" and "still_slow i (js_wd js) (jk_ns jk)"
    and "rested (js_lib js)" and "printer (js_lib js) = None" and "jank_check lb jk js = (True, js1)"
    and "session_ok (js_lib js1) (BSample (jk_sample jk))"
  shows "profiling 1 (Lib_Sample lb (jk_sample jk) (bridge_of js1)) js (main_thread_run e lb jk i n js)"
proof -
  note p = profile_starts [OF assms(6-8)]
  have t: "CheckEventTimer (jk_ns jk) (reportBegin (stackContent (sampling (js_wd js))))
      (reportEnd (stackContent (sampling (js_wd js)))) i (sampling (js_wd js1))"
    using assms(5) by (simp add: still_slow_def p(4) CheckEventTimer_def Let_def)
  have "in_session (Lib_Sample lb (jk_sample jk) (bridge_of js1))"
    using session_step [OF p(1), of "BSample (jk_sample jk)" lb] assms(9) by simp
  moreover have "main_thread_run e lb jk i n js = upd_wd main_thread_tail (upd_wd (upd_stack (\<lambda>c. c\<lparr>collectCount := collectCount c + 1\<rparr>))
      (jank_sample lb jk js1))"
    using assms(1-4,8) t by (simp add: main_thread_run_def p(4) Let_def)
  ultimately show ?thesis
    using assms(1,2)
    by (simp add: profiling_def jank_sample_wd main_thread_tail_def DETECT_STACK_COUNT_def upd_stack_def jank_frame_def p(4-6)
        Lib_Sample_def in_session_def emit_def upd_sampling_def)
qed

text \<open>The event a profile reports, and the log it leaves.\<close>

definition jank_event_of :: "env \<Rightarrow> jank_in \<Rightarrow> string \<times> string \<Rightarrow> WatchdogInner \<Rightarrow> main_jank" where
  "jank_event_of e jk texts w =
     \<lparr>mj_version = bundleVersion w, mj_bundle = bundleName w,
      mj_begin = to_ms (reportBegin (stackContent (sampling w))), mj_end = to_ms (reportEnd (stackContent (sampling w))),
      mj_log = the (li_realPath (jk_log jk)) @ ''/'' @
        (if buissnessThreadInfo w = {} then ''MAIN_THREAD_JANK'' else ''BUSSINESS_THREAD_JANK'') @ ''_'' @ li_date (jk_log jk) @
        ''_'' @ show_int (getprocpid e) @ ''.txt'',
      mj_stack = fst texts, mj_level = 0, mj_thread = selfProcName e, mj_foreground = isForeground w,
      mj_logTime = to_ms (jk_log_ns jk), mj_appStart = jk_appStart jk, mj_heaviest = snd texts,
      mj_over = (MAX_FILE_SIZE \<le> li_folderSize (jk_log jk) + of_nat (length (fst texts)))\<rparr>"

lemma Write_result:
  assumes "log_ok li"
  shows "\<exists>removed. WriteStackToFd li pid stack nm =
    (True, Some (the (li_realPath li) @ ''/'' @ nm @ ''_'' @ li_date li @ ''_'' @ show_int pid @ ''.txt''),
     Some (MAX_FILE_SIZE \<le> li_folderSize li + of_nat (length stack)), removed,
     Some (the (li_realPath li) @ ''/'' @ nm @ ''_'' @ li_date li @ ''_'' @ show_int pid @ ''.txt'',
           if sv_written (li_save li) then stack else []))"
  using assms
  by (auto simp: log_ok_def WriteStackToFd_def SaveStringToFile_def ClearFreezeFileIfNeed_def Let_def not_less
      split: prod.splits option.splits if_splits)

lemma profile_last:
  fixes lb :: sampler_lib
  assumes "profiling n b js0 js" and "0 < n" and "table_ok (br_lib b)" and "log_ok (jk_log jk)" and "HISYSEVENT_ENABLE e"
  defines "mj \<equiv> jank_event_of e jk (tree_texts lb (timeStampedPcsList (ProcessStackBuffer lb (jk_clk jk) (br_lib b)))) (js_wd js0)"
  shows "isMainThreadStackEnabled (sampling (js_wd (main_thread_run e lb jk i n js)))"
    and "js_events (main_thread_run e lb jk i n js) = js_events js0 @ [MainThreadJank mj]"
    and "js_files (main_thread_run e lb jk i n js) = js_files js0 @
      [(mj_log mj, if sv_written (li_save (jk_log jk)) then mj_stack mj else [])]"
proof -
  define js1 where "js1 = upd_wd (upd_sampling (\<lambda>s. s\<lparr>g_isDumpStack := False\<rparr>)) js"
  define nm where "nm = (if buissnessThreadInfo (js_wd js0) = {} then ''MAIN_THREAD_JANK'' else ''BUSSINESS_THREAD_JANK'')"
  have j1: "bridge_of js1 = b\<lparr>br_flags := (sampling (js_wd js))\<lparr>g_isDumpStack := False\<rparr>, br_result := js_result js\<rparr>"
    "jank_frame (js_wd js1) = jank_frame (js_wd js0)" "js_files js1 = js_files js0" "js_events js1 = js_events js0"
    using assms(1) by (simp_all add: js1_def bridge_of_def upd_wd_def profiling_def jank_frame_def upd_sampling_def)
  then have s1: "in_session (bridge_of js1)" "table_ok (js_lib js1)" "js_lib js1 = br_lib b"
    using assms(1,3) by (simp_all add: js1_def profiling_def in_session_def)
  obtain c b2 where c: "Inner_CollectStack lb (jk_clk jk) (jk_wchan jk) 1 (bridge_of js1) = (c, b2)" by fastforce
  then have f: "br_flags b2 = sampling (js_wd js1)"
    using Inner_CollectStack_keeps [of lb "jk_clk jk" "jk_wchan jk" 1 "bridge_of js1"] by simp
  obtain st hv where texts: "tree_texts lb (timeStampedPcsList (ProcessStackBuffer lb (jk_clk jk) (br_lib b))) = (st, hv)"
    by fastforce
  have t: "(case c of Some texts \<Rightarrow> texts | None \<Rightarrow> ([], [])) = (st, hv)"
    using session_tree [OF s1(1), of lb "jk_clk jk" "jk_wchan jk"] s1(2,3) by (simp add: c texts)
  have nm: "(if CheckBusinessEmpty (js_wd js1) then ''MAIN_THREAD_JANK'' else ''BUSSINESS_THREAD_JANK'') = nm"
    using j1(2) by (simp add: nm_def CheckBusinessEmpty_def jank_frame_def)
  have w: "bundleVersion (js_wd js1) = bundleVersion (js_wd js0)" "bundleName (js_wd js1) = bundleName (js_wd js0)"
    "isForeground (js_wd js1) = isForeground (js_wd js0)"
    "reportBegin (stackContent (sampling (js_wd js1))) = reportBegin (stackContent (sampling (js_wd js0)))"
    "reportEnd (stackContent (sampling (js_wd js1))) = reportEnd (stackContent (sampling (js_wd js0)))"
    using j1(2) by (simp_all add: jank_frame_def)
  obtain removed where wr: "WriteStackToFd (jk_log jk) (getprocpid e) st nm =
      (True, Some (mj_log mj), Some (mj_over mj), removed, Some (mj_log mj, if sv_written (li_save (jk_log jk)) then mj_stack mj else []))"
    using Write_result [OF assms(4), of "getprocpid e" "st" nm]
    by (auto simp: mj_def jank_event_of_def nm_def texts)
  have lit: "\<lparr>mj_version = bundleVersion (js_wd js0), mj_bundle = bundleName (js_wd js0),
      mj_begin = to_ms (reportBegin (stackContent (sampling (js_wd js0)))),
      mj_end = to_ms (reportEnd (stackContent (sampling (js_wd js0)))), mj_log = mj_log mj, mj_stack = st, mj_level = 0,
      mj_thread = selfProcName e, mj_foreground = isForeground (js_wd js0), mj_logTime = to_ms (jk_log_ns jk),
      mj_appStart = jk_appStart jk, mj_heaviest = hv, mj_over = mj_over mj\<rparr> = mj"
    by (simp add: mj_def jank_event_of_def texts)
  have r: "js_events (Jank_Report e lb jk nm False False js1) = js_events js0 @ [MainThreadJank mj]"
    "js_files (Jank_Report e lb jk nm False False js1) = js_files js0 @
      [(mj_log mj, if sv_written (li_save (jk_log jk)) then mj_stack mj else [])]"
    using assms(5) by (simp_all add: Jank_Report_def c t wr j1(3,4) f w lit)
  have m: "main_thread_run e lb jk i n js = upd_wd (upd_sampling (\<lambda>s. s\<lparr>isMainThreadStackEnabled := True\<rparr>))
      (upd_wd (upd_stack (\<lambda>c. c\<lparr>reportTimes := reportTimes c - 1\<rparr>)) (Jank_Report e lb jk nm False False js1))"
    using assms(1,2) nm by (simp add: main_thread_run_def profiling_def js1_def Let_def)
  show "isMainThreadStackEnabled (sampling (js_wd (main_thread_run e lb jk i n js)))"
    "js_events (main_thread_run e lb jk i n js) = js_events js0 @ [MainThreadJank mj]"
    "js_files (main_thread_run e lb jk i n js) = js_files js0 @
      [(mj_log mj, if sv_written (li_save (jk_log jk)) then mj_stack mj else [])]"
    using r by (simp_all add: m)
qed

text \<open>
  C15. The profile of a slow main thread, from a sampler at rest that no other feature has left loaded and whose ring indices agree, with the
  signals that come between the runs of its closure: when the thread stays slow for
  \<open>n\<close> runs, the next one ends the profile with exactly one event. Its tree and its heaviest stack
  are those of the table with exactly one stack for every signal answered, in the order of the signals, each with the
  time of its signal and with what the unwinder makes of the registers and the bytes of the stack at it; it
  names the log, which holds the same text if it could be written. Without a single signal answered both are
  empty, but the event is still sent.
\<close>

theorem jank_event_holds_samples:
  fixes lb :: sampler_lib and js js1 :: jank_state and e :: env
  assumes "rested (js_lib js)" and "printer (js_lib js) = None" and "\<not> g_isDumpStack (sampling (js_wd js))"
    and "detectorCount (stackContent (sampling (js_wd js))) = 0" and "collectCount (stackContent (sampling (js_wd js))) = 0"
    and "jank_check lb jk js = (True, js1)"
    and "n = int (length (concat (map tick_ns (JTick jk # evs))))"
    and "list_all (still_slow i (js_wd js)) (concat (map tick_ns (JTick jk # evs)))"
    and "list_all (session_ok (js_lib js1)) (map jank_call_of (JTick jk # evs))"
    and "log_ok (jk_log jl)" and "HISYSEVENT_ENABLE e"
  defines "calls \<equiv> map jank_call_of (JTick jk # evs)"
  defines "snaps \<equiv> timeStampedPcsList (ProcessStackBuffer lb (jk_clk jl) (br_lib (fold (bridge_exec lb) calls (bridge_of js1))))"
  defines "js' \<equiv> fold (jank_exec e lb i n) (JTick jk # evs @ [JTick jl]) js"
  defines "mj \<equiv> jank_event_of e jl (tree_texts lb snaps) (js_wd js)"
  shows "isMainThreadStackEnabled (sampling (js_wd js')) \<and> snaps = shots lb calls (bridge_of js1) \<and>
    js_events js' = js_events js @ [MainThreadJank mj] \<and>
    js_files js' = js_files js @ [(mj_log mj, if sv_written (li_save (jk_log jl)) then mj_stack mj else [])]"
proof -
  let ?b1 = "bridge_of js1" and ?f1 = "main_thread_run e lb jk i n js"
  note p = profile_starts [OF assms(1,2,6)]
  have n: "0 < n" "1 + int (length (concat (map tick_ns evs))) = n" using assms(7) by simp_all
  have ok: "session_ok (js_lib js1) (BSample (jk_sample jk))" using assms(9) by simp
  have 1: "profiling 1 (Lib_Sample lb (jk_sample jk) ?b1) js ?f1"
    by (rule profile_first) (use assms(1-6,8) n(1) ok in simp_all)
  have bb: "bounds (br_lib (Lib_Sample lb (jk_sample jk) ?b1)) = bounds (br_lib ?b1)"
    using session_step [OF p(1), of "BSample (jk_sample jk)" lb] ok by simp
  have l: "list_all (session_ok (br_lib (Lib_Sample lb (jk_sample jk) ?b1))) (map jank_call_of evs)"
    using assms(9) by (simp add: list_all_iff session_bounds [OF bb])
  from profiling_run [OF 1 _ _ _ l, where n = n and i = i and e = e] n(2) assms(8)
  have g: "profiling n (fold (bridge_exec lb) calls ?b1) js (fold (jank_exec e lb i n) evs ?f1)" by (simp add: calls_def)
  have a: "list_all (session_ok (br_lib ?b1)) calls" using assms(9) by (simp add: calls_def)
  have tab: "table_ok (br_lib (fold (bridge_exec lb) calls ?b1))" by (rule table_run [OF p(1) _ a]) (simp add: p(2))
  have s: "in_session (fold (bridge_exec lb) calls ?b1)" "seen lb (br_lib (fold (bridge_exec lb) calls ?b1)) = shots lb calls ?b1"
    using session_run [OF p(1) a, of lb] p(3) by simp_all
  have z: "(0 :: int) \<noteq> 1" by simp
  have "snaps = shots lb calls ?b1"
    using session_text(1) [OF s(1) z, of lb "jk_clk jl"] s(2) by (simp add: snaps_def)
  moreover have "js' = main_thread_run e lb jl i n (fold (jank_exec e lb i n) evs ?f1)" by (simp add: js'_def)
  ultimately show ?thesis
    using profile_last [OF g n(1) tab assms(10,11), where i = i] by (simp add: mj_def snaps_def)
qed

definition demo_log :: log_in where
  "demo_log = \<lparr>li_exists = True, li_acl = True, li_folderSize = 0, li_freeze = None, li_watchdog = None, li_date = ''d'',
     li_realPath = Some ''/log'', li_save = \<lparr>sv_open = True, sv_fdopen = True, sv_written = True\<rparr>\<rparr>"

definition demo_jank_in :: jank_in where
  "demo_jank_in = \<lparr>jk_dl = DlOk, jk_has_result = False, jk_install = True, jk_init = demo_init,
     jk_sample = \<lparr>sa_ts = 3, sa_queued = True, sa_clk = (\<lambda>_. 9), sa_end = 9\<rparr>, jk_ns = 400000000, jk_clk = (\<lambda>_. 9),
     jk_wchan = [], jk_log = demo_log, jk_log_ns = 7, jk_appStart = 1\<rparr>"

text \<open>An event of the looper that began at 2 ns and is not over.\<close>

definition demo_jank :: jank_state where
  "demo_jank = \<lparr>js_wd = WatchdogInner_init\<lparr>sampling := Sampling_init\<lparr>timeContent := \<lparr>curBegin = 2, curEnd = 0\<rparr>\<rparr>\<rparr>,
     js_lib = ThreadSampler_init, js_result = \<lparr>samplerStartTime = 0, samplerFinishTime = 0, samplerCount = 0\<rparr>,
     js_files = [], js_events = []\<rparr>"

lemma demo_jank_start:
  "jank_check demo_lib demo_jank_in demo_jank = (True, snd (jank_check demo_lib demo_jank_in demo_jank))"
  "bounds (js_lib (snd (jank_check demo_lib demo_jank_in demo_jank))) = (1000, 2000)"
  by (simp_all add: jank_check_def bridge_of_def set_bridge_def demo_jank_def demo_jank_in_def
      Lib_CheckThreadSampler_def Lib_InitThreadSamplerFuncs_def InitThreadSamplerFuncs_def ThreadSamplerInit_def Sampler_Init_def
      InitRecordBuffer_def InitUnwinder_def InitStackPrinter_def demo_init_def COLLECT_STACK_COUNT_def ThreadSampler_init_def bounds_def)

theorem jank_event_holds_samples_witness:
  "\<exists>mj. js_events (fold (jank_exec service_env demo_lib 150 1)
     [JTick demo_jank_in, JSignal (demo_signal 4), JTick demo_jank_in] demo_jank) = [MainThreadJank mj] \<and>
     mj_log mj = ''/log/MAIN_THREAD_JANK_d_'' @ show_int 4321 @ ''.txt''"
proof -
  define js1 where "js1 = snd (jank_check demo_lib demo_jank_in demo_jank)"
  note j = demo_jank_start [folded js1_def]
  have ok: "list_all (session_ok (js_lib js1)) (map jank_call_of (JTick demo_jank_in # [JSignal (demo_signal 4)]))"
    using j(2) by (simp add: demo_jank_in_def demo_signal_def on_stack_def bounds_def)
  have slow: "list_all (still_slow 150 (js_wd demo_jank)) (concat (map tick_ns (JTick demo_jank_in # [JSignal (demo_signal 4)])))"
    by (simp add: still_slow_def CheckEventTimer_def demo_jank_def demo_jank_in_def Sampling_init_def StackContent_init_def
        MILLISEC_TO_NANOSEC_def Let_def)
  have z: "rested (js_lib demo_jank)" "printer (js_lib demo_jank) = None" "\<not> g_isDumpStack (sampling (js_wd demo_jank))"
    "detectorCount (stackContent (sampling (js_wd demo_jank))) = 0" "collectCount (stackContent (sampling (js_wd demo_jank))) = 0"
    "js_events demo_jank = []" "buissnessThreadInfo (js_wd demo_jank) = {}" "HISYSEVENT_ENABLE service_env"
    "log_ok (jk_log demo_jank_in)" "jk_log demo_jank_in = demo_log" "getprocpid service_env = 4321"
    by (simp_all add: demo_jank_def rested_def ThreadSampler_init_def Sampling_init_def StackContent_init_def WatchdogInner_init_def
        service_env_def log_ok_def WriteStackToFd_def CreateDir_def ClearFreezeFileIfNeed_def MAX_FILE_SIZE_def SaveStringToFile_def
        demo_jank_in_def demo_log_def Let_def)
  show ?thesis
    using jank_event_holds_samples [OF z(1-5) j(1) _ slow ok z(9,8), of 1] z
    by (simp add: jank_event_of_def demo_log_def)
qed

end
