(* ===== verification/Sampler_Sharing.thy ===== *)
theory Sampler_Sharing
  imports Watchdog_Stop Jank_Session
begin

text \<open>
  One sampler, several features: the start-up and the scrolling of an application, its main thread and a freeze are all sampled by
  the one sampler of the process. The closures of \<^verbatim>\<open>watchdog_inner.cpp\<close> share it by the flag \<^verbatim>\<open>g_isDumpStack\<close>, which stands
  for the feature that samples, and by \<^verbatim>\<open>g_isReuseStack\<close>. This theory studies their interleavings: who may hold the sampler, and
  what becomes of it when a client stops a sampling at the wrong moment, when a finished task is served again, and when the profile
  of the main thread begins late.
\<close>

section \<open>The features\<close>

datatype feature = FStart | FStartScroll | FScroll | FMain | FFreeze

fun feature_of :: "task_fn option \<Rightarrow> feature option" where
  "feature_of (Some (AppStartSampleTask tid scroll)) = Some (if scroll then FStartScroll else FStart)"
| "feature_of (Some (ScrollSampleTask i tid)) = Some FScroll"
| "feature_of (Some (MainThreadSampleTask i n tid)) = Some FMain"
| "feature_of (Some (FreezeSampleTask pid target)) = Some FFreeze"
| "feature_of _ = None"

fun feature_name :: "feature \<Rightarrow> string" where
  "feature_name FStart = APP_START_SAMPLE"
| "feature_name FStartScroll = APP_START_SAMPLE"
| "feature_name FScroll = STACK_CHECKER"
| "feature_name FMain = STACK_CHECKER"
| "feature_name FFreeze = FREEZE_SAMPLE"

text \<open>A feature has not looked at the sampler yet; it is done, so that its task will be taken from the queue; it is sampling.\<close>

fun unstarted :: "feature \<Rightarrow> Sampling \<Rightarrow> bool" where
  "unstarted FStart s = (as_collectCount (startSlowContent s) = 0)"
| "unstarted FStartScroll s = (as_collectCount (scrollSlowContent s) = 0)"
| "unstarted FScroll s = (g_scrollSampleCount s = 0)"
| "unstarted FMain s = (detectorCount (stackContent s) = 0 \<and> collectCount (stackContent s) = 0)"
| "unstarted FFreeze s = (g_freezeSampleCount s = 0)"

fun is_done :: "string \<Rightarrow> Sampling \<Rightarrow> bool" where
  "is_done nm s =
     (if nm = STACK_CHECKER then isMainThreadStackEnabled s
      else if nm = APP_START_SAMPLE then isFinishStartSample (startSlowContent s) \<or> isFinishStartSample (scrollSlowContent s)
      else if nm = FREEZE_SAMPLE then g_freezeTaskFinished s else False)"

definition busy :: "feature \<Rightarrow> Sampling \<Rightarrow> bool" where
  "busy k s \<longleftrightarrow> \<not> unstarted k s \<and> \<not> is_done (feature_name k) s"

section \<open>Starting\<close>

text \<open>What a start may do to the counters and flags: no more than set counters back.\<close>

definition share_flags :: "Sampling \<Rightarrow> bool list" where
  "share_flags s = [g_isDumpStack s, g_isReuseStack s, samplerFuncs s, isMainThreadStackEnabled s, g_freezeTaskFinished s,
     isFinishStartSample (startSlowContent s), isFinishStartSample (scrollSlowContent s)]"

definition counters_of :: "Sampling \<Rightarrow> int list" where
  "counters_of s = [as_collectCount (startSlowContent s), as_collectCount (scrollSlowContent s), g_scrollSampleCount s,
     detectorCount (stackContent s), collectCount (stackContent s), g_freezeSampleCount s]"

definition zeroed :: "Sampling \<Rightarrow> Sampling \<Rightarrow> bool" where
  "zeroed s s' \<longleftrightarrow> share_flags s' = share_flags s \<and> list_all2 (\<lambda>n' n. n' = n \<or> n' = 0) (counters_of s') (counters_of s)"

lemmas share_defs = zeroed_def share_flags_def counters_of_def

lemma zeroed_trans:
  assumes "zeroed s s'" and "zeroed s' s''"
  shows "zeroed s s''"
proof -
  have "list_all2 (\<lambda>n' n. n' = n \<or> n' = 0) (counters_of s'') (counters_of s)"
    by (rule list_all2_trans [of "\<lambda>n' n. n' = n \<or> n' = 0" "\<lambda>n' n. n' = n \<or> n' = 0" _ _ "counters_of s'"])
      (use assms in \<open>auto simp: zeroed_def\<close>)
  then show ?thesis using assms by (simp add: zeroed_def)
qed

lemma zeroed_refl [simp]: "zeroed s s"
  by (simp add: share_defs)

lemma zeroed_unstarted: "zeroed s s' \<Longrightarrow> unstarted k s \<Longrightarrow> unstarted k s'"
  by (cases k) (simp_all add: share_defs)

lemma same_unstarted: "counters_of s' = counters_of s \<Longrightarrow> unstarted k s' = unstarted k s"
  by (cases k) (simp_all add: counters_of_def)

lemma zeroed_done: "zeroed s s' \<Longrightarrow> is_done nm s' = is_done nm s"
  by (auto simp: share_defs)

lemma zeroed_busy: "zeroed s s' \<Longrightarrow> busy k s' \<Longrightarrow> busy k s"
  using zeroed_unstarted [of s s' k] zeroed_done [of s s' "feature_name k"] by (auto simp: busy_def)

lemma UpdateAppStart_keeps:
  "as_collectCount (UpdateAppStartContent kv c) = as_collectCount c \<and> isFinishStartSample (UpdateAppStartContent kv c) = isFinishStartSample c"
  by (simp add: UpdateAppStartContent_def Let_def split: option.split)

lemma zeroed_Parse: "zeroed s (ParseAppStartParams line nm s)"
  by (simp add: ParseAppStartParams_def Let_def share_defs UpdateAppStart_keeps)

lemma zeroed_Read_loop: "zeroed s (ReadAppStartConfig_loop ls s)"
proof (induction ls arbitrary: s)
  case (Cons l ls)
  show ?case
    using Cons.IH [of s] zeroed_trans [OF zeroed_Parse Cons.IH] by simp
qed simp

lemma zeroed_Read: "zeroed s (ReadAppStartConfig e s)"
  by (simp add: ReadAppStartConfig_def zeroed_Read_loop split: option.split)

lemma zeroed_Insert: "zeroed (sampling w) (sampling (snd (InsertWatchdogTaskLocked e nm t w)))"
  by (simp add: InsertWatchdogTaskLocked_def CreateWatchdogThreadIfNeed_def Let_def zeroed_Read)

text \<open>The samples taken so far.\<close>

definition samples :: "WatchdogInner \<Rightarrow> nat" where
  "samples w = length (filter (\<lambda>x. x = ESample) (out w))"

definition new_tasks :: "WatchdogInner \<Rightarrow> WatchdogInner \<Rightarrow> WatchdogTask set" where
  "new_tasks w w' = set (checkerQueue w') - set (checkerQueue w)"

definition queued_features :: "WatchdogInner \<Rightarrow> WatchdogInner \<Rightarrow> feature set" where
  "queued_features w w' = {k. \<exists>t \<in> new_tasks w w'. feature_of (task_task t) = Some k}"

text \<open>A start: the features it registers are new, have not begun and have names that were free.\<close>

definition starts :: "WatchdogInner \<Rightarrow> WatchdogInner \<Rightarrow> bool" where
  "starts w w' \<longleftrightarrow> zeroed (sampling w) (sampling w') \<and> set (checkerQueue w) \<subseteq> set (checkerQueue w') \<and>
     taskNameSet w \<subseteq> taskNameSet w' \<and>
     (\<forall>k \<in> queued_features w w'. unstarted k (sampling w') \<and> feature_name k \<in> taskNameSet w' - taskNameSet w) \<and>
     inj_on feature_name (queued_features w w') \<and> samples w' = samples w"

lemma samples_emit [simp]: "samples (emit x w) = samples w + of_bool (x = ESample)"
  by (simp add: samples_def emit_def)

lemma samples_upd [simp]: "samples (upd_sampling f w) = samples w" "samples (w\<lparr>sampling := s\<rparr>) = samples w"
  "samples (upd_stack g w) = samples w" "samples (upd_trace h w) = samples w" "samples (w\<lparr>curId := i\<rparr>) = samples w"
  by (simp_all add: samples_def upd_sampling_def upd_stack_def upd_trace_def)

lemma samples_Create: "samples (CreateWatchdogThreadIfNeed e w) = samples w"
  by (simp add: CreateWatchdogThreadIfNeed_def Let_def samples_def emit_def)

lemma samples_Insert: "samples (snd (InsertWatchdogTaskLocked e nm t w)) = samples w"
proof -
  have "samples (CreateWatchdogThreadIfNeed e v) = samples w" if "out v = out w" for v
    using samples_Create [of e v] that by (simp add: samples_def)
  then show ?thesis by (simp add: InsertWatchdogTaskLocked_def Let_def)
qed

lemma queued_same: "set (checkerQueue w') = set (checkerQueue w) \<Longrightarrow> queued_features w w' = {}"
  by (simp add: queued_features_def new_tasks_def)

lemma starts_same:
  assumes "zeroed (sampling w) (sampling w')" and "checkerQueue w' = checkerQueue w" and "taskNameSet w' = taskNameSet w"
    and "samples w' = samples w"
  shows "starts w w'"
  using assms by (simp add: starts_def queued_same)

lemma starts_refl [simp]: "starts w w"
  by (rule starts_same) simp_all

lemma starts_trans:
  assumes "starts w w'" and "starts w' w''"
  shows "starts w w''"
proof -
  have "new_tasks w w'' \<subseteq> new_tasks w w' \<union> new_tasks w' w''" by (auto simp: new_tasks_def)
  then have q: "queued_features w w'' \<subseteq> queued_features w w' \<union> queued_features w' w''" by (auto simp: queued_features_def)
  have z: "zeroed (sampling w) (sampling w'')" "zeroed (sampling w') (sampling w'')"
    using assms zeroed_trans by (auto simp: starts_def)
  have a: "unstarted k (sampling w'') \<and> feature_name k \<in> taskNameSet w' - taskNameSet w" if "k \<in> queued_features w w'" for k
    using assms(1) that zeroed_unstarted [OF z(2)] by (auto simp: starts_def)
  have b: "unstarted k (sampling w'') \<and> feature_name k \<in> taskNameSet w'' - taskNameSet w'" if "k \<in> queued_features w' w''" for k
    using assms(2) that by (auto simp: starts_def)
  have n: "taskNameSet w \<subseteq> taskNameSet w'" "taskNameSet w' \<subseteq> taskNameSet w''" using assms by (auto simp: starts_def)
  have i: "inj_on feature_name (queued_features w w')" "inj_on feature_name (queued_features w' w'')"
    using assms by (simp_all add: starts_def)
  have "inj_on feature_name (queued_features w w' \<union> queued_features w' w'')"
  proof (rule inj_onI)
    fix x y assume xy: "x \<in> queued_features w w' \<union> queued_features w' w''" "y \<in> queued_features w w' \<union> queued_features w' w''"
      and e: "feature_name x = feature_name y"
    show "x = y" using xy e a [of x] a [of y] b [of x] b [of y] inj_onD [OF i(1) e] inj_onD [OF i(2) e] by auto
  qed
  then have "inj_on feature_name (queued_features w w'')" using inj_on_subset q by blast
  moreover have "unstarted k (sampling w'') \<and> feature_name k \<in> taskNameSet w'' - taskNameSet w" if "k \<in> queued_features w w''" for k
  proof -
    have "k \<in> queued_features w w' \<or> k \<in> queued_features w' w''" using that q by blast
    then show ?thesis using a [of k] b [of k] n by blast
  qed
  moreover have "set (checkerQueue w) \<subseteq> set (checkerQueue w'')" "samples w'' = samples w"
    using assms by (auto simp: starts_def)
  ultimately show ?thesis using z(1) n unfolding starts_def by blast
qed

lemma starts_insert:
  assumes "zeroed (sampling w) (sampling w0)" and "checkerQueue w0 = checkerQueue w" and "taskNameSet w0 = taskNameSet w"
    and "samples w0 = samples w" and "\<not> isOneshotTask t"
    and "\<And>k. feature_of (task_task t) = Some k \<Longrightarrow> nm = feature_name k \<and> unstarted k (sampling w0)"
  shows "starts w (snd (InsertWatchdogTaskLocked e nm t w0))"
proof (cases "insert_refused nm t w0")
  case True
  then show ?thesis using assms by (simp add: Insert_refused starts_same)
next
  case False
  note i = Insert_accepted [OF False]
  let ?w' = "snd (InsertWatchdogTaskLocked e nm t w0)"
  have "set (checkerQueue ?w') = insert t (set (checkerQueue w))"
    by (simp add: i(2) assms(2) flip: set_mset_mset)
  then have q: "new_tasks w ?w' \<subseteq> {t}" "set (checkerQueue w) \<subseteq> set (checkerQueue ?w')" by (auto simp: new_tasks_def)
  then have f: "queued_features w ?w' \<subseteq> {k. feature_of (task_task t) = Some k}" by (auto simp: queued_features_def)
  have "x = y" if "x \<in> queued_features w ?w'" "y \<in> queued_features w ?w'" for x y
  proof -
    have "feature_of (task_task t) = Some x" "feature_of (task_task t) = Some y" using that f by auto
    then show ?thesis by simp
  qed
  then have "inj_on feature_name (queued_features w ?w')" by (intro inj_onI) blast
  moreover have "unstarted k (sampling ?w') \<and> feature_name k \<in> taskNameSet ?w' - taskNameSet w" if "k \<in> queued_features w ?w'" for k
  proof -
    have "nm = feature_name k" "unstarted k (sampling w0)" using that f assms(6) by auto
    then show ?thesis
      using zeroed_unstarted [OF zeroed_Insert, of k w0 e nm t] False assms(3,5) i(3) by (simp add: insert_refused_def)
  qed
  moreover have "zeroed (sampling w) (sampling ?w')" using zeroed_trans [OF assms(1) zeroed_Insert] .
  ultimately show ?thesis
    using q(2) assms(3-5) by (auto simp: starts_def i(3) samples_Insert)
qed

lemma starts_insert_task:
  assumes "zeroed (sampling w) (sampling w0)" and "checkerQueue w0 = checkerQueue w" and "taskNameSet w0 = taskNameSet w"
    and "samples w0 = samples w"
    and "\<And>k. feature_of (Some tsk) = Some k \<Longrightarrow> nm = feature_name k \<and> unstarted k (sampling w0)"
  shows "starts w (snd (insert_task e st nm tsk i w0))"
  unfolding insert_task_def new_id_def Let_def split_beta
  by (rule starts_insert) (use assms in \<open>simp_all add: task_constructors\<close>)

section \<open>The calls that start a sampling\<close>

lemma zeroed_content:
  "(\<And>c. (as_collectCount (f c) = as_collectCount c \<or> as_collectCount (f c) = 0) \<and> isFinishStartSample (f c) = isFinishStartSample c) \<Longrightarrow>
   zeroed s (upd_content scroll f s)"
  by (auto simp: share_defs upd_content_def)

lemma zeroed_Detect: "zeroed s (snd (SampleStackDetect e pr t u i scroll st s))"
  by (simp add: SampleStackDetect_def Let_def share_defs set_times_member_def)

lemma starts_AppStart: "starts w (snd (AppStartSample e st scroll w))"
  unfolding AppStartSample_def new_id_def Let_def split_beta snd_conv
  by (rule starts_insert)
    (simp_all add: share_defs task_constructors upd_content_def split: if_splits)

lemma starts_upd_content:
  "(\<And>c. as_collectCount (f c) = as_collectCount c \<and> isFinishStartSample (f c) = isFinishStartSample c) \<Longrightarrow>
   starts w (upd_sampling (upd_content scroll f) w)"
  by (rule starts_same) (simp_all add: zeroed_content)

lemma starts_EnableAppStart: "starts w (snd (EnableAppStartSample e st pr scroll d w))"
  by (simp add: EnableAppStartSample_def Let_def starts_AppStart starts_upd_content)

lemma starts_Scroll: "starts w (snd (StartScrollProfile e st pr endT i w))"
proof -
  obtain ok s1 where d: "SampleStackDetect e pr endT SAMPLE_DEFAULT_REPORT_TIMES 10 True (watchdogStartTime w) (sampling w) = (ok, s1)"
    by fastforce
  then have z: "zeroed (sampling w) s1" using zeroed_Detect [of "sampling w"] by (metis snd_conv)
  then have "zeroed (sampling w) (sampling (w\<lparr>sampling := s1\<lparr>g_scrollSampleCount := 0\<rparr>\<rparr>))" by (auto simp: share_defs)
  then have "starts w (snd (insert_task e st STACK_CHECKER (ScrollSampleTask i tid) i (w\<lparr>sampling := s1\<lparr>g_scrollSampleCount := 0\<rparr>\<rparr>)))" for tid
    by (rule starts_insert_task) auto
  moreover have "starts w (w\<lparr>sampling := s1\<rparr>)" using z by (intro starts_same) simp_all
  ultimately show ?thesis by (simp add: StartScrollProfile_def d Let_def split: bool.split)
qed

lemma starts_CheckSample: "starts w (snd (CheckSample e st pr endT d w))"
proof -
  obtain r w1 where r: "EnableAppStartSample e st pr True d w = (r, w1)" by fastforce
  then have "starts w w1" using starts_EnableAppStart [of w e st pr True d] by simp
  then show ?thesis
    using starts_trans [OF _ starts_Scroll, of w w1] starts_EnableAppStart [of w e st pr False d]
    by (simp add: CheckSample_def r split: bool.split)
qed

lemma starts_ProfileMain: "starts w (StartProfileMainThread e st pr endT i w)"
proof -
  obtain ok s1 where d: "SampleStackDetect e pr endT (jank KEY_SAMPLE_REPORT_TIMES (sampling w))
      (jank KEY_IGNORE_STARTUP_TIME (sampling w)) False (watchdogStartTime w) (sampling w) = (ok, s1)" by fastforce
  then have z: "zeroed (sampling w) s1" using zeroed_Detect [of "sampling w"] by (metis snd_conv)
  define w1 where "w1 = upd_stack (\<lambda>c. c\<lparr>detectorCount := 0, collectCount := 0\<rparr>) (w\<lparr>sampling := s1\<rparr>)"
  have "zeroed (sampling w) (sampling w1)" using z by (auto simp: share_defs w1_def upd_stack_def)
  then have "starts w (snd (insert_task e st STACK_CHECKER (MainThreadSampleTask i n tid) i w1))" for n tid
    by (rule starts_insert_task) (auto simp: w1_def upd_stack_def)
  moreover have "starts w (w\<lparr>sampling := s1\<rparr>)" using z by (intro starts_same) simp_all
  ultimately show ?thesis by (simp add: StartProfileMainThread_def d w1_def Let_def split: bool.split)
qed

lemma starts_Trace: "starts w (CollectTraceDetect e st pr endT w)"
proof -
  define w0 where "w0 = upd_trace (\<lambda>c. c\<lparr>traceState := 1, tr_reportBegin := curBegin (timeContent (sampling w)),
             tr_reportEnd := curEnd (timeContent (sampling w)), tr_lastEndTime := endT\<rparr>) w"
  define w1 where "w1 = upd_trace (\<lambda>c. c\<lparr>dumpCount := 0, traceCount := 0\<rparr>)
      (emit EStartTrace (upd_sampling (\<lambda>s. s\<lparr>xcollieFfrtTask := True\<rparr>) w0))"
  have "starts w (snd (insert_task e st TRACE_CHECKER TraceTask DURATION_TIME w1))"
    by (rule starts_insert_task) (auto simp: w1_def w0_def upd_trace_def share_defs)
  moreover have "starts w (upd_trace (\<lambda>c. c\<lparr>traceState := 0\<rparr>) w0)"
    by (rule starts_same) (auto simp: w0_def upd_trace_def share_defs)
  ultimately show ?thesis
    by (simp add: CollectTraceDetect_def StartTraceProfile_def w0_def [symmetric] w1_def [symmetric] Let_def split_beta)
qed

lemma starts_SampleStart: "starts w (snd (StartSample e st date d i w))"
proof -
  let ?w1 = "upd_sampling (\<lambda>s. s\<lparr>g_freezeSampleCount := 0\<rparr>) w"
  have "starts w (snd (insert_task e st FREEZE_SAMPLE (FreezeSampleTask p n) i ?w1))" for p n
    by (rule starts_insert_task) (auto simp: share_defs)
  moreover have "starts v (upd_sampling (\<lambda>s. s\<lparr>sampleFreezeInfo := (sampleFreezeInfo s)\<lparr>currentFile := f\<rparr>\<rparr>) v)" for v f
    by (rule starts_same) (auto simp: share_defs)
  ultimately have "starts w (upd_sampling (\<lambda>s. s\<lparr>sampleFreezeInfo := (sampleFreezeInfo s)\<lparr>currentFile := f\<rparr>\<rparr>)
      (snd (insert_task e st FREEZE_SAMPLE (FreezeSampleTask p n) i ?w1)))"
    "starts w (snd (insert_task e st FREEZE_SAMPLE (FreezeSampleTask p n) i ?w1))" for p n f
    using starts_trans by blast+
  then show ?thesis by (simp add: StartSample_def Let_def split_beta split: sum.split)
qed

fun is_start :: "client \<Rightarrow> bool" where
  "is_start (LoopStart ns) = True"
| "is_start (LoopEnd st pr ns startT endT) = True"
| "is_start (SampleStart st date duration interval) = True"
| "is_start _ = False"

text \<open>
  Whatever the hooks of the main looper and a request for a freeze sampling register has counters that were set back before, and
  a name that was free.
\<close>

theorem client_starts: "is_start c \<Longrightarrow> starts w (client_exec e c w)"
proof (cases c)
  case (LoopStart ns)
  then show ?thesis by (auto simp: DistributeStart_def share_defs intro: starts_same)
next
  case (LoopEnd st pr ns startT endT)
  let ?w1 = "upd_sampling (\<lambda>s. s\<lparr>timeContent := (timeContent s)\<lparr>curEnd := ns\<rparr>\<rparr>) w"
  obtain r w2 where r: "CheckSample e st pr endT (to_ms (endT - startT)) ?w1 = (r, w2)" by fastforce
  have "starts w ?w1" by (rule starts_same) (simp_all add: share_defs)
  then have 2: "starts w w2" using starts_trans starts_CheckSample [of ?w1 e st pr endT "to_ms (endT - startT)"] r by simp
  show ?thesis
    using LoopEnd 2 starts_trans [OF 2 starts_ProfileMain] starts_trans [OF 2 starts_Trace]
    by (simp add: DistributeEnd_def r Let_def split: bool.split)
qed (simp_all add: starts_SampleStart)

section \<open>The interleavings\<close>

text \<open>
  The features whose tasks are registered, and the state. A step is a start by the main looper or a client, a run of a
  registered closure that is not done, or that is done and served again while no feature samples, the removal of a task that is done,
  a stop by a client that comes while the freeze is sampled or that does not ask for as many samples as were taken, or anything
  else that leaves the flags and counters of the features alone and may take tasks away. What is left out is the stop that
  comes when no freeze is sampled, and the finished task that is served again while another feature samples.
\<close>

inductive share_step :: "env \<Rightarrow> feature set \<times> WatchdogInner \<Rightarrow> feature set \<times> WatchdogInner \<Rightarrow> bool" for e where
  look: "is_start c \<Longrightarrow> w' = client_exec e c w \<Longrightarrow> share_step e (R, w) (R \<union> queued_features w w', w')"
| run: "k \<in> R \<Longrightarrow> feature_of (Some f) = Some k \<Longrightarrow> \<not> is_done (feature_name k) (sampling w) \<Longrightarrow>
    share_step e (R, w) (R, run_closure e pr f w)"
| again: "k \<in> R \<Longrightarrow> feature_of (Some f) = Some k \<Longrightarrow> is_done (feature_name k) (sampling w) \<Longrightarrow>
    \<forall>j \<in> R. \<not> busy j (sampling w) \<Longrightarrow> share_step e (R, w) (R, run_closure e pr f w)"
| stop: "(0 < g_freezeSampleCount (sampling w) \<and> g_freezeSampleCount (sampling w) \<le> n \<longrightarrow> FFreeze \<in> R \<and> busy FFreeze (sampling w)) \<Longrightarrow>
    share_step e (R, w) (R, snd (StopSample pr n w))"
| drop: "k \<in> R \<Longrightarrow> task_name t = feature_name k \<Longrightarrow> CheckCurrentTaskLocked pr t w = (True, w') \<Longrightarrow>
    share_step e (R, w) (R - {k}, w')"
| other: "share_flags (sampling w') = share_flags (sampling w) \<Longrightarrow> counters_of (sampling w') = counters_of (sampling w) \<Longrightarrow>
    samples w' = samples w \<Longrightarrow> R' \<subseteq> R \<Longrightarrow> feature_name ` R' \<subseteq> taskNameSet w' \<Longrightarrow> share_step e (R, w) (R', w')"

text \<open>Runs in which only some features are used.\<close>

inductive share_run :: "env \<Rightarrow> feature set \<Rightarrow> feature set \<times> WatchdogInner \<Rightarrow> feature set \<times> WatchdogInner \<Rightarrow> bool"
  for e A s where
  here: "share_run e A s s"
| more: "share_run e A s s' \<Longrightarrow> share_step e s' s'' \<Longrightarrow> fst s'' \<subseteq> A \<Longrightarrow> share_run e A s s''"

section \<open>What a run of a closure does to the flags\<close>

lemma Check_sel [simp]:
  "g_isDumpStack (snd (CheckThreadSampler pr s)) = g_isDumpStack s"
  "g_isReuseStack (snd (CheckThreadSampler pr s)) = g_isReuseStack s"
  "isMainThreadStackEnabled (snd (CheckThreadSampler pr s)) = isMainThreadStackEnabled s"
  "g_freezeTaskFinished (snd (CheckThreadSampler pr s)) = g_freezeTaskFinished s"
  "startSlowContent (snd (CheckThreadSampler pr s)) = startSlowContent s"
  "scrollSlowContent (snd (CheckThreadSampler pr s)) = scrollSlowContent s"
  "stackContent (snd (CheckThreadSampler pr s)) = stackContent s"
  "g_scrollSampleCount (snd (CheckThreadSampler pr s)) = g_scrollSampleCount s"
  "g_freezeSampleCount (snd (CheckThreadSampler pr s)) = g_freezeSampleCount s"
  by (auto simp: CheckThreadSampler_def InitThreadSamplerFuncs_def ResetThreadSamplerFuncs_def
      split: dl_result.split prod.split bool.split)

lemma Report_share [simp]:
  "g_isDumpStack (sampling (ReportMainThreadEvent e pr nm sc a w)) = g_isDumpStack (sampling w)"
  "g_isReuseStack (sampling (ReportMainThreadEvent e pr nm sc a w)) = g_isReuseStack (sampling w)"
  "samplerFuncs (sampling (ReportMainThreadEvent e pr nm sc a w)) = samplerFuncs (sampling w)"
  "isMainThreadStackEnabled (sampling (ReportMainThreadEvent e pr nm sc a w)) = isMainThreadStackEnabled (sampling w)"
  "g_freezeTaskFinished (sampling (ReportMainThreadEvent e pr nm sc a w)) = g_freezeTaskFinished (sampling w)"
  "as_collectCount (startSlowContent (sampling (ReportMainThreadEvent e pr nm sc a w))) = as_collectCount (startSlowContent (sampling w))"
  "as_collectCount (scrollSlowContent (sampling (ReportMainThreadEvent e pr nm sc a w))) = as_collectCount (scrollSlowContent (sampling w))"
  "isFinishStartSample (startSlowContent (sampling (ReportMainThreadEvent e pr nm sc a w))) = isFinishStartSample (startSlowContent (sampling w))"
  "isFinishStartSample (scrollSlowContent (sampling (ReportMainThreadEvent e pr nm sc a w))) = isFinishStartSample (scrollSlowContent (sampling w))"
  "stackContent (sampling (ReportMainThreadEvent e pr nm sc a w)) = stackContent (sampling w)"
  "g_scrollSampleCount (sampling (ReportMainThreadEvent e pr nm sc a w)) = g_scrollSampleCount (sampling w)"
  "g_freezeSampleCount (sampling (ReportMainThreadEvent e pr nm sc a w)) = g_freezeSampleCount (sampling w)"
  "samples (ReportMainThreadEvent e pr nm sc a w) = samples w"
  by (simp_all add: ReportMainThreadEvent_def)

lemma Save_share [simp]:
  "g_isDumpStack (snd (SaveFreezeStackToFile pr s)) = False" "g_freezeTaskFinished (snd (SaveFreezeStackToFile pr s))"
  "g_isReuseStack (snd (SaveFreezeStackToFile pr s)) = False"
  "samplerFuncs (snd (SaveFreezeStackToFile pr s)) = samplerFuncs s"
  "isMainThreadStackEnabled (snd (SaveFreezeStackToFile pr s)) = isMainThreadStackEnabled s"
  "startSlowContent (snd (SaveFreezeStackToFile pr s)) = startSlowContent s"
  "scrollSlowContent (snd (SaveFreezeStackToFile pr s)) = scrollSlowContent s"
  "stackContent (snd (SaveFreezeStackToFile pr s)) = stackContent s"
  "g_scrollSampleCount (snd (SaveFreezeStackToFile pr s)) = g_scrollSampleCount s"
  "g_freezeSampleCount (snd (SaveFreezeStackToFile pr s)) = g_freezeSampleCount s"
  by (simp_all add: SaveFreezeStackToFile_def ResetFreezeSampleFlags_def Let_def)

lemma upd_content_sel [simp]:
  "startSlowContent (upd_content sc g s) = (if sc then startSlowContent s else g (startSlowContent s))"
  "scrollSlowContent (upd_content sc g s) = (if sc then g (scrollSlowContent s) else scrollSlowContent s)"
  "g_isDumpStack (upd_content sc g s) = g_isDumpStack s" "g_isReuseStack (upd_content sc g s) = g_isReuseStack s"
  "samplerFuncs (upd_content sc g s) = samplerFuncs s" "isMainThreadStackEnabled (upd_content sc g s) = isMainThreadStackEnabled s"
  "g_freezeTaskFinished (upd_content sc g s) = g_freezeTaskFinished s" "stackContent (upd_content sc g s) = stackContent s"
  "g_scrollSampleCount (upd_content sc g s) = g_scrollSampleCount s" "g_freezeSampleCount (upd_content sc g s) = g_freezeSampleCount s"
  by (simp_all add: upd_content_def)

lemma upd_stack_sel [simp]:
  "stackContent (sampling (upd_stack g w)) = g (stackContent (sampling w))"
  "g_isDumpStack (sampling (upd_stack g w)) = g_isDumpStack (sampling w)"
  "samplerFuncs (sampling (upd_stack g w)) = samplerFuncs (sampling w)"
  "isMainThreadStackEnabled (sampling (upd_stack g w)) = isMainThreadStackEnabled (sampling w)"
  "g_freezeTaskFinished (sampling (upd_stack g w)) = g_freezeTaskFinished (sampling w)"
  "startSlowContent (sampling (upd_stack g w)) = startSlowContent (sampling w)"
  "scrollSlowContent (sampling (upd_stack g w)) = scrollSlowContent (sampling w)"
  "g_scrollSampleCount (sampling (upd_stack g w)) = g_scrollSampleCount (sampling w)"
  "g_freezeSampleCount (sampling (upd_stack g w)) = g_freezeSampleCount (sampling w)"
  by (simp_all add: upd_stack_def)

text \<open>A run touches the counters and the mark of its own feature only.\<close>

lemma run_app_frame:
  "k \<noteq> FStart \<Longrightarrow> k \<noteq> FStartScroll \<Longrightarrow> unstarted k (sampling (app_start_closure e pr sc w)) = unstarted k (sampling w)"
  "nm \<noteq> APP_START_SAMPLE \<Longrightarrow> is_done nm (sampling (app_start_closure e pr sc w)) = is_done nm (sampling w)"
  by (cases k) (simp_all add: app_start_closure_def Let_def split_beta)

lemma run_scroll_frame:
  "k \<noteq> FScroll \<Longrightarrow> unstarted k (sampling (scroll_closure e pr w)) = unstarted k (sampling w)"
  "nm \<noteq> STACK_CHECKER \<Longrightarrow> is_done nm (sampling (scroll_closure e pr w)) = is_done nm (sampling w)"
  by (cases k) (simp_all add: scroll_closure_def Let_def split_beta)

lemma run_freeze_frame:
  "k \<noteq> FFreeze \<Longrightarrow> unstarted k (sampling (freeze_closure pr n w)) = unstarted k (sampling w)"
  "nm \<noteq> FREEZE_SAMPLE \<Longrightarrow> is_done nm (sampling (freeze_closure pr n w)) = is_done nm (sampling w)"
  by (cases k) (simp_all add: freeze_closure_def ResetFreezeSampleFlags_def Let_def split_beta)

lemma run_main_frame:
  "k \<noteq> FMain \<Longrightarrow> unstarted k (sampling (main_thread_closure e pr i n w)) = unstarted k (sampling w)"
  "nm \<noteq> STACK_CHECKER \<Longrightarrow> is_done nm (sampling (main_thread_closure e pr i n w)) = is_done nm (sampling w)"
  by (cases k) (simp_all add: main_thread_closure_def main_thread_tail_def Let_def split_beta)

lemma run_frame:
  assumes "feature_of (Some f) = Some k" and "feature_name j \<noteq> feature_name k"
  shows "busy j (sampling (run_closure e pr f w)) = busy j (sampling w)"
proof -
  have "j \<noteq> k" using assms(2) by auto
  then show ?thesis
    using assms by (cases f; cases j) (auto simp: busy_def run_app_frame run_scroll_frame run_freeze_frame run_main_frame simp del: is_done.simps unstarted.simps
        split: if_splits)
qed

text \<open>Where the flag is set, a feature that has not begun does not begin; a feature that samples holds the flag and a loaded sampler.\<close>

lemma run_kept_out:
  assumes "feature_of (Some f) = Some k" and "g_isDumpStack (sampling w)" and "unstarted k (sampling w)"
  shows "g_isDumpStack (sampling (run_closure e pr f w))" and "samplerFuncs (sampling (run_closure e pr f w)) = samplerFuncs (sampling w)"
    and "counters_of (sampling (run_closure e pr f w)) = counters_of (sampling w)" and "samples (run_closure e pr f w) = samples w"
  using assms
  by (cases f; auto simp: counters_of_def app_start_closure_def scroll_closure_def main_thread_closure_def freeze_closure_def start_content_def Let_def split_beta
      split: if_splits)+

lemma run_owns:
  assumes "feature_of (Some f) = Some k" and "k \<noteq> FMain" and "\<not> is_done (feature_name k) (sampling w)"
    and "unstarted k (sampling w) \<Longrightarrow> \<not> g_isDumpStack (sampling w)"
    and "busy k (sampling w) \<Longrightarrow> samplerFuncs (sampling w)"
  shows "busy k (sampling (run_closure e pr f w)) \<Longrightarrow>
    g_isDumpStack (sampling (run_closure e pr f w)) \<and> samplerFuncs (sampling (run_closure e pr f w))"
  using assms
  by (cases f; auto simp: busy_def app_start_closure_def scroll_closure_def freeze_closure_def ResetFreezeSampleFlags_def
      start_content_def Let_def split_beta split: if_splits)

lemma run_names:
  "feature_of (Some f) = Some k \<Longrightarrow> taskNameSet (run_closure e pr f w) = taskNameSet w"
  by (cases f) (auto simp: app_start_closure_def scroll_closure_def main_thread_closure_def main_thread_tail_def freeze_closure_def
      upd_stack_def Let_def split_beta)

text \<open>The removal of a task that is done: only an unused sampler is ended.\<close>

lemma deinit_shape:
  "\<exists>f h. deinit_if b pr w = w\<lparr>sampling := (sampling w)\<lparr>samplerFuncs := f, samplerSigHandler := h\<rparr>\<rparr> \<and>
     (\<not> b \<longrightarrow> f = samplerFuncs (sampling w))"
proof -
  have "deinit_if b pr w = w\<lparr>sampling := (sampling w)\<lparr>samplerFuncs := samplerFuncs (sampling (deinit_if b pr w)),
      samplerSigHandler := samplerSigHandler (sampling (deinit_if b pr w))\<rparr>\<rparr>"
    by (simp add: deinit_if_def Deinit_def ResetThreadSamplerFuncs_def split: bool.split)
  moreover have "\<not> b \<longrightarrow> samplerFuncs (sampling (deinit_if b pr w)) = samplerFuncs (sampling w)"
    by (simp add: deinit_if_def)
  ultimately show ?thesis by metis
qed

definition drop_marks :: "string \<Rightarrow> Sampling \<Rightarrow> Sampling" where
  "drop_marks nm s =
     (if nm = STACK_CHECKER then s\<lparr>stackContent := (stackContent s)\<lparr>isStartSampleEnabled := True\<rparr>, isMainThreadStackEnabled := False\<rparr>
      else if nm = APP_START_SAMPLE then s\<lparr>
        startSlowContent := (startSlowContent s)\<lparr>isFinishStartSample := False, as_isStartSampleEnabled := True\<rparr>,
        scrollSlowContent := (scrollSlowContent s)\<lparr>isFinishStartSample := False, as_isStartSampleEnabled := True\<rparr>\<rparr>
      else s\<lparr>g_isReuseStack := False, g_freezeTaskFinished := False\<rparr>)"

lemma drop_shape:
  assumes "CheckCurrentTaskLocked pr t w = (True, w')" and "task_name t = feature_name k"
  obtains f h where "sampling w' = drop_marks (feature_name k) ((sampling w)\<lparr>samplerFuncs := f, samplerSigHandler := h\<rparr>)"
    and "g_isDumpStack (sampling w) \<Longrightarrow> f = samplerFuncs (sampling w)" and "taskNameSet w' = taskNameSet w - {feature_name k}"
    and "out w' = out w"
proof -
  let ?s = "sampling w" and ?p = "pop_queue w"
  consider (stack) "feature_name k = STACK_CHECKER" | (app) "feature_name k = APP_START_SAMPLE" | (freeze) "feature_name k = FREEZE_SAMPLE"
    by (cases k) auto
  then show thesis
  proof cases
    case stack
    let ?b = "\<not> g_isDumpStack ?s \<and> \<not> g_isReuseStack ?s" and ?q = "erase_name STACK_CHECKER ?p"
    obtain f h where d: "deinit_if ?b pr ?q = ?q\<lparr>sampling := (sampling ?q)\<lparr>samplerFuncs := f, samplerSigHandler := h\<rparr>\<rparr>"
      "\<not> ?b \<longrightarrow> f = samplerFuncs (sampling ?q)" using deinit_shape by blast
    have "w' = upd_sampling (drop_marks STACK_CHECKER) (deinit_if ?b pr ?q)"
      using assms stack by (simp add: CheckCurrentTaskLocked_def drop_marks_def [abs_def] Let_def split: if_splits)
    from this [unfolded d(1)] show ?thesis
      using d(2) by (intro that [of h f]) (simp_all add: stack drop_marks_def erase_name_def pop_queue_def upd_sampling_def)
  next
    case app
    let ?b = "\<not> g_isDumpStack ?s \<and> \<not> g_isReuseStack ?s" and ?q = "erase_name APP_START_SAMPLE ?p"
    obtain f h where d: "deinit_if ?b pr ?q = ?q\<lparr>sampling := (sampling ?q)\<lparr>samplerFuncs := f, samplerSigHandler := h\<rparr>\<rparr>"
      "\<not> ?b \<longrightarrow> f = samplerFuncs (sampling ?q)" using deinit_shape by blast
    have "w' = upd_sampling (drop_marks APP_START_SAMPLE) (deinit_if ?b pr ?q)"
      using assms app by (simp add: CheckCurrentTaskLocked_def drop_marks_def [abs_def] Let_def split: if_splits)
    from this [unfolded d(1)] show ?thesis
      using d(2) by (intro that [of h f]) (simp_all add: app drop_marks_def erase_name_def pop_queue_def upd_sampling_def)
  next
    case freeze
    let ?b = "\<not> g_isDumpStack ?s" and ?q = "?p"
    obtain f h where d: "deinit_if ?b pr ?q = ?q\<lparr>sampling := (sampling ?q)\<lparr>samplerFuncs := f, samplerSigHandler := h\<rparr>\<rparr>"
      "\<not> ?b \<longrightarrow> f = samplerFuncs (sampling ?q)" using deinit_shape by blast
    have "w' = upd_sampling (drop_marks FREEZE_SAMPLE) (erase_name FREEZE_SAMPLE (deinit_if ?b pr ?q))"
      using assms freeze by (simp add: CheckCurrentTaskLocked_def drop_marks_def [abs_def] Let_def split: if_splits)
    from this [unfolded d(1)] show ?thesis
      using d(2) by (intro that [of h f]) (simp_all add: freeze drop_marks_def erase_name_def pop_queue_def upd_sampling_def)
  qed
qed

lemma drop_frame:
  assumes "CheckCurrentTaskLocked pr t w = (True, w')" and "task_name t = feature_name k" and "feature_name j \<noteq> feature_name k"
  shows "busy j (sampling w') = busy j (sampling w)"
  by (rule drop_shape [OF assms(1,2)], use assms(3) in \<open>cases k; cases j\<close>) (simp_all add: busy_def drop_marks_def)

lemma drop_keeps:
  assumes "CheckCurrentTaskLocked pr t w = (True, w')" and "task_name t = feature_name k"
  shows "g_isDumpStack (sampling w') = g_isDumpStack (sampling w)"
    and "g_isDumpStack (sampling w) \<Longrightarrow> samplerFuncs (sampling w') = samplerFuncs (sampling w)"
    and "taskNameSet w' = taskNameSet w - {feature_name k}" and "counters_of (sampling w') = counters_of (sampling w)"
    and "samples w' = samples w"
  by (rule drop_shape [OF assms], simp_all add: drop_marks_def counters_of_def samples_def)+

section \<open>One feature at a time\<close>

definition exclusive :: "feature set \<times> WatchdogInner \<Rightarrow> bool" where
  "exclusive st \<longleftrightarrow> (case st of (R, w) \<Rightarrow>
     inj_on feature_name R \<and> feature_name ` R \<subseteq> taskNameSet w \<and>
     (\<forall>k \<in> R. busy k (sampling w) \<longrightarrow> g_isDumpStack (sampling w) \<and> samplerFuncs (sampling w)) \<and>
     (\<forall>j \<in> R. \<forall>k \<in> R. busy j (sampling w) \<and> busy k (sampling w) \<longrightarrow> j = k))"

lemma exclusiveI:
  assumes "inj_on feature_name R" and "feature_name ` R \<subseteq> taskNameSet w"
    and "\<And>k. k \<in> R \<Longrightarrow> busy k (sampling w) \<Longrightarrow> g_isDumpStack (sampling w) \<and> samplerFuncs (sampling w)"
    and "\<And>j k. j \<in> R \<Longrightarrow> k \<in> R \<Longrightarrow> busy j (sampling w) \<Longrightarrow> busy k (sampling w) \<Longrightarrow> j = k"
  shows "exclusive (R, w)"
  unfolding exclusive_def prod.case using assms by blast

lemma exclusiveE:
  assumes "exclusive (R, w)"
  obtains "inj_on feature_name R" and "feature_name ` R \<subseteq> taskNameSet w"
    and "\<And>k. k \<in> R \<Longrightarrow> busy k (sampling w) \<Longrightarrow> g_isDumpStack (sampling w) \<and> samplerFuncs (sampling w)"
    and "\<And>j k. j \<in> R \<Longrightarrow> k \<in> R \<Longrightarrow> busy j (sampling w) \<Longrightarrow> busy k (sampling w) \<Longrightarrow> j = k"
  using assms by (auto simp: exclusive_def)

lemma same_busy:
  "share_flags s' = share_flags s \<Longrightarrow> counters_of s' = counters_of s \<Longrightarrow> busy k s' = busy k s"
  by (cases k) (auto simp: busy_def share_flags_def counters_of_def)

lemma exclusive_look:
  assumes "exclusive (R, w)" and "starts w w'"
  shows "exclusive (R \<union> queued_features w w', w')"
proof -
  let ?Q = "queued_features w w'"
  have z: "zeroed (sampling w) (sampling w')" and n: "taskNameSet w \<subseteq> taskNameSet w'"
    and q: "\<forall>k \<in> ?Q. unstarted k (sampling w') \<and> feature_name k \<in> taskNameSet w' - taskNameSet w"
    and i: "inj_on feature_name ?Q" using assms(2) by (auto simp: starts_def)
  obtain x: "inj_on feature_name R" "feature_name ` R \<subseteq> taskNameSet w"
    "\<And>k. k \<in> R \<Longrightarrow> busy k (sampling w) \<Longrightarrow> g_isDumpStack (sampling w) \<and> samplerFuncs (sampling w)"
    "\<And>j k. j \<in> R \<Longrightarrow> k \<in> R \<Longrightarrow> busy j (sampling w) \<Longrightarrow> busy k (sampling w) \<Longrightarrow> j = k"
    using assms(1) by (blast elim: exclusiveE)
  have f: "g_isDumpStack (sampling w') = g_isDumpStack (sampling w)" "samplerFuncs (sampling w') = samplerFuncs (sampling w)"
    using z by (simp_all add: share_defs)
  have b: "k \<in> R \<and> busy k (sampling w)" if "k \<in> R \<union> ?Q" "busy k (sampling w')" for k
    using that q zeroed_busy [OF z that(2)] by (auto simp: busy_def)
  have "inj_on feature_name (R \<union> ?Q)" using x(1,2) i q by (auto simp: inj_on_Un)
  moreover have "feature_name ` (R \<union> ?Q) \<subseteq> taskNameSet w'" using x(2) n q by auto
  ultimately show ?thesis
  proof (rule exclusiveI)
    show "g_isDumpStack (sampling w') \<and> samplerFuncs (sampling w')" if "k \<in> R \<union> ?Q" "busy k (sampling w')" for k
      using b [OF that] x(3) [of k] f by simp
    show "j = k" if "j \<in> R \<union> ?Q" "k \<in> R \<union> ?Q" "busy j (sampling w')" "busy k (sampling w')" for j k
      using b [OF that(1,3)] b [OF that(2,4)] x(4) by blast
  qed
qed

lemma exclusive_run:
  assumes "exclusive (R, w)" and "k \<in> R" and "feature_of (Some f) = Some k" and "k \<noteq> FMain"
    and "\<not> is_done (feature_name k) (sampling w)"
  shows "exclusive (R, run_closure e pr f w)"
proof -
  let ?w = "run_closure e pr f w"
  obtain x: "inj_on feature_name R" "feature_name ` R \<subseteq> taskNameSet w"
    "\<And>k. k \<in> R \<Longrightarrow> busy k (sampling w) \<Longrightarrow> g_isDumpStack (sampling w) \<and> samplerFuncs (sampling w)"
    "\<And>j k. j \<in> R \<Longrightarrow> k \<in> R \<Longrightarrow> busy j (sampling w) \<Longrightarrow> busy k (sampling w) \<Longrightarrow> j = k"
    using assms(1) by (blast elim: exclusiveE)
  have fr: "busy j (sampling ?w) = busy j (sampling w)" if "j \<in> R" "j \<noteq> k" for j
    by (rule run_frame [OF assms(3)]) (use x(1) that assms(2) in \<open>auto dest: inj_onD\<close>)
  show ?thesis
  proof (cases "g_isDumpStack (sampling w) \<and> unstarted k (sampling w)")
    case True
    note o = run_kept_out [OF assms(3), of w e pr]
    have "\<not> busy k (sampling ?w)" using same_unstarted [OF o(3)] True by (simp add: busy_def)
    then have b: "j \<in> R \<Longrightarrow> busy j (sampling ?w) \<Longrightarrow> busy j (sampling w)" for j using fr by (cases "j = k") auto
    show ?thesis
    proof (rule exclusiveI [OF x(1)])
      show "feature_name ` R \<subseteq> taskNameSet ?w" using x(2) run_names [OF assms(3), of e pr w] by simp
      show "g_isDumpStack (sampling ?w) \<and> samplerFuncs (sampling ?w)" if "j \<in> R" "busy j (sampling ?w)" for j
        using x(3) [OF that(1) b [OF that]] o(1,2) True by blast
      show "i = j" if "i \<in> R" "j \<in> R" "busy i (sampling ?w)" "busy j (sampling ?w)" for i j
        using x(4) [OF that(1,2) b [OF that(1,3)] b [OF that(2,4)]] .
    qed
  next
    case False
    have own: "busy k (sampling ?w) \<Longrightarrow> g_isDumpStack (sampling ?w) \<and> samplerFuncs (sampling ?w)"
      by (rule run_owns [OF assms(3,4,5)]) (use False x(3) assms(2) in auto)
    have "\<not> busy j (sampling w)" if "j \<in> R" "j \<noteq> k" for j
    proof (cases "busy k (sampling w)")
      case True
      then show ?thesis using x(4) that assms(2) by blast
    next
      case False
      then have "unstarted k (sampling w)" using assms(5) by (simp add: busy_def)
      then show ?thesis using x(3) that \<open>\<not> (g_isDumpStack (sampling w) \<and> unstarted k (sampling w))\<close> by blast
    qed
    then have "j = k" if "j \<in> R" "busy j (sampling ?w)" for j using that fr by blast
    then show ?thesis
      using x(1,2) own run_names [OF assms(3), of e pr w] by (intro exclusiveI) auto
  qed
qed

lemma exclusive_drop:
  assumes "exclusive (R, w)" and "k \<in> R" and "task_name t = feature_name k" and "CheckCurrentTaskLocked pr t w = (True, w')"
  shows "exclusive (R - {k}, w')"
proof -
  obtain x: "inj_on feature_name R" "feature_name ` R \<subseteq> taskNameSet w"
    "\<And>k. k \<in> R \<Longrightarrow> busy k (sampling w) \<Longrightarrow> g_isDumpStack (sampling w) \<and> samplerFuncs (sampling w)"
    "\<And>j k. j \<in> R \<Longrightarrow> k \<in> R \<Longrightarrow> busy j (sampling w) \<Longrightarrow> busy k (sampling w) \<Longrightarrow> j = k"
    using assms(1) by (blast elim: exclusiveE)
  note d = drop_keeps [OF assms(4,3)]
  have n: "feature_name j \<noteq> feature_name k" if "j \<in> R - {k}" for j using x(1) that assms(2) by (auto dest: inj_onD)
  have b: "busy j (sampling w') = busy j (sampling w)" if "j \<in> R - {k}" for j
    by (rule drop_frame [OF assms(4,3) n [OF that]])
  have "inj_on feature_name (R - {k})" using x(1) by (rule inj_on_subset) auto
  moreover have "feature_name ` (R - {k}) \<subseteq> taskNameSet w'" using x(2) n by (auto simp: d(3))
  ultimately show ?thesis
  proof (rule exclusiveI)
    show "g_isDumpStack (sampling w') \<and> samplerFuncs (sampling w')" if "j \<in> R - {k}" "busy j (sampling w')" for j
      using x(3) [of j] b [OF that(1)] that d(1,2) by auto
    show "i = j" if "i \<in> R - {k}" "j \<in> R - {k}" "busy i (sampling w')" "busy j (sampling w')" for i j
      using x(4) [of i j] b [OF that(1)] b [OF that(2)] that by auto
  qed
qed

lemma run_stays_done:
  assumes "feature_of (Some f) = Some k" and "is_done nm (sampling w)"
  shows "is_done nm (sampling (run_closure e pr f w))"
  using assms
  by (cases f) (auto simp: app_start_closure_def scroll_closure_def main_thread_closure_def main_thread_tail_def freeze_closure_def
      ResetFreezeSampleFlags_def Let_def split_beta split: if_splits)

lemma exclusive_again:
  assumes "exclusive (R, w)" and "k \<in> R" and "feature_of (Some f) = Some k" and "is_done (feature_name k) (sampling w)"
    and "\<forall>j \<in> R. \<not> busy j (sampling w)"
  shows "exclusive (R, run_closure e pr f w)"
proof -
  have inj: "inj_on feature_name R" using assms(1) by (rule exclusiveE)
  have "\<not> busy j (sampling (run_closure e pr f w))" if "j \<in> R" for j
  proof (cases "j = k")
    case True
    then show ?thesis using run_stays_done [OF assms(3,4)] by (auto simp: busy_def simp del: is_done.simps)
  next
    case False
    then have "feature_name j \<noteq> feature_name k" using inj that assms(2) by (auto dest: inj_onD)
    then show ?thesis using run_frame [OF assms(3)] assms(5) that by blast
  qed
  then show ?thesis using assms(1) run_names [OF assms(3), of e pr w] by (intro exclusiveI) (auto elim: exclusiveE)
qed

text \<open>A stop either changes nothing or ends the freeze.\<close>

lemma StopSample_cases:
  obtains "snd (StopSample pr n w) = w"
  | "0 < g_freezeSampleCount (sampling w)" and "g_freezeSampleCount (sampling w) \<le> n"
    and "snd (StopSample pr n w) = w\<lparr>sampling := snd (SaveFreezeStackToFile pr (sampling w))\<rparr>"
proof (cases "0 < g_freezeSampleCount (sampling w) \<and> g_freezeSampleCount (sampling w) \<le> n")
  case True
  then show thesis by (intro that(2)) (auto simp: StopSample_def Let_def split: prod.split)
next
  case False
  then show thesis by (intro that(1)) (auto simp: StopSample_def Let_def)
qed

lemma exclusive_stop:
  assumes "exclusive (R, w)"
    and "0 < g_freezeSampleCount (sampling w) \<and> g_freezeSampleCount (sampling w) \<le> n \<longrightarrow> FFreeze \<in> R \<and> busy FFreeze (sampling w)"
  shows "exclusive (R, snd (StopSample pr n w))"
proof (cases rule: StopSample_cases [of pr n w])
  case 1
  then show ?thesis using assms(1) by simp
next
  case 2
  then have f: "FFreeze \<in> R" "busy FFreeze (sampling w)" using assms(2) by auto
  have "\<not> busy j (sampling (snd (StopSample pr n w)))" if "j \<in> R" for j
  proof (cases "j = FFreeze")
    case True
    then show ?thesis by (simp add: 2 busy_def)
  next
    case False
    then have "\<not> busy j (sampling w)" using assms(1) f that by (blast elim: exclusiveE)
    moreover have "feature_name j \<noteq> FREEZE_SAMPLE" using False by (cases j) simp_all
    ultimately show ?thesis using False by (cases j) (simp_all add: 2 busy_def)
  qed
  then show ?thesis using assms(1) by (intro exclusiveI) (auto simp: 2 elim: exclusiveE)
qed

lemma exclusive_step:
  assumes "share_step e s s'" and "exclusive s" and "FMain \<notin> fst s"
  shows "exclusive s'"
  using assms
proof (induction rule: share_step.cases)
  case (look c w' w R)
  then show ?case using exclusive_look [OF _ client_starts] by blast
next
  case (run k R f w pr)
  then have "k \<noteq> FMain" by auto
  then show ?case using exclusive_run run by blast
next
  case (again k R f w pr)
  then show ?case using exclusive_again by blast
next
  case (stop w n R pr)
  then show ?case using exclusive_stop by blast
next
  case (drop k R t pr w w')
  then show ?case using exclusive_drop by blast
next
  case (other w' w R' R)
  then obtain x: "inj_on feature_name R" "feature_name ` R \<subseteq> taskNameSet w"
    "\<And>k. k \<in> R \<Longrightarrow> busy k (sampling w) \<Longrightarrow> g_isDumpStack (sampling w) \<and> samplerFuncs (sampling w)"
    "\<And>j k. j \<in> R \<Longrightarrow> k \<in> R \<Longrightarrow> busy j (sampling w) \<Longrightarrow> busy k (sampling w) \<Longrightarrow> j = k"
    by (blast elim: exclusiveE)
  have b: "busy k (sampling w') = busy k (sampling w)" for k using same_busy other(3,4) by blast
  have f: "g_isDumpStack (sampling w') = g_isDumpStack (sampling w)" "samplerFuncs (sampling w') = samplerFuncs (sampling w)"
    using other(3) by (simp_all add: share_flags_def)
  have "exclusive (R', w')"
  proof (rule exclusiveI)
    show "inj_on feature_name R'" using x(1) other(6) by (rule inj_on_subset)
    show "feature_name ` R' \<subseteq> taskNameSet w'" using other(7) .
    show "g_isDumpStack (sampling w') \<and> samplerFuncs (sampling w')" if "k \<in> R'" "busy k (sampling w')" for k
      using x(3) [of k] that b f other(6) by auto
    show "j = k" if "j \<in> R'" "k \<in> R'" "busy j (sampling w')" "busy k (sampling w')" for j k
      using x(4) [of j k] that b other(6) by auto
  qed
  then show ?case using other(2) by simp
qed

lemma exclusive_run_of:
  assumes "share_run e A ({}, w) s" and "FMain \<notin> A"
  shows "exclusive s \<and> FMain \<notin> fst s"
  using assms(1)
proof induction
  case here
  then show ?case by (simp add: exclusive_def)
next
  case (more s' s'')
  then show ?case using exclusive_step assms(2) by blast
qed

lemma run_samples:
  assumes "feature_of (Some f) = Some k" and "samples (run_closure e pr f w) \<noteq> samples w" and "\<not> is_done (feature_name k) (sampling w)"
  shows "busy k (sampling w) \<or> \<not> g_isDumpStack (sampling w)"
  using run_kept_out(4) [OF assms(1), of w e pr] assms(2,3) by (auto simp: busy_def)


section \<open>A stop at the wrong moment\<close>

text \<open>The flag is set but nobody holds it: no feature begins any more.\<close>

definition dead :: "feature set \<times> WatchdogInner \<Rightarrow> bool" where
  "dead st \<longleftrightarrow> (case st of (R, w) \<Rightarrow> g_isDumpStack (sampling w) \<and> (\<forall>k \<in> R. unstarted k (sampling w)))"

lemma dead_step:
  assumes "share_step e s s'" and "dead s"
  shows "dead s' \<and> samples (snd s') = samples (snd s)"
  using assms
proof (induction rule: share_step.cases)
  case (look c w' w R)
  then have c: "starts w w'" using client_starts by blast
  then have "zeroed (sampling w) (sampling w')" "samples w' = samples w" by (simp_all add: starts_def)
  then show ?case
    using look c zeroed_unstarted [of "sampling w" "sampling w'"] by (auto simp: dead_def starts_def zeroed_def share_flags_def)
next
  case (run k R f w pr)
  then have d: "g_isDumpStack (sampling w)" "unstarted k (sampling w)" by (auto simp: dead_def)
  note o = run_kept_out [OF run(4) d, of e pr]
  show ?case using run o(1,4) same_unstarted [OF o(3)] by (simp add: dead_def)
next
  case (again k R f w pr)
  then have d: "g_isDumpStack (sampling w)" "unstarted k (sampling w)" by (auto simp: dead_def)
  note o = run_kept_out [OF again(4) d, of e pr]
  show ?case using again o(1,4) same_unstarted [OF o(3)] by (simp add: dead_def)
next
  case (stop w n R pr)
  then have "\<not> (0 < g_freezeSampleCount (sampling w) \<and> g_freezeSampleCount (sampling w) \<le> n)"
    by (auto simp: dead_def busy_def)
  then have "snd (StopSample pr n w) = w" by (cases rule: StopSample_cases [of pr n w]) auto
  then show ?case using stop by simp
next
  case (drop k R t pr w w')
  note d = drop_keeps [OF drop(5,4)]
  show ?case using drop d(1,5) same_unstarted [OF d(4)] by (simp add: dead_def)
next
  case (other w' w R' R)
  then show ?case using same_unstarted [OF other(4)] by (auto simp: dead_def share_flags_def)
qed

lemma dead_run:
  assumes "share_run e A s s'" and "dead s"
  shows "dead s' \<and> samples (snd s') = samples (snd s)"
  using assms(1)
proof induction
  case (more s' s'')
  then show ?case using dead_step [OF more(2)] by simp
qed (simp add: assms(2))


definition demo_sharing :: "Sampling \<Rightarrow> WatchdogInner" where
  "demo_sharing s = WatchdogInner_init\<lparr>sampling := s, taskNameSet := {FREEZE_SAMPLE}\<rparr>"

definition demo_freezing :: WatchdogInner where
  "demo_freezing = demo_sharing (Sampling_init\<lparr>g_freezeSampleCount := 1, samplerFuncs := True, samplerSigHandler := True,
     g_isDumpStack := True, sampleFreezeInfo := \<lparr>lastSaveTime = 0, freezeFile = [], currentFile = ''f.txt''\<rparr>\<rparr>)"


lemma demo_request:
  defines "w \<equiv> client_exec service_env (SampleStart demo_stamp ''d'' 500 100) WatchdogInner_init"
  shows "queued_features WatchdogInner_init w = {FFreeze}" and "share_flags (sampling w) = share_flags Sampling_init"
    and "counters_of (sampling w) = counters_of Sampling_init"
proof -
  have "map (\<lambda>t. feature_of (task_task t)) (checkerQueue w) = [Some FFreeze]"
    by (simp add: w_def StartSample_def CheckTaskValid_def insert_task_def new_id_def InsertWatchdogTaskLocked_def
        CreateWatchdogThreadIfNeed_def WatchdogInner_init_def IsTaskExistLocked_def IsExceedMaxTaskLocked_def MAX_WATCH_NUM_def
        task_constructors Let_def)
  then obtain t where t: "checkerQueue w = [t]" "feature_of (task_task t) = Some FFreeze" by (auto simp: map_eq_Cons_conv)
  moreover have "checkerQueue WatchdogInner_init = []" by (simp add: WatchdogInner_init_def)
  ultimately show "queued_features WatchdogInner_init w = {FFreeze}" by (simp add: queued_features_def new_tasks_def)
  have z: "zeroed (sampling WatchdogInner_init) (sampling w)" unfolding w_def using client_starts [of "SampleStart demo_stamp ''d'' 500 100"]
    by (simp add: starts_def del: client_exec.simps)
  then show "share_flags (sampling w) = share_flags Sampling_init" by (simp add: zeroed_def WatchdogInner_init_def)
  show "counters_of (sampling w) = counters_of Sampling_init"
    using z by (auto simp: share_defs WatchdogInner_init_def Sampling_init_def StackContent_init_def AppStartContent_init_def)
qed


section \<open>Two further weak points\<close>

text \<open>
  A stop that comes a second time, when its sampling is over, marks the next one as finished before it has begun: the request is accepted and a
  file named, but its task is taken from the queue as soon as the thread looks at it, without a sample.
\<close>

theorem late_stop_cancels_next_sampling:
  assumes "0 < g_freezeSampleCount (sampling w)" and "g_freezeSampleCount (sampling w) \<le> n"
    and "StartSample e st date d i (snd (StopSample pr n w)) = (f, w')" and "task_name t = FREEZE_SAMPLE"
  shows "fst (CheckCurrentTaskLocked pr' t w') \<and> samples (snd (CheckCurrentTaskLocked pr' t w')) = samples w \<and>
    FREEZE_SAMPLE \<notin> taskNameSet (snd (CheckCurrentTaskLocked pr' t w'))"
proof -
  let ?w1 = "snd (StopSample pr n w)"
  have 1: "g_freezeTaskFinished (sampling ?w1)" "samples ?w1 = samples w"
    using assms(1,2) by (simp_all add: StopSample_def Let_def split_beta)
  have "starts ?w1 w'" using starts_SampleStart [of ?w1 e st date d i] assms(3) by simp
  then have 2: "g_freezeTaskFinished (sampling w')" "samples w' = samples w"
    using 1 by (auto simp: starts_def zeroed_def share_flags_def)
  then have r: "CheckCurrentTaskLocked pr' t w' = (True, snd (CheckCurrentTaskLocked pr' t w'))"
    using assms(4) by (simp add: CheckCurrentTaskLocked_def Let_def)
  have "task_name t = feature_name FFreeze" using assms(4) by simp
  note d = drop_keeps [OF r this]
  show ?thesis using r d(3,5) 2(2) by (simp add: prod_eq_iff)
qed

text \<open>
  A task that is done is only recognised on top of the queue when the thread looks there: behind another one that is done it is served once
  more. The closure of the start-up then reports its event a second time and takes the flag from
  whoever holds it by now.
\<close>

theorem second_done_task_runs_again:
  assumes "checkerQueue w = t1 # t2 # q" and "\<not> isNeedStop w" and "nextTickTime t2 \<le> now"
    and "task_name t1 = STACK_CHECKER" and "isMainThreadStackEnabled (sampling w)"
    and "as_collectCount (startSlowContent (sampling w)) \<noteq> 0"
    and "targetCount (startSlowContent (sampling w)) \<le> as_collectCount (startSlowContent (sampling w))"
    and "g_isDumpStack (sampling w)" and "samplerFuncs (sampling w)" and "pr_write pr'" and "HISYSEVENT_ENABLE e"
  shows "\<exists>w1. FetchNextTask pr now w = (0, Some t2, w1) \<and>
    out (run_closure e pr' (AppStartSampleTask tid False) w1) = out w1 @ [EReport ''APP_START_JANK'' False] \<and>
    g_isDumpStack (sampling w1) \<and> \<not> g_isDumpStack (sampling (run_closure e pr' (AppStartSampleTask tid False) w1))"
proof -
  obtain w0 where c: "CheckCurrentTaskLocked pr t1 w = (True, w0)" "checkerQueue w0 = t2 # q"
    "g_isDumpStack (sampling w0)" "samplerFuncs (sampling w0)" "startSlowContent (sampling w0) = startSlowContent (sampling w)"
    using assms(1,4,5,8,9) by (simp add: CheckCurrentTaskLocked_def deinit_if_def pop_queue_def pq_pop_def erase_name_def Let_def)
  define w1 where "w1 = w0\<lparr>currentScene := scene_of t2, checkerQueue := q\<rparr>"
  have "FetchNextTask pr now w = (0, Some t2, w1)"
    using assms(1-3) c(1,2) by (simp add: FetchNextTask_def fetch_top_def pq_top_def pq_pop_def w1_def not_less Let_def)
  moreover have "out (run_closure e pr' (AppStartSampleTask tid False) w1) = out w1 @ [EReport ''APP_START_JANK'' False]"
    "\<not> g_isDumpStack (sampling (run_closure e pr' (AppStartSampleTask tid False) w1))" "g_isDumpStack (sampling w1)"
    using assms(6,7,10,11) c(3-5)
    by (simp_all add: w1_def app_start_closure_def start_content_def ReportMainThreadEvent_def emit_def upd_sampling_def Let_def)
  ultimately show ?thesis by blast
qed

section \<open>The profile of the main thread\<close>

text \<open>
  The profile has looked once, found nothing, and does not ask again whether the sampler is free: a freeze sampling that has begun meanwhile
  shares its samples. What the profile sees of the state, and what it leaves alone.
\<close>

definition intruding :: "int \<Rightarrow> WatchdogInner \<Rightarrow> WatchdogInner \<Rightarrow> bool" where
  "intruding k w0 w \<longleftrightarrow>
     (let s = sampling w; s0 = sampling w0 in
      detectorCount (stackContent s) = 1 \<and> collectCount (stackContent s) = k \<and> samplerFuncs s \<and> g_isDumpStack s \<and>
      g_isReuseStack s = g_isReuseStack s0 \<and> g_freezeSampleCount s = g_freezeSampleCount s0 \<and>
      g_freezeTaskFinished s = g_freezeTaskFinished s0 \<and> sampleFreezeInfo s = sampleFreezeInfo s0 \<and>
      jank_frame w = jank_frame w0 \<and> int (samples w) = int (samples w0) + k \<and> taskNameSet w = taskNameSet w0)"

lemma intruding_step:
  assumes "intruding k w0 w" and "0 \<le> k" and "k < m" and "still_slow i w0 (pr_ns pr)"
  shows "intruding (k + 1) w0 (main_thread_closure e pr i m w)"
proof -
  have "still_slow i w (pr_ns pr)"
    using assms(1,4) still_slow_frame [of w w0] by (simp add: intruding_def Let_def)
  then have t: "CheckEventTimer (pr_ns pr) (reportBegin (stackContent (sampling w))) (reportEnd (stackContent (sampling w))) i (sampling w)"
    by (simp add: still_slow_def)
  have "main_thread_closure e pr i m w = main_thread_tail (upd_stack (\<lambda>c. c\<lparr>collectCount := collectCount c + 1\<rparr>)
      (emit ESample (if k = 0 then w else upd_sampling (\<lambda>s. s\<lparr>g_isDumpStack := True\<rparr>) w)))"
    using assms(1-3) t by (simp add: intruding_def main_thread_closure_def Let_def)
  then show ?thesis
    using assms(1) by (auto simp: intruding_def main_thread_tail_def DETECT_STACK_COUNT_def upd_stack_def upd_sampling_def jank_frame_def
        samples_def emit_def Let_def)
qed

lemma intruding_runs:
  assumes "intruding k w0 w" and "0 \<le> k" and "k + int (length prs) = m" and "list_all (\<lambda>pr. still_slow i w0 (pr_ns pr)) prs"
  shows "intruding m w0 (main_thread_runs e i m prs w)"
  using assms
proof (induction prs arbitrary: k w)
  case (Cons pr prs)
  have "intruding (k + 1) w0 (main_thread_closure e pr i m w)"
    by (rule intruding_step) (use Cons.prems in auto)
  then show ?case using Cons.IH [of "k + 1"] Cons.prems by simp
qed simp

definition main_thread_report :: "env \<Rightarrow> probe \<Rightarrow> WatchdogInner \<Rightarrow> WatchdogInner" where
  "main_thread_report e pr w =
     (let w1 = upd_sampling (\<lambda>s. s\<lparr>g_isDumpStack := False\<rparr>) w;
          w2 = ReportMainThreadEvent e pr (if CheckBusinessEmpty w1 then ''MAIN_THREAD_JANK'' else ''BUSSINESS_THREAD_JANK'') False False w1
      in upd_sampling (\<lambda>s. s\<lparr>isMainThreadStackEnabled := True\<rparr>) (upd_stack (\<lambda>c. c\<lparr>reportTimes := reportTimes c - 1\<rparr>) w2))"

lemma Report_info: "sampleFreezeInfo (sampling (ReportMainThreadEvent e pr nm sc a w)) = sampleFreezeInfo (sampling w)"
  by (simp add: ReportMainThreadEvent_def)

text \<open>
  C24. A profile of the main thread that has looked once without finding anything does not ask again whether the sampler is free. When it
  finds the main thread blocked while a freeze sampling runs, it takes its samples into the same sampler, reports them and clears the
  flag of the other; the removal of its task then unloads the sampler, and the next run of the freeze
  task ends without a file: the name given out to the client is never stored.
\<close>

theorem main_profile_takes_sampler_from_freeze:
  assumes "detectorCount (stackContent (sampling w)) = 1" and "collectCount (stackContent (sampling w)) = 0" and "0 < m"
    and "g_isDumpStack (sampling w)" and "samplerFuncs (sampling w)" and "\<not> g_isReuseStack (sampling w)"
    and "0 < g_freezeSampleCount (sampling w)" and "list_all (\<lambda>pr. still_slow i w (pr_ns pr)) prs" and "int (length prs) = m"
    and "w1 = main_thread_closure e pr i m (main_thread_runs e i m prs w)"
    and "task_name t = STACK_CHECKER" and "w2 = snd (CheckCurrentTaskLocked pr1 t w1)" and "pr_deinit pr1 = 0"
    and "w3 = freeze_closure pr2 target w2" and "pr_write pr" and "HISYSEVENT_ENABLE e"
  shows "int (samples w1) = int (samples w) + m \<and> last (out w1) = EReport ''MAIN_THREAD_JANK'' False \<and> \<not> g_isDumpStack (sampling w1) \<and>
    samples w3 = samples w1 \<and> g_freezeTaskFinished (sampling w3) \<and> sampleFreezeInfo (sampling w3) = sampleFreezeInfo (sampling w)"
proof -
  define v where "v = main_thread_runs e i m prs w"
  have "intruding 0 w w" using assms(1,2,4,5) by (simp add: intruding_def Let_def)
  from intruding_runs [OF this] assms(8,9) have v: "intruding m w v" by (simp add: v_def)
  then have "detectorCount (stackContent (sampling v)) = 1" "collectCount (stackContent (sampling v)) = m" "samplerFuncs (sampling v)"
    by (simp_all add: intruding_def Let_def)
  then have w1: "w1 = main_thread_report e pr v"
    using assms(3,10) by (simp add: main_thread_closure_def main_thread_report_def v_def Let_def)
  have s1: "int (samples w1) = int (samples w) + m" "\<not> g_isDumpStack (sampling w1)" "\<not> g_isReuseStack (sampling w1)"
    "isMainThreadStackEnabled (sampling w1)" "samplerFuncs (sampling w1)" "g_freezeSampleCount (sampling w1) = g_freezeSampleCount (sampling w)"
    "sampleFreezeInfo (sampling w1) = sampleFreezeInfo (sampling w)"
    using v assms(6) by (simp_all add: w1 intruding_def main_thread_report_def Report_info upd_stack_def Let_def)
  have s2: "\<not> samplerFuncs (sampling w2)" "\<not> g_isReuseStack (sampling w2)" "\<not> g_isDumpStack (sampling w2)"
    "g_freezeSampleCount (sampling w2) = g_freezeSampleCount (sampling w)" "sampleFreezeInfo (sampling w2) = sampleFreezeInfo (sampling w)"
    "samples w2 = samples w1"
    using s1(2-7) assms(11-13) by (simp_all add: CheckCurrentTaskLocked_def deinit_if_def Deinit_def ResetThreadSamplerFuncs_def
        erase_name_def pop_queue_def samples_def Let_def)
  have "w3 = w2\<lparr>sampling := ResetFreezeSampleFlags (sampling w2)\<rparr>"
    using s2(1-4) assms(7,14) by (simp add: freeze_closure_def Let_def)
  moreover have "last (out w1) = EReport ''MAIN_THREAD_JANK'' False"
    using assms(15,16) by (simp add: w1 main_thread_report_def ReportMainThreadEvent_def emit_def upd_sampling_def upd_stack_def Let_def)
  ultimately show ?thesis using s1(1,2) s2(5,6) by (simp add: ResetFreezeSampleFlags_def)
qed

theorem main_profile_takes_sampler_from_freeze_witness:
  "\<exists>w w1 w3. 0 < g_freezeSampleCount (sampling w) \<and> currentFile (sampleFreezeInfo (sampling w)) = ''f.txt'' \<and>
     w1 = main_thread_closure service_env demo_probe 150 2 (main_thread_runs service_env 150 2 [demo_probe, demo_probe] w) \<and>
     w3 = freeze_closure demo_probe 5 (snd (CheckCurrentTaskLocked demo_probe (WatchdogTask_default\<lparr>task_name := STACK_CHECKER\<rparr>) w1)) \<and>
     g_freezeTaskFinished (sampling w3) \<and> freezeFile (sampleFreezeInfo (sampling w3)) = []"
proof -
  define w where "w = upd_sampling (\<lambda>s. s\<lparr>stackContent := StackContent_init\<lparr>detectorCount := 1\<rparr>,
    timeContent := \<lparr>curBegin = 0, curEnd = 200000000\<rparr>\<rparr>) demo_freezing"
  let ?t = "WatchdogTask_default\<lparr>task_name := STACK_CHECKER\<rparr>"
  let ?w1 = "main_thread_closure service_env demo_probe 150 2 (main_thread_runs service_env 150 2 [demo_probe, demo_probe] w)"
  have h: "detectorCount (stackContent (sampling w)) = 1" "collectCount (stackContent (sampling w)) = 0" "(0::int) < 2"
    "g_isDumpStack (sampling w)" "samplerFuncs (sampling w)" "\<not> g_isReuseStack (sampling w)" "0 < g_freezeSampleCount (sampling w)"
    "list_all (\<lambda>pr. still_slow 150 w (pr_ns pr)) [demo_probe, demo_probe]" "int (length [demo_probe, demo_probe]) = 2"
    "task_name ?t = STACK_CHECKER" "pr_deinit demo_probe = 0" "pr_write demo_probe" "HISYSEVENT_ENABLE service_env"
    "sampleFreezeInfo (sampling w) = \<lparr>lastSaveTime = 0, freezeFile = [], currentFile = ''f.txt''\<rparr>"
    by (simp_all add: w_def demo_freezing_def demo_sharing_def Sampling_init_def StackContent_init_def still_slow_def CheckEventTimer_def
        demo_probe_def service_env_def MILLISEC_TO_NANOSEC_def Let_def)
  have c: "sampleFreezeInfo (sampling (freeze_closure demo_probe 5 (snd (CheckCurrentTaskLocked demo_probe ?t ?w1)))) = sampleFreezeInfo (sampling w)"
    "g_freezeTaskFinished (sampling (freeze_closure demo_probe 5 (snd (CheckCurrentTaskLocked demo_probe ?t ?w1))))"
    using main_profile_takes_sampler_from_freeze [OF h(1-9) refl h(10) refl h(11) refl h(12,13)] by blast+
  show ?thesis
    by (rule exI [of _ w], rule exI [of _ ?w1], rule exI) (use c h(7,14) in auto)
qed

end
