(* ===== verification/Watchdog_Facade.thy ===== *)
theory Watchdog_Facade
  imports Client_Api Sampler_Bridge Xcollie_Mgr
begin

text \<open>
  The class \<^verbatim>\<open>Watchdog\<close> (\<^verbatim>\<open>watchdog.cpp\<close>) as a whole: its methods hand their arguments to the singletons of the library.
  With it the pieces of \<^verbatim>\<open>watchdog_inner.cpp\<close> that only these methods reach: the getters, the functions that begin and end
  the handling of an event on a thread of a client, the time reserved for logging and the callbacks
  registered with other libraries.
\<close>

section \<open>State\<close>

definition INNER_DEFAULT_RESERVED_TIME :: int where "INNER_DEFAULT_RESERVED_TIME = 3500"
definition INNER_BETA_RESERVED_TIME :: int where "INNER_BETA_RESERVED_TIME = 6000"

text \<open>\<open>bussinessBeginTime\<close> is a time point of the steady clock; there is one for all threads.\<close>

record Watchdog_api =
  api_inner :: WatchdogInner
  bussinessBeginTime :: int
  reservedTime :: int
  api_mgr :: XcollieMgr
  api_names :: proc_name_cache

definition Watchdog_api_init :: Watchdog_api where
  "Watchdog_api_init = \<lparr>api_inner = WatchdogInner_init, bussinessBeginTime = 0, reservedTime = INNER_DEFAULT_RESERVED_TIME,
     api_mgr = XcollieMgr_init, api_names = \<lparr>g_curProcName = [], g_lastPid = 0\<rparr>\<rparr>"

definition on_inner :: "(WatchdogInner \<Rightarrow> WatchdogInner) \<Rightarrow> Watchdog_api \<Rightarrow> Watchdog_api" where
  "on_inner f a = a\<lparr>api_inner := f (api_inner a)\<rparr>"

definition from_inner :: "(WatchdogInner \<Rightarrow> 'r \<times> WatchdogInner) \<Rightarrow> Watchdog_api \<Rightarrow> 'r \<times> Watchdog_api" where
  "from_inner f a = (case f (api_inner a) of (r, w) \<Rightarrow> (r, a\<lparr>api_inner := w\<rparr>))"

section \<open>Getters and the rest of the inner class\<close>

definition GetSystemApp :: "WatchdogInner \<Rightarrow> bool" where "GetSystemApp w = isSystemApp w"
definition GetBundleName :: "WatchdogInner \<Rightarrow> string" where "GetBundleName w = bundleName w"
definition GetForeground :: "WatchdogInner \<Rightarrow> bool" where "GetForeground w = isForeground w"
definition GetAppDebug :: "WatchdogInner \<Rightarrow> bool" where "GetAppDebug w = isAppDebug w"
definition GetSpecifiedProcessName :: "WatchdogInner \<Rightarrow> string" where "GetSpecifiedProcessName w = specifiedProcessName w"

definition StopWatchdog :: "WatchdogInner \<Rightarrow> WatchdogInner" where
  "StopWatchdog w = Stop w"

text \<open>\<open>g_betaVersion\<close> is read once when the library is loaded.\<close>

definition GetReservedTimeForLogging :: "bool \<Rightarrow> Watchdog_api \<Rightarrow> int \<times> Watchdog_api" where
  "GetReservedTimeForLogging g_betaVersion a =
     (let a1 = (if g_betaVersion then a\<lparr>reservedTime := INNER_BETA_RESERVED_TIME\<rparr> else a) in (reservedTime a1, a1))"

text \<open>Called by the IPC library for too many proxies: whether the process exits.\<close>

definition IPCProxyLimitCallback :: "env \<Rightarrow> bool" where
  "IPCProxyLimitCallback e \<longleftrightarrow> getuid e \<ge> MIN_APP_UID \<and> isBetaVersion e"

text \<open>
  Called by the crash handler to describe the thread: the bytes put into a buffer of \<open>len\<close> characters, if they are.
\<close>

definition ThreadInfo :: "bool \<Rightarrow> nat \<Rightarrow> WatchdogInner \<Rightarrow> string option" where
  "ThreadInfo ucontext len w =
     (if \<not> ucontext then None else if length (currentScene w) > len then None else Some (currentScene w))"

definition UpdateTime :: "Sampling \<Rightarrow> int \<Rightarrow> int \<times> int \<times> int" where
  "UpdateTime s endTime = (curBegin (timeContent s), curEnd (timeContent s), endTime)"

text \<open>
  The functions a client's thread calls around the handling of an event; \<open>ns\<close> is the wall clock, \<open>begT\<close> and \<open>endT\<close> the
  steady one.
\<close>

definition InitBeginFunc :: "int \<Rightarrow> int \<Rightarrow> Watchdog_api \<Rightarrow> Watchdog_api" where
  "InitBeginFunc ns begT a = a\<lparr>api_inner := DistributeStart ns (api_inner a), bussinessBeginTime := begT\<rparr>"

definition InitEndFunc :: "env \<Rightarrow> stamp \<Rightarrow> probe \<Rightarrow> int \<Rightarrow> int \<Rightarrow> Watchdog_api \<Rightarrow> Watchdog_api" where
  "InitEndFunc e st pr ns endT a = on_inner (DistributeEnd e st pr ns (bussinessBeginTime a) endT) a"

section \<open>The methods of Watchdog\<close>

definition Watchdog_RunOneShotTask ::
  "env \<Rightarrow> stamp \<Rightarrow> string \<Rightarrow> task_fn option \<Rightarrow> u64 \<Rightarrow> Watchdog_api \<Rightarrow> Watchdog_api" where
  "Watchdog_RunOneShotTask e st nm tsk delay = on_inner (RunOneShotTask e st nm tsk delay)"

definition Watchdog_StopWatchdog :: "Watchdog_api \<Rightarrow> Watchdog_api" where
  "Watchdog_StopWatchdog = on_inner StopWatchdog"

definition Watchdog_InitFfrtWatchdog :: "env \<Rightarrow> Watchdog_api \<Rightarrow> Watchdog_api" where
  "Watchdog_InitFfrtWatchdog e = on_inner (InitFfrtWatchdog e)"

definition Watchdog_SetBundleInfo :: "string \<Rightarrow> string \<Rightarrow> Watchdog_api \<Rightarrow> Watchdog_api" where
  "Watchdog_SetBundleInfo nm ver = on_inner (SetBundleInfo nm ver)"

definition Watchdog_SetSystemApp :: "bool \<Rightarrow> Watchdog_api \<Rightarrow> Watchdog_api" where
  "Watchdog_SetSystemApp b = on_inner (SetSystemApp b)"

definition Watchdog_SetForeground :: "bool \<Rightarrow> Watchdog_api \<Rightarrow> Watchdog_api" where
  "Watchdog_SetForeground b = on_inner (SetForeground b)"

definition Watchdog_GetForeground :: "Watchdog_api \<Rightarrow> bool" where
  "Watchdog_GetForeground a = GetForeground (api_inner a)"

definition Watchdog_InitMainLooperWatcher :: "int \<Rightarrow> bool \<Rightarrow> Watchdog_api \<Rightarrow> (bool \<times> Watchdog_api) option" where
  "Watchdog_InitMainLooperWatcher tid given a =
     map_option (\<lambda>(r, w). (r, a\<lparr>api_inner := w\<rparr>)) (InitMainLooperWatcher tid given (api_inner a))"

definition Watchdog_SetAppDebug :: "bool \<Rightarrow> Watchdog_api \<Rightarrow> Watchdog_api" where
  "Watchdog_SetAppDebug b = on_inner (SetAppDebug b)"

definition Watchdog_GetAppDebug :: "Watchdog_api \<Rightarrow> bool" where
  "Watchdog_GetAppDebug a = GetAppDebug (api_inner a)"

definition Watchdog_SetEventConfig ::
  "string \<Rightarrow> (string \<times> string) list \<Rightarrow> Watchdog_api \<Rightarrow> std_exception + int \<times> Watchdog_api" where
  "Watchdog_SetEventConfig param paramsMap a =
     map_sum id (\<lambda>(r, w). (r, a\<lparr>api_inner := w\<rparr>)) (SetEventConfig param paramsMap (api_inner a))"

definition Watchdog_ConfigEventPolicy ::
  "string \<Rightarrow> (string \<times> string) list \<Rightarrow> Watchdog_api \<Rightarrow> std_exception + int \<times> Watchdog_api" where
  "Watchdog_ConfigEventPolicy param paramsMap a =
     map_sum id (\<lambda>(r, w). (r, a\<lparr>api_inner := w\<rparr>)) (ConfigEventPolicy param paramsMap (api_inner a))"

definition Watchdog_SetSpecifiedProcessName :: "string \<Rightarrow> Watchdog_api \<Rightarrow> Watchdog_api" where
  "Watchdog_SetSpecifiedProcessName nm = on_inner (SetSpecifiedProcessName nm)"

definition Watchdog_SetScrollState :: "bool \<Rightarrow> Watchdog_api \<Rightarrow> Watchdog_api" where
  "Watchdog_SetScrollState b = on_inner (SetScrollState b)"

definition Watchdog_StartSample :: "env \<Rightarrow> stamp \<Rightarrow> string \<Rightarrow> int \<Rightarrow> int \<Rightarrow> Watchdog_api \<Rightarrow> string \<times> Watchdog_api" where
  "Watchdog_StartSample e st date duration interval = from_inner (StartSample e st date duration interval)"

definition Watchdog_StopSample :: "probe \<Rightarrow> int \<Rightarrow> Watchdog_api \<Rightarrow> string \<times> Watchdog_api" where
  "Watchdog_StopSample pr sampleCount = from_inner (StopSample pr sampleCount)"

definition Watchdog_GetReservedTimeForLogging :: "bool \<Rightarrow> Watchdog_api \<Rightarrow> int \<times> Watchdog_api" where
  "Watchdog_GetReservedTimeForLogging g_betaVersion a = GetReservedTimeForLogging g_betaVersion a"

definition Watchdog_SetFreezeHandler :: "nat option \<Rightarrow> Watchdog_api \<Rightarrow> nat option \<times> Watchdog_api" where
  "Watchdog_SetFreezeHandler handler a =
     (case SetHandler handler (api_mgr a) of (r, m) \<Rightarrow> (r, a\<lparr>api_mgr := m\<rparr>))"

definition Watchdog_ReadDataFromBuffer :: "int \<Rightarrow> worker \<Rightarrow> int \<Rightarrow> Watchdog_api \<Rightarrow> string option \<times> Watchdog_api" where
  "Watchdog_ReadDataFromBuffer now k type a =
     (case ReadDataFromBuffer now k type (api_mgr a) of (r, m) \<Rightarrow> (r, a\<lparr>api_mgr := m\<rparr>))"

definition Watchdog_GetOutSelfProcName :: "(int \<Rightarrow> string) \<Rightarrow> Watchdog_api \<Rightarrow> string \<times> Watchdog_api" where
  "Watchdog_GetOutSelfProcName first_line a =
     (case GetProcessNameFromProcCmdline first_line 0 (api_names a) of (r, c) \<Rightarrow> (r, a\<lparr>api_names := c\<rparr>))"

section \<open>Events on several threads\<close>

text \<open>No start-up or scrolling is being watched, so that only the duration of the event counts.\<close>

definition plain_watch :: "env \<Rightarrow> Sampling \<Rightarrow> bool" where
  "plain_watch e s \<longleftrightarrow> HICOLLIE_JANK_ENABLE e \<and> \<not> isScroll s \<and> \<not> enableStartSample (startSlowContent s)"

definition at_times :: "int \<Rightarrow> int \<Rightarrow> WatchdogInner \<Rightarrow> WatchdogInner" where
  "at_times b e = upd_sampling (\<lambda>s. s\<lparr>timeContent := \<lparr>curBegin = b, curEnd = e\<rparr>\<rparr>)"

lemma plain_CheckSample:
  "plain_watch e (sampling w) \<Longrightarrow> CheckSample e st pr endT d w = (False, w)"
  by (simp add: plain_watch_def CheckSample_def EnableAppStartSample_def start_content_def Let_def)

lemma at_times_sel [simp]:
  "jank k (sampling (at_times b x w)) = jank k (sampling w)" "plain_watch e (sampling (at_times b x w)) = plain_watch e (sampling w)"
  "at_times b' x' (at_times b x w) = at_times b' x' w"
  by (simp_all add: at_times_def upd_sampling_def jank_def plain_watch_def)

lemma InitEnd_plain:
  assumes "plain_watch e (sampling w)"
  shows "endT - begT \<le> jank KEY_SAMPLE_INTERVAL (sampling w) * 1000000 \<Longrightarrow>
      DistributeEnd e st pr ns begT endT (at_times b x w) = at_times b ns w"
    and "endT - begT > jank KEY_SAMPLE_INTERVAL (sampling w) * 1000000 \<Longrightarrow> jank KEY_LOG_TYPE (sampling w) = 1 \<Longrightarrow>
      DistributeEnd e st pr ns begT endT (at_times b x w) =
        StartProfileMainThread e st pr endT (jank KEY_SAMPLE_INTERVAL (sampling w)) (at_times b ns w)"
proof -
  have w: "upd_sampling (\<lambda>s. s\<lparr>timeContent := (timeContent s)\<lparr>curEnd := ns\<rparr>\<rparr>) (at_times b x w) = at_times b ns w"
    by (simp add: upd_sampling_def at_times_def)
  have c: "CheckSample e st pr endT d (at_times b ns w) = (False, at_times b ns w)" for d
    using assms by (simp add: plain_CheckSample)
  have e: "HICOLLIE_JANK_ENABLE e" using assms by (simp add: plain_watch_def)
  note d = DistributeEnd_def w c e at_times_sel(1) Let_def
  show "DistributeEnd e st pr ns begT endT (at_times b x w) = at_times b ns w"
    if "endT - begT \<le> jank KEY_SAMPLE_INTERVAL (sampling w) * 1000000"
    using that by (simp add: d)
  show "DistributeEnd e st pr ns begT endT (at_times b x w) =
        StartProfileMainThread e st pr endT (jank KEY_SAMPLE_INTERVAL (sampling w)) (at_times b ns w)"
    if "endT - begT > jank KEY_SAMPLE_INTERVAL (sampling w) * 1000000" and "jank KEY_LOG_TYPE (sampling w) = 1"
    using that by (simp add: d)
qed

lemma DistributeStart_times: "DistributeStart ns w = at_times ns (curEnd (timeContent (sampling w))) w"
  by (simp add: DistributeStart_def at_times_def upd_sampling_def)


definition demo_api :: Watchdog_api where
  "demo_api = Watchdog_api_init\<lparr>api_inner := WatchdogInner_init\<lparr>sampling :=
     Sampling_init\<lparr>jankParamsMap := jankParamsMap_init(KEY_LOG_TYPE \<mapsto> 1)\<rparr>\<rparr>\<rparr>"


end
