(* ===== verification/Platform_Io.thy ===== *)
theory Platform_Io
  imports Process_Files
begin

text \<open>
  The thin layer over the system (\<^verbatim>\<open>xcollie_utils.cpp\<close>, the clocks of \<^verbatim>\<open>thread_sampler_utils.cpp\<close>, \<^verbatim>\<open>WriteStringToFile\<close> of
  \<^verbatim>\<open>watchdog_inner.cpp\<close>): clocks and the texts of times, bounded reads of files, the marker written before an
  exit, the wait before it, and the kernel's stack of a thread. What the system calls return are arguments.
\<close>

section \<open>Clocks\<close>

record timespec =
  tv_sec :: int
  tv_nsec :: int

definition SEC_TO_MANOSEC :: int where "SEC_TO_MANOSEC = 1000000000"
definition SEC_TO_MICROSEC :: u64 where "SEC_TO_MICROSEC = 1000000"

text \<open>The product is one of signed 64-bit numbers; it is exact for more than two hundred years of uptime.\<close>

definition GetCurrentTickMillseconds :: "timespec \<Rightarrow> u64" where
  "GetCurrentTickMillseconds t = word_of_int (tv_sec t * SEC_TO_MANOSEC + tv_nsec t) div SEC_TO_MICROSEC"

definition GetCurrentBootMillseconds :: "timespec \<Rightarrow> u64" where
  "GetCurrentBootMillseconds t = word_of_int (tv_sec t * SEC_TO_MANOSEC + tv_nsec t) div SEC_TO_MICROSEC"

definition NANOSEC_PER_SEC :: u64 where "NANOSEC_PER_SEC = 1000 * 1000 * 1000"
definition NANOSEC_PER_MICROSEC :: u64 where "NANOSEC_PER_MICROSEC = 1000"

definition GetCurrentTimeNanoseconds :: "timespec \<Rightarrow> u64" where
  "GetCurrentTimeNanoseconds t = word_of_int (tv_sec t) * NANOSEC_PER_SEC + word_of_int (tv_nsec t)"

text \<open>Division and remainder of the language round towards zero.\<close>

definition c_div :: "int \<Rightarrow> int \<Rightarrow> int" where
  "c_div a b = (if 0 \<le> a then a div b else - ((- a) div b))"

definition c_rem :: "int \<Rightarrow> int \<Rightarrow> int" where
  "c_rem a b = a - c_div a b * b"

section \<open>Texts of times\<close>

text \<open>\<^verbatim>\<open>%06lld\<close>: six places, the sign among them, filled with zeros.\<close>

definition printf_06 :: "int \<Rightarrow> string" where
  "printf_06 v =
     (let sign = (if v < 0 then ''-'' else ''''); d = show_nat (nat \<bar>v\<bar>)
      in sign @ replicate (6 - length sign - length d) (CHR ''0'') @ d)"

definition SEC_TO_NANOSEC :: int where "SEC_TO_NANOSEC = 1000000000"
definition MICROSEC_DIGIT_COUNT :: nat where "MICROSEC_DIGIT_COUNT = 6"

text \<open>
  The system clock in nanoseconds, and what \<^verbatim>\<open>localtime\<close> and \<^verbatim>\<open>strftime\<close> make of its seconds: \<^term>\<open>None\<close> for a failure.
\<close>

record time_in =
  ti_now :: int
  ti_text :: "int \<Rightarrow> string option"

definition FormatTimeImpl :: "time_in \<Rightarrow> string \<times> int" where
  "FormatTimeImpl ti =
     (let timestamp = ti_now ti; ns = c_rem timestamp SEC_TO_NANOSEC; tt = c_div timestamp SEC_TO_NANOSEC
      in (case ti_text ti tt of None \<Rightarrow> [] | Some s \<Rightarrow> s, ns))"

definition FormatTime :: "time_in \<Rightarrow> string" where
  "FormatTime ti = fst (FormatTimeImpl ti)"

text \<open>\<^verbatim>\<open>snprintf_s\<close> fails when the text and its end do not fit the buffer of \<^verbatim>\<open>MICROSEC_DIGIT_COUNT + 1\<close> characters.\<close>

definition FormatTimeWithUs :: "time_in \<Rightarrow> string" where
  "FormatTimeWithUs ti =
     (case FormatTimeImpl ti of
        (result, ns) \<Rightarrow>
          let usBuf = printf_06 (c_div ns 1000)
          in if length usBuf \<ge> MICROSEC_DIGIT_COUNT + 1 then result else result @ ''.'' @ usBuf)"

definition MICROSEC_LEN :: nat where "MICROSEC_LEN = 6"

text \<open>The sampler's own version; \<open>text\<close> is what \<^verbatim>\<open>localtime_r\<close> and \<^verbatim>\<open>strftime\<close> give.\<close>

definition TimeFormat :: "(int \<Rightarrow> string) \<Rightarrow> u64 \<Rightarrow> string" where
  "TimeFormat text time =
     (let nsec = time mod NANOSEC_PER_SEC;
          sec = sint (time div NANOSEC_PER_SEC);
          usec = nsec div NANOSEC_PER_MICROSEC;
          usecChars = ''.'' @ printf_06 (uint usec)
      in if length usecChars \<ge> MICROSEC_LEN + 2 then text sec else text sec @ usecChars)"

section \<open>Files\<close>

text \<open>
  An open file gives at most as many bytes as asked for; nothing stands for its end and for an error.
\<close>

definition ReadProcFile :: "(nat \<Rightarrow> string) option \<Rightarrow> bool \<Rightarrow> nat \<Rightarrow> string option" where
  "ReadProcFile file allocated readSize =
     (if readSize = 0 then None
      else case file of
          None \<Rightarrow> None
        | Some rd \<Rightarrow>
            if \<not> allocated then None
            else let bytes = rd (readSize - 1) in if bytes = [] then None else Some bytes)"

definition FIRST_LINE_BUFFER_SIZE :: nat where "FIRST_LINE_BUFFER_SIZE = 256"

text \<open>The C interface has a copy of its own.\<close>

definition ReadProcFileLocal :: "(nat \<Rightarrow> string) option \<Rightarrow> bool \<Rightarrow> nat \<Rightarrow> string option" where
  "ReadProcFileLocal file allocated readSize =
     (if readSize = 0 then None
      else case file of
          None \<Rightarrow> None
        | Some rd \<Rightarrow>
            if \<not> allocated then None
            else let bytes = rd (readSize - 1) in if bytes = [] then None else Some bytes)"

text \<open>
  The marker of an expected death: whether its path could be built and the file opened, and how many characters were written.
\<close>

definition WriteStringToFile :: "bool \<Rightarrow> bool \<Rightarrow> nat \<Rightarrow> string \<Rightarrow> bool" where
  "WriteStringToFile built opened written str =
     (if \<not> built then False else if \<not> opened then False else written = length str)"

text \<open>The region of the device, read at the first call and kept.\<close>

definition IsOversea :: "string \<Rightarrow> bool option \<Rightarrow> bool \<times> bool option" where
  "IsOversea region isOversea =
     (case isOversea of Some b \<Rightarrow> (b, Some b) | None \<Rightarrow> let b = (region \<noteq> ''CN'') in (b, Some b))"

section \<open>The wait before an exit\<close>

text \<open>
  \<open>sleepf k l\<close> is what the \<open>k\<close>-th \<^verbatim>\<open>sleep\<close> returns when asked for \<open>l\<close> seconds: the seconds left when a
  signal ended it. The result is the time slept; without progress the loop does not end.
\<close>

partial_function (option) delay_loop :: "(nat \<Rightarrow> nat \<Rightarrow> nat) \<Rightarrow> nat \<Rightarrow> nat \<Rightarrow> nat option" where
  "delay_loop sleepf k leftTime =
     (if leftTime > 0
      then Option.bind (delay_loop sleepf (Suc k) (sleepf k leftTime)) (\<lambda>s. Some (s + (leftTime - sleepf k leftTime)))
      else Some 0)"

definition DelayBeforeExit :: "(nat \<Rightarrow> nat \<Rightarrow> nat) \<Rightarrow> nat \<Rightarrow> nat option" where
  "DelayBeforeExit sleepf leftTime = delay_loop sleepf 0 leftTime"

section \<open>Kernel stack\<close>

text \<open>
  What the device gives: whether it can be opened, the result of the request, and the buffer, which is only
  filled by the request and is zero before.
\<close>

record kernel_in =
  ki_open :: bool
  ki_ret :: int
  ki_buff :: string

definition DumpKernelStack :: "kernel_in \<Rightarrow> string \<Rightarrow> int \<Rightarrow> string \<times> int" where
  "DumpKernelStack ki buff ret = (if \<not> ki_open ki then (buff, ret) else (ki_buff ki, ki_ret ki))"

definition GetKernelStackByTid :: "kernel_in \<Rightarrow> string" where
  "GetKernelStackByTid ki =
     (case DumpKernelStack ki [] 0 of (buff, ret) \<Rightarrow> if ret \<noteq> 0 then [] else takeWhile (\<lambda>c. c \<noteq> CHR 0x00) buff)"

section \<open>Properties\<close>

text \<open>The two clocks in milliseconds: exact, and so never running backwards, below \<open>2 ^ 63\<close> nanoseconds.\<close>

theorem tick_exact:
  assumes "0 \<le> tv_sec t" and "0 \<le> tv_nsec t" and "tv_nsec t < 1000000000" and "tv_sec t * 1000000000 + tv_nsec t < 2 ^ 63"
  shows "uint (GetCurrentTickMillseconds t) = tv_sec t * 1000 + tv_nsec t div 1000000"
    and "GetCurrentBootMillseconds t = GetCurrentTickMillseconds t"
proof -
  have b: "0 \<le> tv_sec t * 1000000000 + tv_nsec t" using assms(1,2) by simp
  have "uint (word_of_int (tv_sec t * 1000000000 + tv_nsec t) :: u64) = tv_sec t * 1000000000 + tv_nsec t"
    using b assms(4) by (simp only: uint_word_of_int) (simp add: mod_pos_pos_trivial)
  then have "uint (GetCurrentTickMillseconds t) = (tv_sec t * 1000000000 + tv_nsec t) div 1000000"
    by (simp only: GetCurrentTickMillseconds_def SEC_TO_MANOSEC_def SEC_TO_MICROSEC_def uint_div_distrib uint_numeral)
      simp
  also have "\<dots> = tv_sec t * 1000 + tv_nsec t div 1000000" using assms(1,2) by (simp add: algebra_simps)
  finally show "uint (GetCurrentTickMillseconds t) = tv_sec t * 1000 + tv_nsec t div 1000000" .
  show "GetCurrentBootMillseconds t = GetCurrentTickMillseconds t"
    by (simp add: GetCurrentBootMillseconds_def GetCurrentTickMillseconds_def)
qed

lemma length_printf_06: "0 \<le> v \<Longrightarrow> v < 1000000 \<Longrightarrow> length (printf_06 v) = 6"
proof -
  assume v: "0 \<le> v" "v < 1000000"
  then have "length (show_nat (nat v)) \<le> 6" by (intro length_show_nat) auto
  then show ?thesis using v by (simp add: printf_06_def Let_def)
qed

lemma num_of_zeros: "num_of_digits 0 (replicate n (CHR ''0'') @ s) = num_of_digits 0 s"
  by (induction n) (simp_all add: digit_val_def)

lemma num_printf_06: "0 \<le> v \<Longrightarrow> num_of_digits 0 (printf_06 v) = nat v"
  by (simp add: printf_06_def Let_def num_of_zeros num_of_show_nat)

lemma div_less_pos:
  assumes "(a :: int) < b * c" and "0 < c"
  shows "a div c < b"
proof (rule ccontr)
  assume "\<not> a div c < b"
  then have "b * c \<le> a div c * c" using assms(2) by simp
  also have "\<dots> \<le> a" using pos_mod_sign [OF assms(2), of a] by (simp add: minus_mod_eq_div_mult [symmetric])
  finally show False using assms(1) by simp
qed

text \<open>
  The microseconds of a time stamp are always six digits, which read back give the time, and both texts of a time agree,
  the watchdog's and the sampler's, from 1970 on.
\<close>

theorem time_text_roundtrip:
  assumes "0 \<le> ti_now ti" and "ti_now ti < 2 ^ 63" and "\<And>s. ti_text ti s = Some (txt s)"
  shows "\<exists>us. FormatTimeWithUs ti = FormatTime ti @ ''.'' @ us \<and> length us = 6 \<and>
      int (num_of_digits 0 us) = ti_now ti mod 1000000000 div 1000"
    and "TimeFormat txt (word_of_int (ti_now ti)) = FormatTimeWithUs ti"
proof -
  let ?t = "ti_now ti" and ?ns = "ti_now ti mod 1000000000"
  have r: "FormatTimeImpl ti = (txt (?t div 1000000000), ?ns)"
    using assms(1,3) by (simp add: FormatTimeImpl_def c_rem_def c_div_def SEC_TO_NANOSEC_def minus_div_mult_eq_mod Let_def)
  have "0 \<le> ?ns" "?ns < 1000000 * 1000" by simp_all
  then have us: "0 \<le> ?ns div 1000" "?ns div 1000 < 1000000"
    by (simp_all add: pos_imp_zdiv_nonneg_iff div_less_pos)
  then have len: "length (printf_06 (?ns div 1000)) = 6" by (rule length_printf_06)
  have d: "c_div ?ns 1000 = ?ns div 1000" by (simp add: c_div_def)
  have f: "FormatTimeWithUs ti = txt (?t div 1000000000) @ ''.'' @ printf_06 (?ns div 1000)"
    by (simp add: FormatTimeWithUs_def r d len MICROSEC_DIGIT_COUNT_def Let_def)
  then show "\<exists>us. FormatTimeWithUs ti = FormatTime ti @ ''.'' @ us \<and> length us = 6 \<and>
      int (num_of_digits 0 us) = ?ns div 1000"
    using len us(1) num_printf_06 [OF us(1)] by (intro exI [of _ "printf_06 (?ns div 1000)"]) (simp add: FormatTime_def r)
  have u: "uint (word_of_int ?t :: u64) = ?t"
    using assms(1,2) by (simp only: uint_word_of_int) (simp add: mod_pos_pos_trivial)
  have "uint ((word_of_int ?t :: u64) div 1000000000) = ?t div 1000000000"
    by (simp only: uint_div_distrib u uint_numeral) simp
  moreover have "?t div 1000000000 < 2 ^ 63" using assms(1,2) by simp
  ultimately have sec: "sint ((word_of_int ?t :: u64) div 1000000000) = ?t div 1000000000"
    using assms(1) by (simp add: sint_uint signed_take_bit_int_eq_self pos_imp_zdiv_nonneg_iff)
  have usec: "uint ((word_of_int ?t :: u64) mod 1000000000 div 1000) = ?ns div 1000"
    by (simp only: uint_div_distrib uint_mod_distrib u uint_numeral) simp
  show "TimeFormat txt (word_of_int ?t) = FormatTimeWithUs ti"
    using sec usec len f
    by (simp add: TimeFormat_def NANOSEC_PER_SEC_def NANOSEC_PER_MICROSEC_def MICROSEC_LEN_def Let_def)
qed

lemma takeWhile_take: "takeWhile P (take n xs) = take n (takeWhile P xs)"
  by (induction xs arbitrary: n) (auto simp: take_Cons split: nat.split)

lemma takeWhile_before: "c \<notin> set a \<Longrightarrow> takeWhile (\<lambda>x. x \<noteq> c) (a @ c # b) = a"
  by (induction a) auto

lemma takeWhile_without: "c \<notin> set a \<Longrightarrow> takeWhile (\<lambda>x. x \<noteq> c) a = a"
  by (induction a) auto

lemma GetFirstLine_takeWhile: "GetFirstLine (Some c) = takeWhile (\<lambda>x. x \<noteq> CHR 0x0A) c"
proof (cases "CHR 0x0A \<in> set c")
  case True
  then obtain a b where c: "c = a @ CHR 0x0A # b" "CHR 0x0A \<notin> set a" by (meson split_list_first)
  then have "takeWhile (\<lambda>x. x \<noteq> CHR 0x0A) c = a" by (simp add: takeWhile_before)
  then show ?thesis using str_find_char_append [OF c(2), of b] c by (simp add: GetFirstLine_def str_substr_def)
next
  case False
  then have "str_find c [CHR 0x0A] 0 = None" by (simp add: str_find_char_None)
  then show ?thesis using False by (simp add: GetFirstLine_def takeWhile_without)
qed

text \<open>
  The first line of a file that delivers what it has: the first line of its first 255 bytes, so a longer line is cut.
\<close>

theorem first_line_cut:
  assumes "\<And>n. rd n = take n content" and "content \<noteq> []"
  shows "GetFirstLine (ReadProcFile (Some rd) True FIRST_LINE_BUFFER_SIZE) = take 255 (takeWhile (\<lambda>c. c \<noteq> CHR 0x0A) content)"
proof -
  have "ReadProcFile (Some rd) True FIRST_LINE_BUFFER_SIZE = Some (take 255 content)"
    using assms by (simp add: ReadProcFile_def FIRST_LINE_BUFFER_SIZE_def Let_def)
  then show ?thesis by (simp add: GetFirstLine_takeWhile takeWhile_take)
qed

text \<open>
  The wait sleeps the whole time when every \<^verbatim>\<open>sleep\<close> makes some progress, however often signals end it early.
\<close>

theorem delay_complete:
  assumes "\<And>k l. 0 < l \<Longrightarrow> sleepf k l < l"
  shows "DelayBeforeExit sleepf leftTime = Some leftTime"
proof -
  have "delay_loop sleepf k l = Some l" for k l
  proof (induction l arbitrary: k rule: less_induct)
    case (less l)
    show ?case
    proof (cases "l = 0")
      case False
      then have lt: "sleepf k l < l" using assms by simp
      then show ?thesis using less [OF lt, of "Suc k"] False by (subst delay_loop.simps) simp
    qed (simp add: delay_loop.simps)
  qed
  then show ?thesis by (simp add: DelayBeforeExit_def)
qed

text \<open>Without the device, or when the request fails, the stack of the kernel is empty.\<close>

theorem kernel_stack_absent:
  assumes "\<not> ki_open ki \<or> ki_ret ki \<noteq> 0"
  shows "GetKernelStackByTid ki = []"
  using assms by (auto simp: GetKernelStackByTid_def DumpKernelStack_def)

end
