(* ===== verification/App_Watchdog.thy ===== *)
theory App_Watchdog
  imports Process_Files
begin

text \<open>
  The settings an application framework keeps for the watchdog (\<^verbatim>\<open>app_watchdog_inner.cpp\<close>; the class
  \<^verbatim>\<open>AppWatchdog\<close> of \<^verbatim>\<open>app_watchdog.cpp\<close> forwards to it), and the time reserved for logging.
\<close>

definition DEFAULT_RESERVED_TIME :: int where "DEFAULT_RESERVED_TIME = 3500"
definition BETA_RESERVED_TIME :: int where "BETA_RESERVED_TIME = 6000"

record AppWatchdogInner =
  app_reservedTime :: int
  app_specifiedProcessName :: string
  app_bundleName :: string
  app_bundleVersion :: string
  app_isSystemApp :: bool
  app_isForeground :: bool
  app_isAppDebug :: bool
  app_isScroll :: bool
  app_betaCache :: string

definition AppWatchdogInner_init :: AppWatchdogInner where
  "AppWatchdogInner_init = \<lparr>app_reservedTime = DEFAULT_RESERVED_TIME, app_specifiedProcessName = [], app_bundleName = [],
     app_bundleVersion = [], app_isSystemApp = False, app_isForeground = False, app_isAppDebug = False,
     app_isScroll = False, app_betaCache = []\<rparr>"

text \<open>\<^verbatim>\<open>AppWatchdogUtils::IsBetaVersion\<close> keeps the parameter in a static string, like its twin in the native library.\<close>

definition App_IsBetaVersion :: "string \<Rightarrow> AppWatchdogInner \<Rightarrow> bool \<times> AppWatchdogInner" where
  "App_IsBetaVersion param a =
     (case cached_flag ''beta'' param (app_betaCache a) of (b, c) \<Rightarrow> (b, a\<lparr>app_betaCache := c\<rparr>))"

definition App_GetReservedTimeForLogging :: "string \<Rightarrow> AppWatchdogInner \<Rightarrow> int \<times> AppWatchdogInner" where
  "App_GetReservedTimeForLogging param a =
     (case App_IsBetaVersion param a of
        (version, a1) \<Rightarrow>
          let a2 = (if version then a1\<lparr>app_reservedTime := BETA_RESERVED_TIME\<rparr> else a1)
          in (app_reservedTime a2, a2))"

definition App_SetBundleInfo :: "string \<times> string \<Rightarrow> AppWatchdogInner \<Rightarrow> AppWatchdogInner" where
  "App_SetBundleInfo b a = a\<lparr>app_bundleName := fst b, app_bundleVersion := snd b\<rparr>"

definition App_SetSystemApp :: "bool \<Rightarrow> AppWatchdogInner \<Rightarrow> AppWatchdogInner" where
  "App_SetSystemApp b a = a\<lparr>app_isSystemApp := b\<rparr>"

definition App_SetAppDebug :: "bool \<Rightarrow> AppWatchdogInner \<Rightarrow> AppWatchdogInner" where
  "App_SetAppDebug b a = a\<lparr>app_isAppDebug := b\<rparr>"

definition App_SetForeground :: "bool \<Rightarrow> AppWatchdogInner \<Rightarrow> AppWatchdogInner" where
  "App_SetForeground b a = a\<lparr>app_isForeground := b\<rparr>"

definition App_SetScrollState :: "bool \<Rightarrow> AppWatchdogInner \<Rightarrow> AppWatchdogInner" where
  "App_SetScrollState b a = a\<lparr>app_isScroll := b\<rparr>"

definition App_SetSpecifiedProcessName :: "string \<Rightarrow> AppWatchdogInner \<Rightarrow> AppWatchdogInner" where
  "App_SetSpecifiedProcessName nm a = a\<lparr>app_specifiedProcessName := nm\<rparr>"

definition App_GetSystemApp :: "AppWatchdogInner \<Rightarrow> bool" where "App_GetSystemApp a = app_isSystemApp a"
definition App_GetBundleName :: "AppWatchdogInner \<Rightarrow> string" where "App_GetBundleName a = app_bundleName a"
definition App_GetForeground :: "AppWatchdogInner \<Rightarrow> bool" where "App_GetForeground a = app_isForeground a"
definition App_GetSpecifiedProcessName :: "AppWatchdogInner \<Rightarrow> string" where
  "App_GetSpecifiedProcessName a = app_specifiedProcessName a"
definition App_GetScrollState :: "AppWatchdogInner \<Rightarrow> bool" where "App_GetScrollState a = app_isScroll a"
definition App_GetAppDebug :: "AppWatchdogInner \<Rightarrow> bool" where "App_GetAppDebug a = app_isAppDebug a"

section \<open>The public class\<close>

text \<open>\<^verbatim>\<open>app_watchdog.cpp\<close>: every method is the one of the inner class.\<close>

definition AppWatchdog_GetReservedTimeForLogging :: "string \<Rightarrow> AppWatchdogInner \<Rightarrow> int \<times> AppWatchdogInner" where
  "AppWatchdog_GetReservedTimeForLogging param a = App_GetReservedTimeForLogging param a"

definition AppWatchdog_SetBundleInfo :: "string \<times> string \<Rightarrow> AppWatchdogInner \<Rightarrow> AppWatchdogInner" where
  "AppWatchdog_SetBundleInfo x a = App_SetBundleInfo x a"

definition AppWatchdog_SetSystemApp :: "bool \<Rightarrow> AppWatchdogInner \<Rightarrow> AppWatchdogInner" where
  "AppWatchdog_SetSystemApp x a = App_SetSystemApp x a"

definition AppWatchdog_SetAppDebug :: "bool \<Rightarrow> AppWatchdogInner \<Rightarrow> AppWatchdogInner" where
  "AppWatchdog_SetAppDebug x a = App_SetAppDebug x a"

definition AppWatchdog_SetForeground :: "bool \<Rightarrow> AppWatchdogInner \<Rightarrow> AppWatchdogInner" where
  "AppWatchdog_SetForeground x a = App_SetForeground x a"

definition AppWatchdog_SetScrollState :: "bool \<Rightarrow> AppWatchdogInner \<Rightarrow> AppWatchdogInner" where
  "AppWatchdog_SetScrollState x a = App_SetScrollState x a"

definition AppWatchdog_SetSpecifiedProcessName :: "string \<Rightarrow> AppWatchdogInner \<Rightarrow> AppWatchdogInner" where
  "AppWatchdog_SetSpecifiedProcessName x a = App_SetSpecifiedProcessName x a"

definition AppWatchdog_GetSystemApp :: "AppWatchdogInner \<Rightarrow> bool" where
  "AppWatchdog_GetSystemApp a = App_GetSystemApp a"

definition AppWatchdog_GetBundleName :: "AppWatchdogInner \<Rightarrow> string" where
  "AppWatchdog_GetBundleName a = App_GetBundleName a"

definition AppWatchdog_GetForeground :: "AppWatchdogInner \<Rightarrow> bool" where
  "AppWatchdog_GetForeground a = App_GetForeground a"

definition AppWatchdog_GetSpecifiedProcessName :: "AppWatchdogInner \<Rightarrow> string" where
  "AppWatchdog_GetSpecifiedProcessName a = App_GetSpecifiedProcessName a"

definition AppWatchdog_GetScrollState :: "AppWatchdogInner \<Rightarrow> bool" where
  "AppWatchdog_GetScrollState a = App_GetScrollState a"

definition AppWatchdog_GetAppDebug :: "AppWatchdogInner \<Rightarrow> bool" where
  "AppWatchdog_GetAppDebug a = App_GetAppDebug a"

section \<open>What a reader sees\<close>

text \<open>A setting: what was written last is read, and writes of another setting do not disturb it.\<close>

locale setting =
  fixes rd :: "'s \<Rightarrow> 'v" and wr :: "'x \<Rightarrow> 's \<Rightarrow> 's" and val :: "'x \<Rightarrow> 'v"
  assumes rd_wr: "rd (wr x s) = val x"
begin

lemma last_write: "xs \<noteq> [] \<Longrightarrow> (\<And>x s. rd (other x s) = rd s) \<Longrightarrow> rd (fold other ys (fold wr xs s)) = val (last xs)"
proof -
  assume ne: "xs \<noteq> []" and other: "\<And>x s. rd (other x s) = rd s"
  have "rd (fold other ys t) = rd t" for t by (induction ys arbitrary: t) (simp_all add: other)
  moreover have "rd (fold wr xs s) = val (last xs)"
    using ne by (induction xs arbitrary: s rule: list_nonempty_induct) (simp_all add: rd_wr)
  ultimately show ?thesis by simp
qed

end

interpretation fg: setting App_GetForeground App_SetForeground "\<lambda>b. b"
  by unfold_locales (simp add: App_GetForeground_def App_SetForeground_def)

interpretation bn: setting App_GetBundleName App_SetBundleInfo fst
  by unfold_locales (simp add: App_GetBundleName_def App_SetBundleInfo_def)

theorem settings_keep_last_write:
  assumes "bs \<noteq> []" and "ns \<noteq> []"
  shows "App_GetForeground (fold App_SetBundleInfo ns (fold App_SetForeground bs a)) = last bs \<and>
    App_GetBundleName (fold App_SetForeground bs (fold App_SetBundleInfo ns a)) = fst (last ns)"
proof
  show "App_GetForeground (fold App_SetBundleInfo ns (fold App_SetForeground bs a)) = last bs"
    by (rule fg.last_write [OF assms(1)]) (simp add: App_GetForeground_def App_SetBundleInfo_def)
  show "App_GetBundleName (fold App_SetForeground bs (fold App_SetBundleInfo ns a)) = fst (last ns)"
    by (rule bn.last_write [OF assms(2)]) (simp add: App_GetBundleName_def App_SetForeground_def)
qed

text \<open>
  The time reserved for logging is six seconds on beta versions and three and a half on others, and the answer
  does not change any more once the parameter was not empty.
\<close>

theorem reserved_time_stable:
  assumes "param \<noteq> []" and "App_GetReservedTimeForLogging param AppWatchdogInner_init = (t, a)"
  shows "t = (if str_contains param ''beta'' then 6000 else 3500)"
    and "fst (App_GetReservedTimeForLogging param' a) = t"
  using assms
  by (auto simp: App_GetReservedTimeForLogging_def App_IsBetaVersion_def cached_flag_def AppWatchdogInner_init_def
      BETA_RESERVED_TIME_def DEFAULT_RESERVED_TIME_def Let_def split: if_splits)

end
