(* ===== verification/Spec2Isabelle.thy ===== *)
theory Spec2Isabelle
  imports
    Process_Kill_Reason Timer_Service Timer_Life Block_Report Watchdog_Ffrt Ndk_Hicollie Unwind_Memory Process_Signals Sampler_Sharing Watchdog_Facade Platform_Io App_Watchdog
begin

text \<open>
  A verification development of HiCollie, the software watchdog of OpenHarmony.

  \<^bold>\<open>The program.\<close> One singleton, \<^verbatim>\<open>WatchdogInner\<close>, keeps a priority queue of tasks ordered by their next tick and a thread that serves
  them. Clients register timers, count timers, checks of event handlers, periodic and one-shot tasks through the classes
  \<^verbatim>\<open>XCollie\<close>, \<^verbatim>\<open>Watchdog\<close> and \<^verbatim>\<open>IpcFull\<close> and the C functions of \<^verbatim>\<open>hicollie.cpp\<close>. A task that is due runs: a timer calls its callback and may
  end the process; a check asks the handler of a thread whether it is alive, warns when half the interval has passed without an answer,
  reports when all of it has, and may end the process or the peer that blocks it, which is found in the
  binder transactions of the kernel. Slow main threads, slow starts and slow scrolling register
  sampling tasks, which drive a sampler library: it interrupts the main thread with a signal, copies its stack into a ring of two
  buffers and unwinds the copies in the thread of the watchdog.

  \<^bold>\<open>The theories\<close>, each with the sources it models (under \<^verbatim>\<open>src/frameworks/native\<close> where not said otherwise):
  \<^item> \<open>Prelude\<close>: integers of the C++ code, the operations of \<^verbatim>\<open>std::string\<close> the sources call, collections of facts.
  \<^item> \<open>Process_Kill_Reason\<close>: \<^verbatim>\<open>process_kill_reason.cpp\<close> and the enumeration of its header; the binary search against a linear one.
  \<^item> \<open>Sample_Stack_Map\<close>: \<^verbatim>\<open>sample_stack_map.cpp\<close>; the locale \<open>stack_store\<close> states what the store promises, and it refines a finite map.
  \<^item> \<open>Handler_Checker\<close>: \<^verbatim>\<open>handler_checker.cpp\<close>; the watchdog and the watched thread as a step relation.
  \<^item> \<open>Xcollie_Strings\<close>: the text and number helpers of \<^verbatim>\<open>xcollie_utils.cpp\<close>.
  \<^item> \<open>Watchdog_State\<close>: \<^verbatim>\<open>watchdog_task.h\<close>, \<^verbatim>\<open>watchdog_inner_data.h\<close>, the members of \<^verbatim>\<open>WatchdogInner\<close> and their setters. The record \<open>WatchdogTask\<close> has
    the members of the class, \<open>WatchdogInner\<close> those of the singleton; what the code does to the outside is the list \<open>out\<close> of
    effects, the newest last.
  \<^item> \<open>App_Start_Config\<close>, \<open>Jank_Params\<close>: the parsers of the two configurations of the sampling, in \<^verbatim>\<open>watchdog_inner.cpp\<close>.
  \<^item> \<open>Watchdog_Queue\<close>: the priority queue, with the locale \<open>prio_queue\<close>. The order among equal ticks is left to the library by its documentation;
    no property rests on it.
  \<^item> \<open>Watchdog_Inner\<close>: the operations of \<^verbatim>\<open>WatchdogInner\<close> on the queue; every call of a client keeps the invariant \<open>wd_inv\<close>.
  \<^item> \<open>Timer_Service\<close>: what users of timers rely on, as the locale \<open>timer_service\<close>, interpreted on \<^verbatim>\<open>RunXCollieTask\<close> and \<^verbatim>\<open>RemoveXCollieTask\<close>.
  \<^item> \<open>Watchdog_Sampling\<close>: the sampling tasks of \<^verbatim>\<open>watchdog_inner.cpp\<close>, their closures and clean-up.
  \<^item> \<open>Watchdog_Task\<close>: \<^verbatim>\<open>watchdog_task.cpp\<close>, the run of a task. \<open>Block_Report\<close>: the stacks of a blocked thread from their
    sampling to the event.
  \<^item> \<open>Watchdog_Loop\<close>: the thread of the watchdog as a step relation \<open>loop_step\<close>, interleaved with the calls of clients.
    \<open>Watchdog_Stop\<close>: its end.
  \<^item> \<open>Watchdog_Ffrt\<close>: \<^verbatim>\<open>FfrtCallback\<close> and \<^verbatim>\<open>xcollie_ffrt_task.cpp\<close>.
  \<^item> \<open>Thread_Sampler\<close>: \<^verbatim>\<open>thread_sampler/\<close>, the ring as an instance of the locale \<open>bounded_fifo\<close>. \<open>Unwind_Memory\<close>: the memory the unwinder reads.
    \<open>Sampler_Bridge\<close>: the watchdog on top of the sampler, the state of both joined. \<open>Freeze_Session\<close>: the sampling of a freeze on
    that state, with the file it leaves, as a refinement of its closure. \<open>Jank_Session\<close>: the same for the profiles of the start, of
    scrolling and of the main thread, to the events they send and the logs they leave.
  \<^item> \<open>Sampler_Sharing\<close>: the features that share the sampler, as the step relation \<open>share_step\<close>: the looks of the main looper, the requests of
    clients, the runs of the closures and the removal of their tasks, in any order.
  \<^item> \<open>Process_Signals\<close>: the masks of the threads, the handler of the sampler's signal, the early start.
  \<^item> \<open>Binder_Info\<close>: the transactions of the kernel in \<^verbatim>\<open>xcollie_utils.cpp\<close>, the chain of blocked processes and its end.
  \<^item> \<open>Process_Files\<close>, \<open>Platform_Io\<close>: freeze logs, process information, clocks, and the other calls of the system in \<^verbatim>\<open>xcollie_utils.cpp\<close>.
  \<^item> \<open>Xcollie_Mgr\<close>: \<^verbatim>\<open>xcollie_mgr.cpp\<close>, the callback for a freeze report.
  \<^item> \<open>Client_Api\<close>, \<open>Watchdog_Facade\<close>: \<^verbatim>\<open>xcollie.cpp\<close>, \<^verbatim>\<open>ipc_full.cpp\<close>, \<^verbatim>\<open>watchdog.cpp\<close>. \<open>Ndk_Hicollie\<close>: \<^verbatim>\<open>src/interfaces/ndk/hicollie.cpp\<close>.
    \<open>App_Watchdog\<close>: \<^verbatim>\<open>src/frameworks/app\<close>.
  \<^item> This theory: the way of a timer from the C interface to its callback.

  \<^bold>\<open>What is shown.\<close> A timer accepted by the C interface is served when it is due, calls its callback once, and is gone (C1). In every
  interleaving of the thread with its clients the queue is ordered, no task is in it twice, at most one more than
  \<open>MAX_WATCH_NUM\<close> exists, and the earliest is served (C2, C3). A blocked thread is warned about half-way and then reported; the peers found
  are exactly those the transactions name. The sampler never touches memory outside its buffers, keeps the samples in order and unchanged, and
  what the watchdog collects, saves for a freeze and reports for a slow main thread, is made of exactly them. Start-up, scrolling and freeze never
  use the sampler at the same time. A request to stop ends the thread within three of its steps. The parsers accept what they should,
  reject without a change, and their round trips hold. Where the code does not do what its comments or its callers expect, the property
  states what it does: a posted check that fails is never posted again, a lost request stops the sampler for the rest of the session, an overlapping event of
  another thread hides a slow one, a name with a space shifts the field of the start time, a freeze sampling stopped between the fetch and
  the run of its task blocks the sampler for good, a profile of the main thread takes it from a freeze, the thread of the watchdog
  does not unblock the signal it means to.

  \<^bold>\<open>Conventions.\<close> Integers have the width of the code (\<open>u64\<close>, \<open>u32\<close>) where it is unsigned, and wrap around; signed ones are
  integers with the conversion written out (\<open>to_int32\<close>). Exceptions of the standard library are the left side of a sum, null pointers and failures
  \<^term>\<open>None\<close>. A preprocessor symbol is a field of the record \<open>env\<close>, so the theorems hold for builds with and without
  it; the build modelled is that for \<^verbatim>\<open>aarch64\<close> without \<^verbatim>\<open>SUPPORT_ASAN\<close>. What a call reads of the outside, clocks, files, parameters of the system, results of
  system calls, is an argument: a record of readings (\<open>stamp\<close>, \<open>run_in\<close>, \<open>probe\<close>, \<open>ndk_in\<close> and others) or a function. A closure is a
  constructor of \<open>task_fn\<close> with the values it captures. Loops whose end is not structural have a termination proof; there is no fuel.
  The wait before an exit, which need not end, is a partial function, with the condition under which it does.

  \<^bold>\<open>Granularity.\<close> A step of the thread is what it does between two places where other threads can come between: a critical section of the lock
  or the run of a task. A step of the sampler is one of its operations or one signal; the handler runs on the
  sampled thread and is taken as one step, and the memory as sequentially consistent. Races the code leaves open within such a step (a
  member read without its lock) are outside the model.

  \<^bold>\<open>Not modelled.\<close> Logging; the registration of hooks with other libraries; the unwinder, the table of unique stacks, the trace collector, the event
  library and the binder and file system calls themselves, which are parameters or effects; the contents of most events beyond
  the fields the code computes; the Rust binding, whose two C functions are modelled; headers that only declare; tests. What is left of
  the sources besides these is includes, declarations of methods and their comments.
\<close>

section \<open>A timer from its start to its callback\<close>

lemma new_timer_func:
  "task_name (new_timer e st nm timeout fn arg flag w) = GetLimitedSizeName nm"
  "task_func (new_timer e st nm timeout fn arg flag w) = fn" "task_arg (new_timer e st nm timeout fn arg flag w) = arg"
  "ucast (ucast timeout :: u32) \<noteq> (0 :: u64) \<Longrightarrow> is_timer (new_timer e st nm timeout fn arg flag w)"
  by (simp_all add: new_timer_def is_timer_def task_constructors) (simp_all add: set_times_def)

lemma ndk_timer_set:
  assumes "0 \<le> curId (wd n)" and "OH_HiCollie_SetTimer e i (Some nm) secs fn arg flag True n = (HICOLLIE_SUCCESS, idp, n')"
    and "curId (wd n) < 2 ^ 31 - 1"
  defines "t \<equiv> new_timer e (ni_stamp i) nm (ucast secs * TO_MILLISECOND_MULTPLE) fn arg flag (wd n)"
  shows "checkerQueue (wd n') = pq_push t (checkerQueue (wd n)) \<and> idp = Some (task_id t) \<and> nm \<noteq> [] \<and> secs \<noteq> 0"
proof -
  let ?r = "RunXCollieTask e (ni_stamp i) nm (ucast secs * TO_MILLISECOND_MULTPLE) fn arg flag (wd n)"
  have s: "nm \<noteq> [] \<and> secs \<noteq> 0 \<and> wd n' = snd ?r \<and> idp = Some (to_int32 (fst ?r)) \<and> to_int32 (fst ?r) \<noteq> 0 \<and> to_int32 (fst ?r) \<noteq> INVALID_ID"
    using assms(2) by (auto simp: OH_HiCollie_SetTimer_def XCollie_SetTimer_def Let_def split_beta split: if_splits)
  then have "fst ?r \<noteq> 0 \<and> fst ?r \<noteq> - 1" by (auto simp: to_int32_def INVALID_ID_def)
  moreover have "fst ?r = - 1 \<or> fst ?r = 0 \<or> fst ?r = curId (wd n) + 1"
    by (simp add: RunXCollie_result(1) [OF assms(1)])
  ultimately have "0 < fst ?r" using assms(1) by linarith
  from RunXCollie_accepted [OF prod.collapse [symmetric] this] s assms(1,3)
  show ?thesis by (simp add: t_def to_int32_def)
qed

lemma ndk_timer_call:
  "OH_HiCollie_SetTimer e i (Some nm) secs fn arg flag True n = (HICOLLIE_SUCCESS, idp, n') \<Longrightarrow>
   wd n' = snd (RunXCollieTask e (ni_stamp i) nm (ucast secs * TO_MILLISECOND_MULTPLE) fn arg flag (wd n))"
  by (auto simp: OH_HiCollie_SetTimer_def XCollie_SetTimer_def Let_def split_beta split: if_splits)

text \<open>
  Every run of \<open>t\<close> on \<open>w\<close>, whatever the clocks and the other readings, leaves the queue alone, is not followed by
  another, and calls the callback once and first, unless the device slept.
\<close>

definition fires_once :: "env \<Rightarrow> nat \<Rightarrow> nat \<Rightarrow> WatchdogTask \<Rightarrow> WatchdogInner \<Rightarrow> bool" where
  "fires_once e f arg t w \<longleftrightarrow>
     (\<forall>ri ts now ts'. \<exists>w'. run_task e ri ts now t w = (t, w') \<and> checkerQueue w' = checkerQueue w \<and>
        ReInsertTaskIfNeed e ts' t w' = w' \<and>
        (if SUSPEND_CHECK_ENABLE e \<and> IsInSleep e ts t then w' = w
         else \<exists>rest. out w' = out w @ ECallback f arg # rest \<and> (\<forall>g x. ECallback g x \<notin> set rest)))"

lemma timer_fires_once: "is_timer t \<Longrightarrow> task_func t = Some f \<Longrightarrow> fires_once e f (task_arg t) t w"
  unfolding fires_once_def using timer_run by (metis surj_pair)



end
